(* ===== verification/Prelude.thy ===== *)
theory Prelude
  imports Main "HOL-Library.Word"
begin

text \<open>
  Shared vocabulary of the development: the machine integers of the C++ code as words of
  their width, byte strings, the build platform, and the generic lemmas on big-endian
  byte sequences, lists and options that the component theories use.

  Conventions of all theories. A C++ object is a \<^theory_text>\<open>record\<close>; a member function takes the
  object last and returns its result together with the updated object. A function that
  reports failure through \<open>bool\<close> and an error string returns the error as a value (the
  message texts of the code are Chinese UTF-8 literals; each is one constructor of an error
  datatype). \<open>std::vector<std::byte>\<close>, \<open>std::span\<close> and \<open>std::vector<std::uint8_t>\<close> are
  lists of 8-bit words. \<open>std::size_t\<close> values that only count elements of a container are
  \<open>nat\<close>; every integer whose width matters is a word.
\<close>

unbundle bit_operations_syntax

section \<open>Machine types\<close>

type_synonym u8 = "8 word"
type_synonym u16 = "16 word"
type_synonym u32 = "32 word"
type_synonym u64 = "64 word"
type_synonym bytes = "u8 list"

text \<open>The two targets of the build: \<open>_WIN32\<close> defined or not.\<close>

datatype platform = Windows | Posix

named_theorems state_defs \<open>definitions of the operations, unfolded together in case analyses\<close>
named_theorems frame_simps \<open>fields an operation leaves alone\<close>

section \<open>Big-endian byte sequences\<close>

text \<open>
  \<open>be_bytes n v\<close> is the value \<open>v\<close> written as \<open>n\<close> bytes, most significant first, by
  shifting; \<open>be_value\<close> is the accumulator loop that reads it back.
\<close>

fun be_bytes :: "nat \<Rightarrow> 'a::len word \<Rightarrow> bytes" where
  "be_bytes 0 v = []"
| "be_bytes (Suc n) v = ucast (drop_bit (8 * n) v AND 0xFF) # be_bytes n v"

fun be_value :: "'a::len word \<Rightarrow> bytes \<Rightarrow> 'a word" where
  "be_value acc [] = acc"
| "be_value acc (b # bs) = be_value (push_bit 8 acc OR ucast b) bs"

lemma length_be_bytes [simp]: "length (be_bytes n v) = n"
  by (induction n) auto

lemma be_bytes_ne [simp]: "be_bytes n v = [] \<longleftrightarrow> n = 0"
  by (cases n) auto

lemma mask_byte_bit: "bit (0xFF :: 'a::len word) n \<longleftrightarrow> n < 8 \<and> n < LENGTH('a)"
proof -
  have eq: "(0xFF :: 'a word) = mask 8"
    by (simp add: mask_eq_exp_minus_1)
  show ?thesis
    unfolding eq bit_mask_iff by auto
qed

lemma mask_byte_bit_int: "bit (0xFF :: int) n \<longleftrightarrow> n < 8"
proof -
  have eq: "(0xFF :: int) = mask 8"
    by (simp add: mask_eq_exp_minus_1)
  show ?thesis
    unfolding eq bit_mask_iff by auto
qed

lemma drop_bit_byte_step:
  fixes v :: "'a::len word"
  shows "push_bit 8 (drop_bit (8 + s) v) OR ucast (ucast (drop_bit s v AND 0xFF) :: u8) = drop_bit s v"
proof (rule bit_word_eqI)
  fix n assume "n < LENGTH('a)"
  then show "bit (push_bit 8 (drop_bit (8 + s) v) OR ucast (ucast (drop_bit s v AND 0xFF) :: u8)) n
      = bit (drop_bit s v) n"
    by (cases "n < 8")
      (auto simp: bit_or_iff bit_push_bit_iff bit_drop_bit_eq bit_and_iff
        bit_ucast_iff mask_byte_bit mask_byte_bit_int add.commute dest: bit_imp_le_length)
qed

lemma be_value_be_bytes_acc:
  "be_value (drop_bit (8 * n) v) (be_bytes n v) = v"
proof (induction n)
  case 0
  then show ?case by simp
next
  case (Suc n)
  have "push_bit 8 (drop_bit (8 * Suc n) v) OR ucast (ucast (drop_bit (8 * n) v AND 0xFF) :: u8)
      = drop_bit (8 * n) v"
    using drop_bit_byte_step [of "8 * n" v] by (simp add: add.commute)
  then show ?case
    using Suc by simp
qed

lemma drop_bit_whole: "LENGTH('a) \<le> n \<Longrightarrow> drop_bit n (v :: 'a::len word) = 0"
  by (rule bit_word_eqI) (auto simp: bit_drop_bit_eq dest: bit_imp_le_length)

lemma be_value_be_bytes:
  fixes v :: "'a::len word"
  assumes "LENGTH('a) \<le> 8 * n"
  shows "be_value 0 (be_bytes n v) = v"
  using be_value_be_bytes_acc [of n v] drop_bit_whole [OF assms] by simp

section \<open>Counters that do not wrap\<close>

lemma unat_inc_no_wrap:
  fixes w :: "'a::len word"
  assumes "unat w + 1 < 2 ^ LENGTH('a)"
  shows "unat (w + 1) = unat w + 1"
  using assms by (simp add: unat_word_ariths)

lemma less_inc_no_wrap:
  fixes w :: "'a::len word"
  assumes "unat w + 1 < 2 ^ LENGTH('a)"
  shows "w < w + 1"
  using unat_inc_no_wrap [OF assms] by (simp add: word_less_nat_alt)

section \<open>Lists\<close>

lemma drop_exact: "length xs = n \<Longrightarrow> drop n (xs @ ys) = ys"
  by simp

lemma fold_nth_upt:
  assumes "offset + n \<le> length data"
  shows "fold (\<lambda>i. f (data ! (offset + i))) [0..<n] acc = fold f (take n (drop offset data)) acc"
proof -
  have "take n (drop offset data) = map (\<lambda>i. data ! (offset + i)) [0..<n]"
    using assms by (auto intro: nth_equalityI)
  then show ?thesis by (simp add: fold_map comp_def)
qed

lemma be_value_fold: "be_value acc bs = fold (\<lambda>b v. push_bit 8 v OR ucast b) bs acc"
  by (induction bs arbitrary: acc) auto

end
