(* ===== verification/Session.thy ===== *)
theory Session
  imports Prelude
begin

text \<open>
  The connection life cycle of \<^verbatim>\<open>src/session.cpp\<close> and \<^verbatim>\<open>include/tunnel/session.hpp\<close>: the
  state machine \<open>Session\<close> with its connection epoch, its guarded transition function and
  the server-side reset. The life cycle the comments describe is given separately as an
  inductive edge relation, and the transition function is proved to implement it.
\<close>

section \<open>State\<close>

text \<open>\<open>enum class SessionState\<close>.\<close>

datatype SessionState =
  Stopped | Connecting | Handshaking | Established | Closing | Failed

text \<open>The two private members \<open>state_\<close> and \<open>epoch_\<close> of class \<open>Session\<close>.\<close>

record Session =
  sess_state :: SessionState
  sess_epoch :: u64

text \<open>The default member initialisers.\<close>

definition new_session :: Session where
  "new_session = \<lparr>sess_state = Stopped, sess_epoch = 0\<rparr>"

section \<open>Operations\<close>

definition can_send_data :: "Session \<Rightarrow> bool" where
  "can_send_data s \<longleftrightarrow> sess_state s = Established"

text \<open>The local constant \<open>allowed\<close> of \<open>transition_to\<close>, disjunct by disjunct.\<close>

definition transition_allowed :: "SessionState \<Rightarrow> SessionState \<Rightarrow> bool" where
  "transition_allowed st nxt \<longleftrightarrow>
     (st = Stopped \<and> nxt = Connecting) \<or>
     (st = Connecting \<and> nxt = Handshaking) \<or>
     (st = Handshaking \<and> nxt = Established) \<or>
     (st = Established \<and> nxt = Closing) \<or>
     (st = Closing \<and> nxt = Stopped) \<or>
     (st \<noteq> Stopped \<and> nxt = Failed) \<or>
     (st = Failed \<and> nxt = Stopped)"

definition transition_to :: "SessionState \<Rightarrow> Session \<Rightarrow> bool \<times> Session" where
  "transition_to nxt s =
     (if \<not> transition_allowed (sess_state s) nxt then (False, s)
      else
        (let s' = s\<lparr>sess_state := nxt\<rparr>;
             s'' = (if nxt = Established then s'\<lparr>sess_epoch := sess_epoch s' + 1\<rparr> else s')
         in (True, s'')))"

definition reset_to_handshaking :: "Session \<Rightarrow> bool \<times> Session" where
  "reset_to_handshaking s0 =
     (let s1 = (if sess_state s0 = Established then snd (transition_to Closing s0) else s0);
          s2 = (if sess_state s1 = Closing \<or> sess_state s1 = Failed
                then snd (transition_to Stopped s1) else s1);
          s3 = (if sess_state s2 = Stopped then snd (transition_to Connecting s2) else s2)
      in if sess_state s3 = Connecting then transition_to Handshaking s3
         else (sess_state s3 = Handshaking, s3))"

text \<open>The display names, as the UTF-8 bytes of the literals.\<close>

fun to_string :: "SessionState \<Rightarrow> bytes" where
  "to_string Stopped = [229, 183, 178, 229, 129, 156, 230, 173, 162]"
  | "to_string Connecting = [230, 173, 163, 229, 156, 168, 232, 191, 158, 230, 142, 165]"
  | "to_string Handshaking = [230, 173, 163, 229, 156, 168, 229, 174, 137, 229, 133, 168, 230, 143, 161, 230, 137, 139]"
  | "to_string Established = [232, 191, 158, 230, 142, 165, 229, 183, 178, 229, 187, 186, 231, 171, 139]"
  | "to_string Closing = [230, 173, 163, 229, 156, 168, 229, 133, 179, 233, 151, 173]"
  | "to_string Failed = [232, 191, 158, 230, 142, 165, 229, 164, 177, 232, 180, 165]"

text \<open>A sequence of transition requests, and those of them that are granted.\<close>

fun session_run :: "SessionState list \<Rightarrow> Session \<Rightarrow> Session" where
  "session_run [] s = s"
| "session_run (n # ns) s = session_run ns (snd (transition_to n s))"

fun granted :: "SessionState list \<Rightarrow> Session \<Rightarrow> SessionState list" where
  "granted [] s = []"
| "granted (n # ns) s =
     (case transition_to n s of (ok, s') \<Rightarrow> (if ok then [n] else []) @ granted ns s')"

section \<open>The specified life cycle\<close>

inductive lifecycle_edge :: "SessionState \<Rightarrow> SessionState \<Rightarrow> bool" where
  begin_connect: "lifecycle_edge Stopped Connecting"
| begin_handshake: "lifecycle_edge Connecting Handshaking"
| complete_handshake: "lifecycle_edge Handshaking Established"
| begin_close: "lifecycle_edge Established Closing"
| finish_close: "lifecycle_edge Closing Stopped"
| fail: "st \<noteq> Stopped \<Longrightarrow> lifecycle_edge st Failed"
| recover: "lifecycle_edge Failed Stopped"

inductive_simps lifecycle_into [simp]:
  "lifecycle_edge st Stopped" "lifecycle_edge st Connecting" "lifecycle_edge st Handshaking"
  "lifecycle_edge st Established" "lifecycle_edge st Closing" "lifecycle_edge st Failed"

section \<open>Lemmas\<close>

lemma transition_allowed_edge: "transition_allowed st nxt \<longleftrightarrow> lifecycle_edge st nxt"
  by (cases nxt) (auto simp: transition_allowed_def)

lemma transition_to_eq:
  "transition_to nxt s =
     (if lifecycle_edge (sess_state s) nxt
      then (True, s\<lparr>sess_state := nxt,
                    sess_epoch := sess_epoch s + (if nxt = Established then 1 else 0)\<rparr>)
      else (False, s))"
  by (simp add: transition_to_def Let_def transition_allowed_edge)

lemma can_send_data_iff [simp]: "can_send_data s \<longleftrightarrow> sess_state s = Established"
  by (simp add: can_send_data_def)

lemma transition_to_rejected: "transition_to nxt s = (False, s') \<Longrightarrow> s' = s"
  by (simp add: transition_to_eq split: if_splits)

lemma transition_to_granted:
  "transition_to nxt s = (True, s') \<Longrightarrow> sess_state s' = nxt \<and> lifecycle_edge (sess_state s) nxt"
  by (auto simp: transition_to_eq split: if_splits)

lemma session_run_append: "session_run (xs @ ys) s = session_run ys (session_run xs s)"
  by (induction xs arbitrary: s) auto

lemma granted_append: "granted (xs @ ys) s = granted xs s @ granted ys (session_run xs s)"
  by (induction xs arbitrary: s) (auto split: prod.splits)

lemma session_run_snoc [simp]:
  "session_run (ns @ [n]) s = snd (transition_to n (session_run ns s))"
  by (simp add: session_run_append)

lemma granted_snoc [simp]:
  "granted (ns @ [n]) s = granted ns s @ (if fst (transition_to n (session_run ns s)) then [n] else [])"
  by (simp add: granted_append split: prod.splits)

text \<open>How each of the first three life-cycle states is entered, seen from the end of a run.\<close>

lemma run_state_history:
  "(sess_state (session_run ns new_session) = Connecting \<longrightarrow>
      (\<exists>pre. granted ns new_session = pre @ [Connecting])) \<and>
   (sess_state (session_run ns new_session) = Handshaking \<longrightarrow>
      (\<exists>pre. granted ns new_session = pre @ [Connecting, Handshaking])) \<and>
   (sess_state (session_run ns new_session) = Established \<longrightarrow>
      (\<exists>pre. granted ns new_session = pre @ [Connecting, Handshaking, Established]))"
proof (induction ns rule: rev_induct)
  case Nil
  show ?case by (simp add: new_session_def)
next
  case (snoc n ns)
  then show ?case
    by (cases n) (auto simp: transition_to_eq)
qed

lemma reset_to_handshaking_eq:
  "reset_to_handshaking s = (True, s\<lparr>sess_state := Handshaking\<rparr>)"
  by (cases s; cases "sess_state s")
    (simp_all add: reset_to_handshaking_def Let_def transition_to_eq)

text \<open>Data can be sent only after a complete handshake.\<close>

lemma can_send_only_after_handshake:
  assumes "can_send_data (session_run ns new_session)"
  shows "\<exists>pre. granted ns new_session = pre @ [Connecting, Handshaking, Established]"
  using assms run_state_history [of ns] by simp

text \<open>The 64-bit epoch is the number of granted transitions to established, modulo \<open>2 ^ 64\<close>.\<close>

lemma epoch_counts_connections:
  "sess_epoch (session_run ns new_session)
     = of_nat (count_list (granted ns new_session) Established)"
proof (induction ns rule: rev_induct)
  case Nil
  show ?case by (simp add: new_session_def)
next
  case (snoc n ns)
  then show ?case by (simp add: transition_to_eq)
qed

section \<open>Properties\<close>


end
