(* ===== verification/Inner_Session.thy ===== *)
theory Inner_Session
  imports Prelude "HOL-Library.Sublist"
begin

text \<open>
  The inner secure session of \<^verbatim>\<open>src/inner_session.cpp\<close>: the hex key decoder, the big-endian
  writers and readers, the development session (framing and a monotone sequence number
  only), the AES-GCM session built on Windows BCrypt, and the factory that chooses between
  them. BCrypt is not part of the repository: its calls are the fields of \<open>bcrypt_api\<close>, an
  argument of the definitions that use it.

  The interface class \<open>InnerSession\<close> is the locale \<open>inner_session_channel\<close>: what the tunnel
  engine relies on. Its consequence, that the accepted sequence numbers of a receiver
  strictly increase, is proved once and instantiated for both implementations.
\<close>

section \<open>Constants and configuration\<close>

abbreviation (input) kInnerFrameVersionDev :: u8 where "kInnerFrameVersionDev \<equiv> 0xFE"
abbreviation (input) kInnerFrameVersionAead :: u8 where "kInnerFrameVersionAead \<equiv> 0x01"
abbreviation (input) kInnerKeySize :: nat where "kInnerKeySize \<equiv> 32"
abbreviation (input) kInnerNonceSize :: nat where "kInnerNonceSize \<equiv> 12"
abbreviation (input) kInnerTagSize :: nat where "kInnerTagSize \<equiv> 16"
abbreviation (input) kInnerMaxPayloadSize :: nat where "kInnerMaxPayloadSize \<equiv> 2048"

record InnerSessionConfig =
  psk_hex :: string

text \<open>The values of \<open>last_error_\<close>, in the order the code sets them.\<close>

datatype inner_error =
    Payload_Too_Large
  | Dev_Frame_Too_Short
  | Version_Mismatch
  | Replay_Or_Reorder
  | Frame_Length_Invalid
  | Provider_Open_Failed
  | Gcm_Mode_Failed
  | Key_Generation_Failed
  | Aead_Not_Initialised
  | Encrypt_Failed
  | Aead_Frame_Too_Short
  | Decrypt_Failed
  | Decrypted_Too_Short
  | Decrypted_Length_Invalid

section \<open>Hex keys and byte order\<close>

text \<open>The \<open>char\<close> comparisons of the code, on the character's code point.\<close>

definition hex_nibble :: "char \<Rightarrow> u8" where
  "hex_nibble c =
     (let n = (of_char c :: nat) in
      if 48 \<le> n \<and> n \<le> 57 then of_nat (n - 48)
      else if 97 \<le> n \<and> n \<le> 102 then of_nat (10 + n - 97)
      else if 65 \<le> n \<and> n \<le> 70 then of_nat (10 + n - 65)
      else 0xFF)"

text \<open>The loop of \<open>decode_hex_key\<close>: two characters per key byte, left to right.\<close>

fun decode_hex_pairs :: "string \<Rightarrow> bytes option" where
  "decode_hex_pairs (h # l # rest) =
     (let high = hex_nibble h; low = hex_nibble l in
      if high = 0xFF \<or> low = 0xFF then None
      else map_option ((#) (push_bit 4 high OR low)) (decode_hex_pairs rest))"
| "decode_hex_pairs _ = Some []"

definition decode_hex_key :: "string \<Rightarrow> bytes option" where
  "decode_hex_key hex =
     (if length hex \<noteq> kInnerKeySize * 2 then None else decode_hex_pairs hex)"

text \<open>The four byte-order helpers: \<open>out.push_back\<close> in a loop, and the reads at an offset.\<close>

definition write_u64_be :: "bytes \<Rightarrow> u64 \<Rightarrow> bytes" where
  "write_u64_be out v =
     out @ map (\<lambda>shift. ucast (drop_bit shift v AND 0xFF)) [56, 48, 40, 32, 24, 16, 8, 0]"

definition write_u16_be :: "bytes \<Rightarrow> u16 \<Rightarrow> bytes" where
  "write_u16_be out v = out @ [ucast (drop_bit 8 v AND 0xFF), ucast (v AND 0xFF)]"

definition read_u64_be :: "bytes \<Rightarrow> nat \<Rightarrow> u64" where
  "read_u64_be data offset =
     fold (\<lambda>i v. push_bit 8 v OR ucast (data ! (offset + i))) [0..<8] 0"

definition read_u16_be :: "bytes \<Rightarrow> nat \<Rightarrow> u16" where
  "read_u16_be data offset =
     push_bit 8 (ucast (data ! offset)) OR ucast (data ! (offset + 1))"

section \<open>The development session\<close>

record DevelopmentInnerSession =
  dev_send_seq :: u64
  dev_recv_seq :: u64
  dev_error :: "inner_error option"

definition new_dev_session :: DevelopmentInnerSession where
  "new_dev_session = \<lparr>dev_send_seq = 0, dev_recv_seq = 0, dev_error = None\<rparr>"

text \<open>\<open>Some frame\<close>: \<open>seal\<close> returned true and left \<open>frame\<close> in \<open>ciphertext\<close>.\<close>

definition dev_seal :: "bytes \<Rightarrow> DevelopmentInnerSession \<Rightarrow> bytes option \<times> DevelopmentInnerSession" where
  "dev_seal plaintext s =
     (if kInnerMaxPayloadSize < length plaintext
      then (None, s\<lparr>dev_error := Some Payload_Too_Large\<rparr>)
      else
        (let s' = s\<lparr>dev_send_seq := dev_send_seq s + 1\<rparr>;
             c1 = [kInnerFrameVersionDev];
             c2 = write_u64_be c1 (dev_send_seq s');
             c3 = write_u16_be c2 (of_nat (length plaintext))
         in (Some (c3 @ plaintext), s')))"

definition dev_open :: "bytes \<Rightarrow> DevelopmentInnerSession \<Rightarrow> bytes option \<times> DevelopmentInnerSession" where
  "dev_open ciphertext s =
     (if length ciphertext < 1 + 8 + 2 then (None, s\<lparr>dev_error := Some Dev_Frame_Too_Short\<rparr>)
      else if ciphertext ! 0 \<noteq> kInnerFrameVersionDev
      then (None, s\<lparr>dev_error := Some Version_Mismatch\<rparr>)
      else
        (let sequence = read_u64_be ciphertext 1 in
         if sequence \<le> dev_recv_seq s then (None, s\<lparr>dev_error := Some Replay_Or_Reorder\<rparr>)
         else
           (let payload_size = unat (read_u16_be ciphertext 9) in
            if kInnerMaxPayloadSize < payload_size \<or> length ciphertext < 1 + 8 + 2 + payload_size
            then (None, s\<lparr>dev_error := Some Frame_Length_Invalid\<rparr>)
            else (Some (take payload_size (drop 11 ciphertext)),
                  s\<lparr>dev_recv_seq := sequence\<rparr>))))"

section \<open>The AES-GCM session\<close>

text \<open>
  The BCrypt calls. A status of zero is success. \<open>bc_encrypt\<close> and \<open>bc_decrypt\<close> take the
  key, the nonce, the input (for decryption also the tag) and the size of the output
  buffer, and give the bytes written (for encryption also the tag), or \<open>None\<close> for a
  non-zero status. The code passes no additional authenticated data.
\<close>

record bcrypt_api =
  bc_open_provider :: bool
  bc_set_gcm_mode :: bool
  bc_generate_key :: "bytes \<Rightarrow> bool"
  bc_encrypt :: "bytes \<Rightarrow> bytes \<Rightarrow> bytes \<Rightarrow> nat \<Rightarrow> (bytes \<times> bytes) option"
  bc_decrypt :: "bytes \<Rightarrow> bytes \<Rightarrow> bytes \<Rightarrow> bytes \<Rightarrow> nat \<Rightarrow> bytes option"

text \<open>
  The object; the two handles are represented by whether they are set. The three scratch
  arrays \<open>plain_buffer_\<close>, \<open>cipher_buffer_\<close> and \<open>tag_\<close> are written before they are read in
  every call, so only their sizes matter (\<open>kInnerMaxPayloadSize + 2\<close>, and the tag size).
\<close>

record BcryptInnerSession =
  bc_key :: bytes
  bc_aes_alg :: bool
  bc_key_handle :: bool
  bc_send_seq :: u64
  bc_recv_seq :: u64
  bc_error :: "inner_error option"

definition new_bcrypt_session :: "bytes \<Rightarrow> BcryptInnerSession" where
  "new_bcrypt_session key =
     \<lparr>bc_key = key, bc_aes_alg = False, bc_key_handle = False,
      bc_send_seq = 0, bc_recv_seq = 0, bc_error = None\<rparr>"

definition bcrypt_initialize :: "bcrypt_api \<Rightarrow> BcryptInnerSession \<Rightarrow> bool \<times> BcryptInnerSession" where
  "bcrypt_initialize api s =
     (if \<not> bc_open_provider api then (False, s\<lparr>bc_error := Some Provider_Open_Failed\<rparr>)
      else
        (let s1 = s\<lparr>bc_aes_alg := True\<rparr> in
         if \<not> bc_set_gcm_mode api then (False, s1\<lparr>bc_error := Some Gcm_Mode_Failed\<rparr>)
         else if \<not> bc_generate_key api (bc_key s1)
         then (False, s1\<lparr>bc_error := Some Key_Generation_Failed\<rparr>)
         else (True, s1\<lparr>bc_key_handle := True\<rparr>)))"

definition bcrypt_is_ready :: "BcryptInnerSession \<Rightarrow> bool" where
  "bcrypt_is_ready s \<longleftrightarrow> bc_key_handle s"

text \<open>
  The nonce: a zeroed array of twelve bytes whose first eight are the sequence number as it
  lies in memory (\<open>memcpy\<close> on a little-endian target).
\<close>

definition nonce_of :: "u64 \<Rightarrow> bytes" where
  "nonce_of sequence =
     map (\<lambda>i. ucast (drop_bit (8 * i) sequence AND 0xFF)) [0..<8] @ replicate (kInnerNonceSize - 8) 0"

definition bcrypt_seal ::
  "bcrypt_api \<Rightarrow> bytes \<Rightarrow> BcryptInnerSession \<Rightarrow> bytes option \<times> BcryptInnerSession" where
  "bcrypt_seal api plaintext s =
     (if \<not> bcrypt_is_ready s then (None, s\<lparr>bc_error := Some Aead_Not_Initialised\<rparr>)
      else if kInnerMaxPayloadSize < length plaintext
      then (None, s\<lparr>bc_error := Some Payload_Too_Large\<rparr>)
      else
        (let plain_frame = write_u16_be [] (of_nat (length plaintext)) @ plaintext;
             sequence = bc_send_seq s + 1;
             s' = s\<lparr>bc_send_seq := sequence\<rparr>;
             nonce = nonce_of sequence
         in case bc_encrypt api (bc_key s') nonce plain_frame (kInnerMaxPayloadSize + 2) of
              None \<Rightarrow> (None, s'\<lparr>bc_error := Some Encrypt_Failed\<rparr>)
            | Some (cipher, tag) \<Rightarrow>
                (Some (write_u64_be [kInnerFrameVersionAead] sequence @ nonce @ cipher @ tag), s')))"

definition bcrypt_open ::
  "bcrypt_api \<Rightarrow> bytes \<Rightarrow> BcryptInnerSession \<Rightarrow> bytes option \<times> BcryptInnerSession" where
  "bcrypt_open api ciphertext s =
     (let header_size = 1 + 8 + kInnerNonceSize + kInnerTagSize in
      if \<not> bcrypt_is_ready s then (None, s\<lparr>bc_error := Some Aead_Not_Initialised\<rparr>)
      else if length ciphertext < header_size + 2
      then (None, s\<lparr>bc_error := Some Aead_Frame_Too_Short\<rparr>)
      else if ciphertext ! 0 \<noteq> kInnerFrameVersionAead
      then (None, s\<lparr>bc_error := Some Version_Mismatch\<rparr>)
      else
        (let sequence = read_u64_be ciphertext 1 in
         if sequence \<le> bc_recv_seq s then (None, s\<lparr>bc_error := Some Replay_Or_Reorder\<rparr>)
         else
           (let nonce = take kInnerNonceSize (drop 9 ciphertext);
                cipher_size = length ciphertext - header_size;
                cipher = take cipher_size (drop (9 + kInnerNonceSize) ciphertext);
                tag = take kInnerTagSize (drop (9 + kInnerNonceSize + cipher_size) ciphertext)
            in case bc_decrypt api (bc_key s) nonce cipher tag (kInnerMaxPayloadSize + 2) of
                 None \<Rightarrow> (None, s\<lparr>bc_error := Some Decrypt_Failed\<rparr>)
               | Some plain \<Rightarrow>
                   if length plain < 2 then (None, s\<lparr>bc_error := Some Decrypted_Too_Short\<rparr>)
                   else
                     (let payload_size = unat (read_u16_be plain 0) in
                      if kInnerMaxPayloadSize < payload_size \<or> length plain < 2 + payload_size
                      then (None, s\<lparr>bc_error := Some Decrypted_Length_Invalid\<rparr>)
                      else (Some (take payload_size (drop 2 plain)),
                            s\<lparr>bc_recv_seq := sequence\<rparr>)))))"

definition bcrypt_close_key :: "BcryptInnerSession \<Rightarrow> BcryptInnerSession" where
  "bcrypt_close_key s =
     (let s1 = (if bc_key_handle s then s\<lparr>bc_key_handle := False\<rparr> else s)
      in if bc_aes_alg s1 then s1\<lparr>bc_aes_alg := False\<rparr> else s1)"

section \<open>The interface and the factory\<close>

text \<open>The dynamic dispatch of \<open>InnerSession\<close>: the two implementing classes.\<close>

datatype inner_session =
    Development DevelopmentInnerSession
  | Bcrypt BcryptInnerSession

fun inner_is_ready :: "inner_session \<Rightarrow> bool" where
  "inner_is_ready (Development d) = True"
| "inner_is_ready (Bcrypt b) = bcrypt_is_ready b"

fun inner_seal :: "bcrypt_api \<Rightarrow> bytes \<Rightarrow> inner_session \<Rightarrow> bytes option \<times> inner_session" where
  "inner_seal api p (Development d) = (case dev_seal p d of (r, d') \<Rightarrow> (r, Development d'))"
| "inner_seal api p (Bcrypt b) = (case bcrypt_seal api p b of (r, b') \<Rightarrow> (r, Bcrypt b'))"

fun inner_open :: "bcrypt_api \<Rightarrow> bytes \<Rightarrow> inner_session \<Rightarrow> bytes option \<times> inner_session" where
  "inner_open api c (Development d) = (case dev_open c d of (r, d') \<Rightarrow> (r, Development d'))"
| "inner_open api c (Bcrypt b) = (case bcrypt_open api c b of (r, b') \<Rightarrow> (r, Bcrypt b'))"

text \<open>\<open>None\<close>: the factory returned a null pointer.\<close>

definition create_inner_session ::
  "platform \<Rightarrow> bcrypt_api \<Rightarrow> InnerSessionConfig \<Rightarrow> inner_session option" where
  "create_inner_session plat api config =
     (if psk_hex config = [] then Some (Development new_dev_session)
      else
        (case decode_hex_key (psk_hex config) of
           None \<Rightarrow> None
         | Some key \<Rightarrow>
             (case plat of
                Windows \<Rightarrow>
                  (case bcrypt_initialize api (new_bcrypt_session key) of
                     (ok, session) \<Rightarrow> if \<not> ok then None else Some (Bcrypt session))
              | Posix \<Rightarrow> Some (Development new_dev_session))))"

section \<open>Sequences of calls\<close>

text \<open>
  Sealing a list of payloads gives the pairs of a payload and its frame; opening a list of
  frames gives the accepted frames with their payloads. Both are generic in the session.
\<close>

fun seal_all :: "(bytes \<Rightarrow> 's \<Rightarrow> bytes option \<times> 's) \<Rightarrow> bytes list \<Rightarrow> 's \<Rightarrow> (bytes \<times> bytes) list \<times> 's" where
  "seal_all f [] s = ([], s)"
| "seal_all f (p # ps) s =
     (case f p s of
        (None, s') \<Rightarrow> seal_all f ps s'
      | (Some c, s') \<Rightarrow> (case seal_all f ps s' of (qs, s'') \<Rightarrow> ((p, c) # qs, s'')))"

fun open_all :: "(bytes \<Rightarrow> 's \<Rightarrow> bytes option \<times> 's) \<Rightarrow> bytes list \<Rightarrow> 's \<Rightarrow> (bytes \<times> bytes) list \<times> 's" where
  "open_all g [] s = ([], s)"
| "open_all g (c # cs) s =
     (case g c s of
        (None, s') \<Rightarrow> open_all g cs s'
      | (Some p, s') \<Rightarrow> (case open_all g cs s' of (qs, s'') \<Rightarrow> ((p, c) # qs, s'')))"

text \<open>A session used in both directions: any interleaving of seals and opens.\<close>

datatype inner_op = Do_Seal bytes | Do_Open bytes

fun channel_run ::
  "(bytes \<Rightarrow> 's \<Rightarrow> bytes option \<times> 's) \<Rightarrow> (bytes \<Rightarrow> 's \<Rightarrow> bytes option \<times> 's) \<Rightarrow>
   inner_op list \<Rightarrow> 's \<Rightarrow> bytes list \<times> bytes list \<times> 's" where
  "channel_run f g [] s = ([], [], s)"
| "channel_run f g (Do_Seal p # ops) s =
     (case f p s of (r, s') \<Rightarrow>
        (case channel_run f g ops s' of (emitted, accepted, s'') \<Rightarrow>
           ((case r of None \<Rightarrow> emitted | Some c \<Rightarrow> c # emitted), accepted, s'')))"
| "channel_run f g (Do_Open c # ops) s =
     (case g c s of (r, s') \<Rightarrow>
        (case channel_run f g ops s' of (emitted, accepted, s'') \<Rightarrow>
           (emitted, (case r of None \<Rightarrow> accepted | Some p \<Rightarrow> c # accepted), s'')))"

section \<open>The interface\<close>

text \<open>
  What \<open>InnerSession\<close> promises its user: an accepted frame carries a sequence number above
  the last accepted one and moves the receive counter there; a rejected frame moves
  nothing; sealing never touches the receive counter and stamps the frame with the next
  value of the send counter.
\<close>

locale inner_session_channel =
  fixes seal :: "bytes \<Rightarrow> 's \<Rightarrow> bytes option \<times> 's"
    and open_frame :: "bytes \<Rightarrow> 's \<Rightarrow> bytes option \<times> 's"
    and send_seq :: "'s \<Rightarrow> u64"
    and recv_seq :: "'s \<Rightarrow> u64"
    and frame_seq :: "bytes \<Rightarrow> u64"
  assumes open_Some: "open_frame c s = (Some p, s') \<Longrightarrow>
      recv_seq s < frame_seq c \<and> recv_seq s' = frame_seq c \<and> send_seq s' = send_seq s"
    and open_None: "open_frame c s = (None, s') \<Longrightarrow>
      recv_seq s' = recv_seq s \<and> send_seq s' = send_seq s"
    and seal_Some: "seal p s = (Some c, s') \<Longrightarrow>
      send_seq s' = send_seq s + 1 \<and> frame_seq c = send_seq s' \<and> recv_seq s' = recv_seq s"
    and seal_None: "seal p s = (None, s') \<Longrightarrow>
      (send_seq s' = send_seq s \<or> send_seq s' = send_seq s + 1) \<and> recv_seq s' = recv_seq s"
begin

lemma accepted_strictly_increasing:
  "channel_run seal open_frame ops s = (emitted, accepted, s') \<Longrightarrow>
     sorted_wrt (<) (map frame_seq accepted) \<and> (\<forall>c \<in> set accepted. recv_seq s < frame_seq c)"
proof (induction ops arbitrary: s emitted accepted s')
  case Nil
  then show ?case by simp
next
  case (Cons op ops)
  show ?case
  proof (cases op)
    case (Do_Seal p)
    obtain r s1 where f: "seal p s = (r, s1)" by fastforce
    then have "recv_seq s1 = recv_seq s" using seal_Some seal_None by (cases r) blast+
    with Cons Do_Seal f show ?thesis by (fastforce split: prod.splits)
  next
    case (Do_Open c)
    obtain r s1 where g: "open_frame c s = (r, s1)" by fastforce
    obtain em acc s2 where rest: "channel_run seal open_frame ops s1 = (em, acc, s2)"
      by (metis prod_cases3)
    note ih = Cons.IH [OF rest]
    show ?thesis
    proof (cases r)
      case None
      with g open_None have "recv_seq s1 = recv_seq s" by blast
      with None ih Cons.prems Do_Open g rest show ?thesis by simp
    next
      case (Some p)
      with g open_Some have "recv_seq s < frame_seq c" and "recv_seq s1 = frame_seq c" by blast+
      with Some ih Cons.prems Do_Open g rest show ?thesis by fastforce
    qed
  qed
qed

lemma accepted_at_most_once:
  assumes "channel_run seal open_frame ops s = (emitted, accepted, s')"
  shows "distinct accepted"
proof -
  have "distinct (map frame_seq accepted)"
    using accepted_strictly_increasing [OF assms] strict_sorted_iff by blast
  then show ?thesis by (simp add: distinct_map)
qed

lemma emitted_strictly_increasing:
  "channel_run seal open_frame ops s = (emitted, accepted, s') \<Longrightarrow>
   unat (send_seq s) + length ops < 2 ^ 64 \<Longrightarrow>
     sorted_wrt (<) (map frame_seq emitted) \<and> (\<forall>c \<in> set emitted. send_seq s < frame_seq c)"
proof (induction ops arbitrary: s emitted accepted s')
  case Nil
  then show ?case by simp
next
  case (Cons op ops)
  have small: "unat (send_seq s) + 1 < 2 ^ LENGTH(64)" using Cons.prems(2) by simp
  note inc = less_inc_no_wrap [OF small] unat_inc_no_wrap [OF small]
  show ?case
  proof (cases op)
    case (Do_Open c)
    obtain r s1 where g: "open_frame c s = (r, s1)" by fastforce
    then have "send_seq s1 = send_seq s" using open_Some open_None by (cases r) blast+
    with Cons Do_Open g show ?thesis by (fastforce split: prod.splits)
  next
    case (Do_Seal p)
    obtain r s1 where f: "seal p s = (r, s1)" by fastforce
    obtain em acc s2 where rest: "channel_run seal open_frame ops s1 = (em, acc, s2)"
      by (metis prod_cases3)
    have step: "send_seq s1 = send_seq s \<or> send_seq s1 = send_seq s + 1"
      using f seal_Some seal_None by (cases r) blast+
    have "unat (send_seq s1) + length ops < 2 ^ 64"
      using step inc(2) Cons.prems(2) by auto
    note ih = Cons.IH [OF rest this]
    have above: "\<forall>c \<in> set em. send_seq s < frame_seq c"
      using ih step inc(1) by (auto dest: less_trans)
    show ?thesis
    proof (cases r)
      case None
      with above ih Cons.prems Do_Seal f rest show ?thesis by simp
    next
      case (Some c)
      with f seal_Some have "frame_seq c = send_seq s + 1" and "send_seq s1 = send_seq s + 1"
        by auto
      with Some above ih inc(1) Cons.prems Do_Seal f rest show ?thesis by auto
    qed
  qed
qed

end

text \<open>
  Two ends of a tunnel: \<open>linked s r\<close> says that what \<open>s\<close> seals, \<open>r\<close> can open. Frames may be
  lost between the ends, but those that arrive keep their order.
\<close>

locale inner_session_link =
  inner_session_channel seal open_frame send_seq recv_seq frame_seq
  for seal :: "bytes \<Rightarrow> 's \<Rightarrow> bytes option \<times> 's"
    and open_frame :: "bytes \<Rightarrow> 's \<Rightarrow> bytes option \<times> 's"
    and send_seq :: "'s \<Rightarrow> u64"
    and recv_seq :: "'s \<Rightarrow> u64"
    and frame_seq :: "bytes \<Rightarrow> u64" +
  fixes linked :: "'s \<Rightarrow> 's \<Rightarrow> bool"
    and max_payload :: nat
  assumes seal_ok: "linked s r \<Longrightarrow> length p \<le> max_payload \<Longrightarrow> \<exists>c s'. seal p s = (Some c, s')"
    and link_round_trip: "linked s r \<Longrightarrow> seal p s = (Some c, s') \<Longrightarrow> recv_seq r < send_seq s' \<Longrightarrow>
      \<exists>r'. open_frame c r = (Some p, r')"
    and linked_seal: "linked s r \<Longrightarrow> seal p s = (x, s') \<Longrightarrow> linked s' r"
    and linked_open: "linked s r \<Longrightarrow> open_frame c r = (y, r') \<Longrightarrow> linked s r'"
begin

lemma seal_all_complete:
  "linked s r \<Longrightarrow> (\<forall>p \<in> set ps. length p \<le> max_payload) \<Longrightarrow> map fst (fst (seal_all seal ps s)) = ps"
proof (induction ps arbitrary: s)
  case Nil
  then show ?case by simp
next
  case (Cons p ps)
  then obtain c s' where f: "seal p s = (Some c, s')" using seal_ok by (metis list.set_intros(1))
  with Cons linked_seal have "map fst (fst (seal_all seal ps s')) = ps" by (meson list.set_intros(2))
  with f show ?case by (auto split: prod.splits)
qed

lemma seal_all_nth:
  "linked s r \<Longrightarrow> (\<forall>p \<in> set ps. length p \<le> max_payload) \<Longrightarrow> i < length ps \<Longrightarrow>
     frame_seq (snd (fst (seal_all seal ps s) ! i)) = send_seq s + of_nat (Suc i)"
proof (induction ps arbitrary: s i)
  case Nil
  then show ?case by simp
next
  case (Cons p ps)
  obtain c s1 where f: "seal p s = (Some c, s1)"
    using seal_ok [OF Cons.prems(1), of p] Cons.prems(2) by auto
  obtain qs s2 where rest: "seal_all seal ps s1 = (qs, s2)" by fastforce
  note s1 = seal_Some [OF f]
  show ?case
  proof (cases i)
    case 0
    with f rest s1 show ?thesis by simp
  next
    case (Suc j)
    have "frame_seq (snd (fst (seal_all seal ps s1) ! j)) = send_seq s1 + of_nat (Suc j)"
      using Cons.IH [of s1 j] linked_seal [OF Cons.prems(1) f] Cons.prems(2,3) Suc by simp
    with Suc f rest s1 show ?thesis by (simp add: algebra_simps)
  qed
qed

lemma stream_delivery:
  "linked s r \<Longrightarrow> recv_seq r \<le> send_seq s \<Longrightarrow> unat (send_seq s) + length ps < 2 ^ 64 \<Longrightarrow>
   (\<forall>p \<in> set ps. length p \<le> max_payload) \<Longrightarrow> subseq qs (fst (seal_all seal ps s)) \<Longrightarrow>
     fst (open_all open_frame (map snd qs) r) = qs"
proof (induction ps arbitrary: s r qs)
  case Nil
  then have "qs = []" by (simp add: list_emb_Nil2)
  then show ?case by simp
next
  case (Cons p ps)
  obtain c s1 where f: "seal p s = (Some c, s1)"
    using seal_ok [OF Cons.prems(1), of p] Cons.prems(4) by auto
  have small: "unat (send_seq s) + 1 < 2 ^ LENGTH(64)" using Cons.prems(3) by simp
  note inc = less_inc_no_wrap [OF small] unat_inc_no_wrap [OF small]
  have s1: "send_seq s1 = send_seq s + 1" "frame_seq c = send_seq s1"
    using seal_Some [OF f] by auto
  have room: "unat (send_seq s1) + length ps < 2 ^ 64" using s1 inc(2) Cons.prems(3) by simp
  have lt: "recv_seq r < send_seq s1" using Cons.prems(2) s1 inc(1) by (simp add: le_less_trans)
  obtain rest s2 where rs: "seal_all seal ps s1 = (rest, s2)" by fastforce
  have small_ps: "\<forall>p \<in> set ps. length p \<le> max_payload" using Cons.prems(4) by simp
  have sub: "subseq qs ((p, c) # rest)" using Cons.prems(5) f rs by simp
  show ?case
  proof (cases "\<exists>qs'. qs = (p, c) # qs' \<and> subseq qs' rest")
    case True
    then obtain qs' where qs: "qs = (p, c) # qs'" "subseq qs' rest" by blast
    obtain r' where o: "open_frame c r = (Some p, r')"
      using link_round_trip Cons.prems(1) f lt by blast
    have "linked s1 r'" using linked_seal linked_open Cons.prems(1) f o by blast
    moreover have "recv_seq r' \<le> send_seq s1" using open_Some [OF o] s1 by simp
    ultimately have ih: "fst (open_all open_frame (map snd qs') r') = qs'"
      using Cons.IH [of s1 r' qs'] room small_ps qs(2) rs by simp
    obtain out r'' where "open_all open_frame (map snd qs') r' = (out, r'')" by fastforce
    with ih qs(1) o show ?thesis by simp
  next
    case False
    with sub have "subseq qs rest" by (cases qs) (auto simp: subseq_Cons2_iff split: if_splits)
    moreover have "linked s1 r" using linked_seal Cons.prems(1) f by blast
    ultimately show ?thesis using Cons.IH [of s1 r qs] room small_ps lt rs by simp
  qed
qed

end

section \<open>Lemmas on frames\<close>

definition frame_sequence :: "bytes \<Rightarrow> u64" where
  "frame_sequence c = read_u64_be c 1"

lemma write_u64_be_eq [simp]: "write_u64_be out v = out @ be_bytes 8 v"
  by (simp add: write_u64_be_def numeral_eq_Suc)

lemma write_u16_be_eq [simp]: "write_u16_be out v = out @ be_bytes 2 v"
  by (simp add: write_u16_be_def numeral_2_eq_2)

lemma read_u64_be_eq:
  "offset + 8 \<le> length data \<Longrightarrow> read_u64_be data offset = be_value 0 (take 8 (drop offset data))"
  by (simp add: read_u64_be_def be_value_fold fold_nth_upt [where f = "\<lambda>b v. push_bit 8 v OR ucast b"])

lemma read_u16_be_eq:
  assumes "offset + 2 \<le> length data"
  shows "read_u16_be data offset = be_value 0 (take 2 (drop offset data))"
proof -
  have "take 2 (drop offset data) = [data ! offset, data ! (offset + 1)]"
    using assms by (auto simp: numeral_2_eq_2 take_Suc_conv_app_nth)
  then show ?thesis by (simp add: read_u16_be_def)
qed

lemma frame_sequence_written [simp]: "frame_sequence (v # be_bytes 8 q @ rest) = q"
  by (simp add: frame_sequence_def read_u64_be_eq be_value_be_bytes)

lemma read_u16_be_written:
  "length pre = n \<Longrightarrow> read_u16_be (pre @ be_bytes 2 v @ rest) n = v"
  by (simp add: read_u16_be_eq be_value_be_bytes)

lemma unat_of_nat_u16: "n \<le> 2048 \<Longrightarrow> unat (of_nat n :: u16) = n"
  by (simp add: unat_of_nat take_bit_nat_eq_self_iff)

lemma length_nonce_of [simp]: "length (nonce_of q) = 12"
  by (simp add: nonce_of_def)

text \<open>What \<open>dev_seal\<close> and \<open>dev_open\<close> do, by outcome.\<close>

lemma dev_seal_Some_iff:
  "dev_seal p s = (Some c, s') \<longleftrightarrow>
     length p \<le> 2048 \<and> s' = s\<lparr>dev_send_seq := dev_send_seq s + 1\<rparr> \<and>
     c = 0xFE # be_bytes 8 (dev_send_seq s + 1) @ be_bytes 2 (of_nat (length p) :: u16) @ p"
  by (auto simp: dev_seal_def Let_def)

lemma dev_seal_None_iff:
  "dev_seal p s = (None, s') \<longleftrightarrow>
     2048 < length p \<and> s' = s\<lparr>dev_error := Some Payload_Too_Large\<rparr>"
  by (auto simp: dev_seal_def Let_def)

lemma dev_open_Some_iff:
  "dev_open c s = (Some p, s') \<longleftrightarrow>
     11 \<le> length c \<and> c ! 0 = 0xFE \<and> dev_recv_seq s < frame_sequence c \<and>
     (let n = unat (read_u16_be c 9) in
        n \<le> 2048 \<and> 11 + n \<le> length c \<and> p = take n (drop 11 c)) \<and>
     s' = s\<lparr>dev_recv_seq := frame_sequence c\<rparr>"
  by (auto simp: dev_open_def Let_def frame_sequence_def not_less not_le)

lemma dev_open_None: "dev_open c s = (None, s') \<Longrightarrow> \<exists>e. s' = s\<lparr>dev_error := Some e\<rparr>"
  by (auto simp: dev_open_def Let_def split: if_splits)

lemma dev_open_sealed:
  assumes "length p \<le> 2048" and "dev_recv_seq s < q"
  shows "dev_open (0xFE # be_bytes 8 q @ be_bytes 2 (of_nat (length p) :: u16) @ p) s
           = (Some p, s\<lparr>dev_recv_seq := q\<rparr>)"
proof -
  let ?c = "0xFE # be_bytes 8 q @ be_bytes 2 (of_nat (length p) :: u16) @ p"
  have "read_u16_be ((0xFE # be_bytes 8 q) @ be_bytes 2 (of_nat (length p) :: u16) @ p) 9 = of_nat (length p)"
    by (rule read_u16_be_written) simp
  then have "unat (read_u16_be ?c 9) = length p"
    using assms(1) by (simp add: unat_of_nat_u16)
  moreover have "frame_sequence ?c = q" by simp
  ultimately show ?thesis
    using assms unfolding dev_open_Some_iff by (simp add: Let_def)
qed

text \<open>What \<open>bcrypt_seal\<close> and \<open>bcrypt_open\<close> do, by outcome.\<close>

lemma bcrypt_seal_Some_iff:
  "bcrypt_seal api p s = (Some c, s') \<longleftrightarrow>
     bc_key_handle s \<and> length p \<le> 2048 \<and> s' = s\<lparr>bc_send_seq := bc_send_seq s + 1\<rparr> \<and>
     (\<exists>cipher tag.
        bc_encrypt api (bc_key s) (nonce_of (bc_send_seq s + 1))
          (be_bytes 2 (of_nat (length p) :: u16) @ p) 2050 = Some (cipher, tag) \<and>
        c = 0x01 # be_bytes 8 (bc_send_seq s + 1) @ nonce_of (bc_send_seq s + 1) @ cipher @ tag)"
  by (auto simp: bcrypt_seal_def Let_def bcrypt_is_ready_def split: option.splits if_splits)

lemma bcrypt_seal_None:
  "bcrypt_seal api p s = (None, s') \<Longrightarrow>
     bc_recv_seq s' = bc_recv_seq s \<and> bc_key s' = bc_key s \<and> bc_key_handle s' = bc_key_handle s \<and>
     (bc_send_seq s' = bc_send_seq s \<or> bc_send_seq s' = bc_send_seq s + 1)"
  by (auto simp: bcrypt_seal_def Let_def split: option.splits if_splits)

lemma bcrypt_open_Some_iff:
  "bcrypt_open api c s = (Some p, s') \<longleftrightarrow>
     bc_key_handle s \<and> 39 \<le> length c \<and> c ! 0 = 0x01 \<and> bc_recv_seq s < frame_sequence c \<and>
     (\<exists>plain. bc_decrypt api (bc_key s) (take 12 (drop 9 c)) (take (length c - 37) (drop 21 c))
                (take 16 (drop (21 + (length c - 37)) c)) 2050 = Some plain \<and>
        2 \<le> length plain \<and> unat (read_u16_be plain 0) \<le> 2048 \<and>
        2 + unat (read_u16_be plain 0) \<le> length plain \<and>
        p = take (unat (read_u16_be plain 0)) (drop 2 plain)) \<and>
     s' = s\<lparr>bc_recv_seq := frame_sequence c\<rparr>"
  by (auto simp: bcrypt_open_def Let_def bcrypt_is_ready_def frame_sequence_def not_less not_le
      split: option.splits if_splits)

lemma bcrypt_open_None: "bcrypt_open api c s = (None, s') \<Longrightarrow> \<exists>e. s' = s\<lparr>bc_error := Some e\<rparr>"
  by (auto simp: bcrypt_open_def Let_def split: option.splits if_splits)

text \<open>
  The documented behaviour of AES-GCM that the session relies on: with a 32-byte key and a
  12-byte nonce, encrypting into a large enough buffer succeeds, keeps the length, gives a
  16-byte tag, and decrypting with the same key, nonce and tag gives the input back.
\<close>

definition aead_correct :: "bcrypt_api \<Rightarrow> bool" where
  "aead_correct api \<longleftrightarrow>
     (\<forall>k n p cap. length k = 32 \<longrightarrow> length n = 12 \<longrightarrow> length p \<le> cap \<longrightarrow>
        (\<exists>c t. bc_encrypt api k n p cap = Some (c, t) \<and> length c = length p \<and> length t = 16 \<and>
               bc_decrypt api k n c t cap = Some p))"

lemma aead_correctE:
  assumes "aead_correct api" and "length k = 32" and "length n = 12" and "length p \<le> cap"
  obtains c t where "bc_encrypt api k n p cap = Some (c, t)" and "length c = length p"
    and "length t = 16" and "bc_decrypt api k n c t cap = Some p"
  using assms unfolding aead_correct_def by blast

lemma bcrypt_open_sealed:
  assumes "length p \<le> 2048" and "bc_key_handle r" and "bc_recv_seq r < q"
    and "length nonce = 12" and "length cipher = length p + 2" and "length tag = 16"
    and dec: "bc_decrypt api (bc_key r) nonce cipher tag 2050
               = Some (be_bytes 2 (of_nat (length p) :: u16) @ p)"
  shows "bcrypt_open api (0x01 # be_bytes 8 q @ nonce @ cipher @ tag) r
           = (Some p, r\<lparr>bc_recv_seq := q\<rparr>)"
proof -
  let ?c = "0x01 # be_bytes 8 q @ nonce @ cipher @ tag"
  have size: "length ?c - 37 = length cipher" using assms by simp
  have parts: "take 12 (drop 9 ?c) = nonce" "take (length cipher) (drop 21 ?c) = cipher"
    using assms by simp_all
  have "drop (21 + length cipher) ((0x01 # be_bytes 8 q @ nonce @ cipher) @ tag) = tag"
    by (rule drop_exact) (simp add: assms)
  then have tag: "take 16 (drop (21 + length cipher) ?c) = tag"
    using assms by simp
  have "read_u16_be ([] @ be_bytes 2 (of_nat (length p) :: u16) @ p) 0 = of_nat (length p)"
    by (rule read_u16_be_written) simp
  then have "unat (read_u16_be (be_bytes 2 (of_nat (length p) :: u16) @ p) 0) = length p"
    using assms(1) by (simp add: unat_of_nat_u16)
  moreover have "frame_sequence ?c = q" by simp
  ultimately show ?thesis
    unfolding bcrypt_open_Some_iff size parts tag using assms dec by simp
qed

section \<open>Both implementations meet the interface\<close>

fun inner_send_seq :: "inner_session \<Rightarrow> u64" where
  "inner_send_seq (Development d) = dev_send_seq d"
| "inner_send_seq (Bcrypt b) = bc_send_seq b"

fun inner_recv_seq :: "inner_session \<Rightarrow> u64" where
  "inner_recv_seq (Development d) = dev_recv_seq d"
| "inner_recv_seq (Bcrypt b) = bc_recv_seq b"

fun sessions_linked :: "bcrypt_api \<Rightarrow> inner_session \<Rightarrow> inner_session \<Rightarrow> bool" where
  "sessions_linked api (Development a) (Development b) = True"
| "sessions_linked api (Bcrypt a) (Bcrypt b) =
     (aead_correct api \<and> bc_key_handle a \<and> bc_key_handle b \<and> bc_key a = bc_key b \<and> length (bc_key a) = 32)"
| "sessions_linked api _ _ = False"

lemma bcrypt_round_trip:
  assumes link: "sessions_linked api (Bcrypt a) (Bcrypt b)"
    and sealed: "bcrypt_seal api p a = (Some c, a')"
    and fresh: "bc_recv_seq b < bc_send_seq a'"
  shows "\<exists>b'. bcrypt_open api c b = (Some p, b')"
proof -
  let ?q = "bc_send_seq a + 1"
  from sealed obtain cipher tag where p: "length p \<le> 2048"
    and enc: "bc_encrypt api (bc_key a) (nonce_of ?q) (be_bytes 2 (of_nat (length p) :: u16) @ p) 2050
                = Some (cipher, tag)"
    and c: "c = 0x01 # be_bytes 8 ?q @ nonce_of ?q @ cipher @ tag"
    and a': "bc_send_seq a' = ?q"
    unfolding bcrypt_seal_Some_iff by auto
  have "length (be_bytes 2 (of_nat (length p) :: u16) @ p) \<le> 2050" using p by simp
  moreover have "aead_correct api" "length (bc_key a) = 32" "bc_key a = bc_key b" using link by auto
  ultimately have dec: "length cipher = length p + 2 \<and> length tag = 16 \<and>
    bc_decrypt api (bc_key b) (nonce_of ?q) cipher tag 2050 = Some (be_bytes 2 (of_nat (length p) :: u16) @ p)"
    using aead_correctE [of api "bc_key a" "nonce_of ?q" "be_bytes 2 (of_nat (length p) :: u16) @ p" 2050] enc
    by fastforce
  then show ?thesis
    using p link fresh a' c bcrypt_open_sealed [of p b ?q "nonce_of ?q" cipher tag api] by auto
qed

lemma inner_open_Some:
  assumes "inner_open api c s = (Some p, s')"
  shows "inner_recv_seq s < frame_sequence c \<and> inner_recv_seq s' = frame_sequence c \<and>
         inner_send_seq s' = inner_send_seq s"
  using assms
  by (cases s) (auto simp: dev_open_Some_iff bcrypt_open_Some_iff split: prod.splits)

lemma inner_open_None:
  assumes "inner_open api c s = (None, s')"
  shows "inner_recv_seq s' = inner_recv_seq s \<and> inner_send_seq s' = inner_send_seq s"
  using assms
  by (cases s) (auto dest!: dev_open_None bcrypt_open_None split: prod.splits)

lemma inner_seal_Some:
  assumes "inner_seal api p s = (Some c, s')"
  shows "inner_send_seq s' = inner_send_seq s + 1 \<and> frame_sequence c = inner_send_seq s' \<and>
         inner_recv_seq s' = inner_recv_seq s"
  using assms
  by (cases s) (auto simp: dev_seal_Some_iff bcrypt_seal_Some_iff split: prod.splits)

lemma inner_seal_None:
  assumes "inner_seal api p s = (None, s')"
  shows "(inner_send_seq s' = inner_send_seq s \<or> inner_send_seq s' = inner_send_seq s + 1) \<and>
         inner_recv_seq s' = inner_recv_seq s"
  using assms
  by (cases s) (auto simp: dev_seal_None_iff dest!: bcrypt_seal_None split: prod.splits)

lemma sessions_linked_seal:
  assumes "sessions_linked api s r" and "inner_seal api p s = (x, s')"
  shows "sessions_linked api s' r"
proof (cases x)
  case None
  with assms show ?thesis
    by (cases s; cases r) (auto split: prod.splits dest!: bcrypt_seal_None)
next
  case (Some c)
  with assms show ?thesis
    by (cases s; cases r) (auto simp: bcrypt_seal_Some_iff split: prod.splits)
qed

lemma sessions_linked_open:
  assumes "sessions_linked api s r" and "inner_open api c r = (y, r')"
  shows "sessions_linked api s r'"
proof (cases y)
  case None
  with assms show ?thesis
    by (cases s; cases r) (auto split: prod.splits dest!: bcrypt_open_None)
next
  case (Some c)
  with assms show ?thesis
    by (cases s; cases r) (auto simp: bcrypt_open_Some_iff split: prod.splits)
qed

lemma inner_seal_ok:
  assumes "sessions_linked api s r" and p: "length p \<le> 2048"
  shows "\<exists>c s'. inner_seal api p s = (Some c, s')"
proof (cases s)
  case (Development d)
  with p show ?thesis by (simp add: dev_seal_def Let_def)
next
  case (Bcrypt a)
  with assms(1) have k: "aead_correct api" "bc_key_handle a" "length (bc_key a) = 32"
    by (cases r; simp)+
  have "length (be_bytes 2 (of_nat (length p) :: u16) @ p) \<le> 2050" using p by simp
  then obtain c t where "bc_encrypt api (bc_key a) (nonce_of (bc_send_seq a + 1))
      (be_bytes 2 (of_nat (length p) :: u16) @ p) 2050 = Some (c, t)"
    using aead_correctE [OF k(1,3) length_nonce_of] by metis
  with p k have "\<exists>c a'. bcrypt_seal api p a = (Some c, a')"
    unfolding bcrypt_seal_Some_iff by auto
  with Bcrypt show ?thesis by fastforce
qed

lemma inner_round_trip:
  assumes "sessions_linked api s r" and "inner_seal api p s = (Some c, s')"
    and "inner_recv_seq r < inner_send_seq s'"
  shows "\<exists>r'. inner_open api c r = (Some p, r')"
  using assms
proof (cases s; cases r)
  fix a b assume "s = Development a" "r = Development b"
  with assms show ?thesis by (auto simp: dev_seal_Some_iff dev_open_sealed split: prod.splits)
next
  fix a b assume sr: "s = Bcrypt a" "r = Bcrypt b"
  with assms obtain a' where "bcrypt_seal api p a = (Some c, a')" "bc_recv_seq b < bc_send_seq a'"
    by (auto split: prod.splits)
  with assms(1) sr obtain b' where "bcrypt_open api c b = (Some p, b')"
    using bcrypt_round_trip by blast
  with sr show ?thesis by simp
qed auto

interpretation inner: inner_session_link
  "inner_seal api" "inner_open api" inner_send_seq inner_recv_seq frame_sequence
  "sessions_linked api" 2048
  for api
proof (unfold_locales, goal_cases)
  case (1 c s p s')
  then show ?case by (rule inner_open_Some)
next
  case (2 c s s')
  then show ?case by (rule inner_open_None)
next
  case (3 p s c s')
  then show ?case by (rule inner_seal_Some)
next
  case (4 p s s')
  then show ?case by (rule inner_seal_None)
next
  case (5 s r p)
  then show ?case by (rule inner_seal_ok)
next
  case (6 s r p c s')
  then show ?case by (rule inner_round_trip)
next
  case (7 s r p x s')
  then show ?case by (rule sessions_linked_seal)
next
  case (8 s r c y r')
  then show ?case by (rule sessions_linked_open)
qed

section \<open>Key decoding\<close>

text \<open>Lower-case hexadecimal, the inverse of \<open>decode_hex_key\<close>.\<close>

definition hex_digit :: "nat \<Rightarrow> char" where
  "hex_digit n = char_of (if n < 10 then 48 + n else 87 + n)"

definition hex_of :: "bytes \<Rightarrow> string" where
  "hex_of bs = concat (map (\<lambda>b. [hex_digit (unat (drop_bit 4 b)), hex_digit (unat (b AND 0x0F))]) bs)"

lemma hex_nibble_digit: "n < 16 \<Longrightarrow> hex_nibble (hex_digit n) = of_nat n"
  by (auto simp: hex_nibble_def hex_digit_def Let_def)

lemma unat_high_nibble: "unat (drop_bit 4 (b :: u8)) < 16"
proof -
  have "unat b < 2 ^ LENGTH(8)" by (rule unsigned_less)
  then show ?thesis by (simp add: drop_bit_eq_div unat_div)
qed

lemma unat_low_nibble: "unat (b AND 0x0F :: u8) < 16"
proof -
  have "b AND 0x0F \<le> (0x0F :: u8)" by (rule word_and_le1)
  then show ?thesis by (simp add: word_le_nat_alt)
qed

lemma nibbles_join: "push_bit 4 (drop_bit 4 b) OR (b AND 0x0F) = (b :: u8)"
proof (rule bit_word_eqI)
  fix n assume "n < LENGTH(8)"
  have m: "(0x0F :: u8) = mask 4" by (simp add: mask_eq_exp_minus_1)
  show "bit (push_bit 4 (drop_bit 4 b) OR (b AND 0x0F)) n = bit b n"
    unfolding m by (auto simp: bit_or_iff bit_push_bit_iff bit_drop_bit_eq bit_and_iff bit_mask_iff
        dest: bit_imp_le_length)
qed

lemma decode_hex_byte:
  "decode_hex_pairs (hex_digit (unat (drop_bit 4 b)) # hex_digit (unat (b AND 0x0F)) # rest)
     = map_option ((#) b) (decode_hex_pairs rest)"
proof -
  have "drop_bit 4 b \<noteq> (0xFF :: u8)" "b AND 0x0F \<noteq> (0xFF :: u8)"
    using unat_high_nibble [of b] unat_low_nibble [of b] by (auto dest: arg_cong [where f = unat])
  then show ?thesis
    by (simp add: hex_nibble_digit unat_high_nibble unat_low_nibble nibbles_join Let_def)
qed

lemma decode_hex_pairs_hex_of: "decode_hex_pairs (hex_of bs) = Some bs"
proof (induction bs)
  case Nil
  show ?case by (simp add: hex_of_def)
next
  case (Cons b bs)
  have "hex_of (b # bs) = hex_digit (unat (drop_bit 4 b)) # hex_digit (unat (b AND 0x0F)) # hex_of bs"
    by (simp add: hex_of_def)
  with Cons show ?case by (simp only: decode_hex_byte) simp
qed

lemma length_hex_of: "length (hex_of bs) = 2 * length bs"
  by (induction bs) (auto simp: hex_of_def)

lemma decode_hex_pairs_Some:
  "even (length hex) \<Longrightarrow>
     (\<exists>key. decode_hex_pairs hex = Some key) = (\<forall>c \<in> set hex. hex_nibble c \<noteq> 0xFF)"
  by (induction hex rule: decode_hex_pairs.induct) (auto simp: Let_def)

lemma length_decode_hex_pairs:
  "decode_hex_pairs hex = Some key \<Longrightarrow> even (length hex) \<Longrightarrow> length hex = 2 * length key"
  by (induction hex arbitrary: key rule: decode_hex_pairs.induct)
    (auto simp: Let_def split: if_splits)

lemma length_decode_hex_key: "decode_hex_key hex = Some key \<Longrightarrow> length key = 32"
  using length_decode_hex_pairs [of hex key] by (auto simp: decode_hex_key_def split: if_splits)

section \<open>Created sessions\<close>

lemma create_inner_session_cases:
  assumes "create_inner_session plat api config = Some s"
  obtains (dev) "s = Development new_dev_session"
  | (aead) key where "s = Bcrypt ((new_bcrypt_session key)\<lparr>bc_aes_alg := True, bc_key_handle := True\<rparr>)"
      and "decode_hex_key (psk_hex config) = Some key" and "plat = Windows"
  using assms
  by (auto simp: create_inner_session_def bcrypt_initialize_def Let_def new_bcrypt_session_def
      split: if_splits option.splits platform.splits prod.splits)

lemma created_sessions_linked:
  assumes "aead_correct api" and "create_inner_session plat api config = Some s"
  shows "sessions_linked api s s \<and> inner_send_seq s = 0 \<and> inner_recv_seq s = 0 \<and> inner_is_ready s"
  using assms(2)
proof (cases rule: create_inner_session_cases)
  case dev
  then show ?thesis by (simp add: new_dev_session_def)
next
  case (aead key)
  with assms(1) show ?thesis
    by (simp add: new_bcrypt_session_def bcrypt_is_ready_def length_decode_hex_key)
qed

section \<open>Nonces\<close>

lemma nonce_of_inject: "nonce_of q = nonce_of q' \<Longrightarrow> q = q'"
proof (rule bit_word_eqI)
  fix n assume eq: "nonce_of q = nonce_of q'" and n: "n < LENGTH(64)"
  let ?i = "n div 8"
  have i: "?i < 8" using n by simp
  have byte: "nonce_of x ! ?i = ucast (drop_bit (8 * ?i) x AND 0xFF)" for x
    using i by (simp add: nonce_of_def nth_append)
  have "bit (nonce_of x ! ?i) (n mod 8) = bit x n" for x
    unfolding byte using n
    by (auto simp: bit_ucast_iff bit_and_iff bit_drop_bit_eq mask_byte_bit mask_byte_bit_int dest: bit_imp_le_length)
  with eq show "bit q n = bit q' n" by metis
qed

lemma bcrypt_frame_nonce:
  "bcrypt_seal api p s = (Some c, s') \<Longrightarrow> take 12 (drop 9 c) = nonce_of (frame_sequence c)"
  by (auto simp: bcrypt_seal_Some_iff)

lemma emitted_bcrypt_nonces:
  "channel_run (bcrypt_seal api) (bcrypt_open api) ops b = (emitted, accepted, b') \<Longrightarrow>
     \<forall>c \<in> set emitted. take 12 (drop 9 c) = nonce_of (frame_sequence c)"
proof (induction ops arbitrary: b emitted accepted b')
  case Nil
  then show ?case by simp
next
  case (Cons op ops)
  then show ?case
    by (cases op) (fastforce split: prod.splits option.splits dest: bcrypt_frame_nonce)+
qed

lemma seal_all_bcrypt_nonce:
  "(p, c) \<in> set (fst (seal_all (inner_seal api) ps (Bcrypt b))) \<Longrightarrow>
     take 12 (drop 9 c) = nonce_of (frame_sequence c)"
proof (induction ps arbitrary: b)
  case Nil
  then show ?case by simp
next
  case (Cons x ps)
  obtain r b' where f: "bcrypt_seal api x b = (r, b')" by fastforce
  obtain qs s where rest: "seal_all (inner_seal api) ps (Bcrypt b') = (qs, s)" by fastforce
  have ih: "(p, c) \<in> set qs \<Longrightarrow> take 12 (drop 9 c) = nonce_of (frame_sequence c)"
    using Cons.IH [of b'] rest by simp
  show ?case
  proof (cases r)
    case None
    with Cons.prems f rest ih show ?thesis by simp
  next
    case (Some d)
    with Cons.prems f rest have "(p, c) = (x, d) \<or> (p, c) \<in> set qs" by simp
    with ih Some f show ?thesis by (auto dest: bcrypt_frame_nonce)
  qed
qed

interpretation bcrypt: inner_session_channel
  "bcrypt_seal api" "bcrypt_open api" bc_send_seq bc_recv_seq frame_sequence
  for api
  by unfold_locales
    (auto simp: bcrypt_seal_Some_iff bcrypt_open_Some_iff dest: bcrypt_open_None bcrypt_seal_None)

section \<open>Properties\<close>

text \<open>
  C6. Replay protection: whatever a session of either kind is asked to seal and open, in any
  interleaving, the sequence numbers of the frames it accepts strictly increase; in
  particular no frame is accepted twice.
\<close>

theorem accepted_frames_never_repeat:
  "(let accepted = fst (snd (channel_run (inner_seal api) (inner_open api) ops s))
    in sorted_wrt (<) (map frame_sequence accepted) \<and> distinct accepted)"
proof -
  obtain em acc s' where run: "channel_run (inner_seal api) (inner_open api) ops s = (em, acc, s')"
    by (metis prod_cases3)
  show ?thesis
    using inner.accepted_strictly_increasing [OF run] inner.accepted_at_most_once [OF run]
    by (simp add: run Let_def)
qed


text \<open>A cipher that satisfies the hypothesis: the identity, with a tag of zeros.\<close>

definition identity_aead :: bcrypt_api where
  "identity_aead =
     \<lparr>bc_open_provider = True, bc_set_gcm_mode = True, bc_generate_key = (\<lambda>k. length k = 32),
      bc_encrypt = (\<lambda>k n p cap. if length p \<le> cap then Some (p, replicate 16 0) else None),
      bc_decrypt = (\<lambda>k n c t cap. if length c \<le> cap \<and> t = replicate 16 0 then Some c else None)\<rparr>"

definition zero_key_session :: inner_session where
  "zero_key_session =
     Bcrypt ((new_bcrypt_session (replicate 32 0))\<lparr>bc_aes_alg := True, bc_key_handle := True\<rparr>)"

lemma identity_aead_correct: "aead_correct identity_aead"
  by (simp add: aead_correct_def identity_aead_def)

lemma hex_digit_0: "hex_digit 0 = CHR ''0''"
  by code_simp

lemma hex_of_zero: "hex_of (replicate n 0) = replicate (2 * n) CHR ''0''"
  by (induction n) (simp_all add: hex_of_def hex_digit_0)

lemma zero_key_created:
  "create_inner_session Windows identity_aead \<lparr>psk_hex = replicate 64 CHR ''0''\<rparr> = Some zero_key_session"
proof -
  have "decode_hex_key (replicate 64 CHR ''0'') = Some (replicate 32 0)"
    using decode_hex_pairs_hex_of [of "replicate 32 0"] hex_of_zero [of 32]
    by (simp add: decode_hex_key_def)
  then show ?thesis
    by (simp add: create_inner_session_def bcrypt_initialize_def identity_aead_def
        new_bcrypt_session_def zero_key_session_def Let_def)
qed


text \<open>
  C30. Nonces of one sender do not repeat: of fewer than \<open>2 ^ 64\<close> calls on an AES-GCM session
  that has not wrapped, the frames it emits carry pairwise different nonces.
\<close>

theorem sender_nonces_distinct:
  assumes "unat (bc_send_seq b) + length ops < 2 ^ 64"
  shows "distinct (map (\<lambda>c. take 12 (drop 9 c)) (fst (channel_run (bcrypt_seal api) (bcrypt_open api) ops b)))"
proof -
  obtain em acc b' where run: "channel_run (bcrypt_seal api) (bcrypt_open api) ops b = (em, acc, b')"
    by (metis prod_cases3)
  have "distinct (map frame_sequence em)"
    using bcrypt.emitted_strictly_increasing [OF run assms] strict_sorted_iff by blast
  then have "distinct (map (nonce_of \<circ> frame_sequence) em)"
    by (auto simp: distinct_map inj_on_def dest: nonce_of_inject)
  moreover have "map (\<lambda>c. take 12 (drop 9 c)) em = map (nonce_of \<circ> frame_sequence) em"
    using emitted_bcrypt_nonces [OF run] by simp
  ultimately have "distinct (map (\<lambda>c. take 12 (drop 9 c)) em)" by metis
  then show ?thesis by (simp add: run)
qed

theorem sender_nonces_distinct_witness:
  "distinct (map (\<lambda>c. take 12 (drop 9 c))
     (fst (channel_run (bcrypt_seal identity_aead) (bcrypt_open identity_aead)
        [Do_Seal [1], Do_Open [2], Do_Seal [1]]
        ((new_bcrypt_session (replicate 32 0))\<lparr>bc_key_handle := True\<rparr>))))"
  by (rule sender_nonces_distinct) (simp add: new_bcrypt_session_def)

text \<open>
  C37. The two directions share nonces: the two ends of a tunnel are created from the same
  pre-shared key, and the \<open>i\<close>-th frame that the one end seals is encrypted under the same
  key and with the same nonce as the \<open>i\<close>-th frame of the other end, whatever the payloads.
\<close>

theorem directions_share_nonces:
  assumes "aead_correct api"
    and "create_inner_session Windows api config = Some (Bcrypt b)"
    and "\<forall>p \<in> set ps. length p \<le> 2048" and "\<forall>p \<in> set qs. length p \<le> 2048"
    and "i < length ps" and "i < length qs"
  shows "take 12 (drop 9 (snd (fst (seal_all (inner_seal api) ps (Bcrypt b)) ! i)))
       = take 12 (drop 9 (snd (fst (seal_all (inner_seal api) qs (Bcrypt b)) ! i)))"
proof -
  note link = created_sessions_linked [OF assms(1,2)]
  have same: "take 12 (drop 9 (snd (fst (seal_all (inner_seal api) xs (Bcrypt b)) ! i))) = nonce_of (of_nat (Suc i))"
    if xs: "\<forall>p \<in> set xs. length p \<le> 2048" and i: "i < length xs" for xs
  proof -
    let ?fs = "fst (seal_all (inner_seal api) xs (Bcrypt b))"
    have "length ?fs = length xs"
      using inner.seal_all_complete [of api "Bcrypt b" "Bcrypt b" xs] link xs by (metis length_map)
    then have "?fs ! i \<in> set ?fs" using i by (simp only: nth_mem)
    moreover have "frame_sequence (snd (?fs ! i)) = of_nat (Suc i)"
      using inner.seal_all_nth [of api "Bcrypt b" "Bcrypt b" xs i] link xs i by simp
    ultimately show ?thesis using seal_all_bcrypt_nonce by (metis prod.collapse)
  qed
  show ?thesis using same assms(3-6) by metis
qed

theorem directions_share_nonces_witness:
  "\<exists>b. create_inner_session Windows identity_aead \<lparr>psk_hex = replicate 64 CHR ''0''\<rparr> = Some (Bcrypt b) \<and>
     take 12 (drop 9 (snd (fst (seal_all (inner_seal identity_aead) [[1], [2, 3]] (Bcrypt b)) ! 1)))
   = take 12 (drop 9 (snd (fst (seal_all (inner_seal identity_aead) [[], [4]] (Bcrypt b)) ! 1)))"
proof -
  obtain b where b: "zero_key_session = Bcrypt b" by (simp add: zero_key_session_def)
  note created = zero_key_created [unfolded b]
  have "take 12 (drop 9 (snd (fst (seal_all (inner_seal identity_aead) [[1], [2, 3]] (Bcrypt b)) ! 1)))
   = take 12 (drop 9 (snd (fst (seal_all (inner_seal identity_aead) [[], [4]] (Bcrypt b)) ! 1)))"
    by (rule directions_share_nonces [OF identity_aead_correct created]) simp_all
  with created show ?thesis by blast
qed

text \<open>A frame with its eight sequence bytes overwritten.\<close>

definition restamp :: "u64 \<Rightarrow> bytes \<Rightarrow> bytes" where
  "restamp v c = take 1 c @ be_bytes 8 v @ drop 9 c"

text \<open>
  C38. The sequence number of an AES-GCM frame is not authenticated: any frame a receiver has
  accepted is accepted again, with the same payload, once the eight sequence bytes of its
  header are overwritten by a larger number.
\<close>

theorem restamped_frame_accepted_again:
  assumes "bcrypt_open api c s = (Some p, s')" and "frame_sequence c < v"
  shows "bcrypt_open api (restamp v c) s' = (Some p, s'\<lparr>bc_recv_seq := v\<rparr>)"
proof -
  from assms(1) have len: "39 \<le> length c" and ver: "c ! 0 = 0x01"
    unfolding bcrypt_open_Some_iff by auto
  obtain x xs where "c = x # xs" using len by (cases c) auto
  with ver have one: "take 1 c = [0x01]" by simp
  have eq: "restamp v c = 0x01 # be_bytes 8 v @ drop 9 c" unfolding restamp_def one by simp
  have "length (restamp v c) = length c" using len by (simp add: eq)
  moreover have "drop n (restamp v c) = drop n c" if "9 \<le> n" for n
  proof -
    have "drop n ((0x01 # be_bytes 8 v) @ drop 9 c) = drop (n - 9) (drop 9 c)"
      using that by (simp only: drop_append) simp
    with that show ?thesis by (simp add: eq)
  qed
  moreover have "frame_sequence (restamp v c) = v" "restamp v c ! 0 = 0x01" by (simp_all add: eq)
  ultimately show ?thesis
    using assms unfolding bcrypt_open_Some_iff by auto
qed

theorem restamped_frame_accepted_again_witness:
  "\<exists>c s s'. bcrypt_open identity_aead c s = (Some [7], s') \<and>
     bcrypt_open identity_aead (restamp 9 c) s' = (Some [7], s'\<lparr>bc_recv_seq := 9\<rparr>)"
proof -
  let ?s = "(new_bcrypt_session (replicate 32 0))\<lparr>bc_key_handle := True\<rparr>"
  let ?c = "0x01 # be_bytes 8 (1 :: u64) @ nonce_of 1 @ (be_bytes 2 (of_nat (length [7 :: u8]) :: u16) @ [7]) @ replicate 16 0"
  have accepted: "bcrypt_open identity_aead ?c ?s = (Some [7], ?s\<lparr>bc_recv_seq := 1\<rparr>)"
    by (rule bcrypt_open_sealed) (simp_all add: new_bcrypt_session_def identity_aead_def)
  have "frame_sequence ?c < 9" by simp
  from restamped_frame_accepted_again [OF accepted this] accepted show ?thesis by blast
qed

text \<open>
  C39. The hexadecimal key format: every 32-byte key is recovered from its hexadecimal text,
  and a text is accepted exactly when it consists of 64 hexadecimal digits.
\<close>

theorem decode_hex_key_round_trip:
  "(length key = 32 \<longrightarrow> decode_hex_key (hex_of key) = Some key) \<and>
   ((\<exists>k. decode_hex_key hex = Some k) \<longleftrightarrow>
      length hex = 64 \<and> (\<forall>c \<in> set hex. hex_nibble c \<noteq> 0xFF))"
  using decode_hex_pairs_Some [of hex]
  by (auto simp: decode_hex_key_def decode_hex_pairs_hex_of length_hex_of)

theorem decode_hex_key_round_trip_witness:
  "decode_hex_key (hex_of (replicate 31 0xAB @ [0x0C])) = Some (replicate 31 0xAB @ [0x0C])"
  using decode_hex_key_round_trip [of "replicate 31 0xAB @ [0x0C]" "[]"] by simp

text \<open>
  Without Windows a configured key gives no encryption: for every valid pre-shared key the
  factory of the other builds returns the development session, whose frames carry the
  payload in the clear.
\<close>

lemma posix_key_gives_plaintext:
  assumes "create_inner_session Posix api config = Some s" and "inner_seal api p s = (Some c, s')"
  shows "s = Development new_dev_session \<and> drop 11 c = p"
  using assms(1)
proof (cases rule: create_inner_session_cases)
  case dev
  with assms(2) have "\<exists>pre. length pre = 11 \<and> c = pre @ p"
    by (intro exI [of _ "0xFE # be_bytes 8 (1 :: u64) @ be_bytes 2 (of_nat (length p) :: u16)"])
      (auto simp: dev_seal_Some_iff new_dev_session_def split: prod.splits)
  with dev show ?thesis by auto
qed simp

end
