(* ===== verification/Inet_Text.thy ===== *)
theory Inet_Text
  imports Prelude
begin

text \<open>
  A concrete codec between 32-bit addresses and dotted-decimal text. The code of the
  repository leaves this conversion to Winsock, which the models take as a parameter; this
  codec instantiates the parameter where a theorem is applied to a concrete input.
\<close>

definition show_octet :: "nat \<Rightarrow> string" where
  "show_octet n =
     (if n < 10 then [char_of (48 + n)]
      else if n < 100 then [char_of (48 + n div 10), char_of (48 + n mod 10)]
      else [char_of (48 + n div 100), char_of (48 + n div 10 mod 10), char_of (48 + n mod 10)])"

definition parse_octet :: "string \<Rightarrow> nat option" where
  "parse_octet s =
     (let ds = map (\<lambda>c. of_char c :: nat) s;
          n = foldl (\<lambda>v d. 10 * v + (d - 48)) 0 ds
      in if s \<noteq> [] \<and> length s \<le> 3 \<and> list_all (\<lambda>d. 48 \<le> d \<and> d \<le> 57) ds \<and> n < 256
            \<and> (1 < length s \<longrightarrow> hd ds \<noteq> 48)
         then Some n else None)"

fun split_dots :: "string \<Rightarrow> string list" where
  "split_dots [] = [[]]"
| "split_dots (c # cs) =
     (if c = CHR ''.'' then [] # split_dots cs
      else (case split_dots cs of [] \<Rightarrow> [[c]] | p # ps \<Rightarrow> (c # p) # ps))"

definition dotted_ntop :: "u32 \<Rightarrow> string" where
  "dotted_ntop a =
     (let n = unat a in
      show_octet (n div 16777216) @ ''.'' @ show_octet (n div 65536 mod 256) @ ''.'' @
      show_octet (n div 256 mod 256) @ ''.'' @ show_octet (n mod 256))"

definition dotted_pton :: "string \<Rightarrow> u32 option" where
  "dotted_pton s =
     (case map parse_octet (split_dots s) of
        [Some a, Some b, Some c, Some d] \<Rightarrow> Some (of_nat (((a * 256 + b) * 256 + c) * 256 + d))
      | _ \<Rightarrow> None)"

lemma split_dots_ne: "split_dots s \<noteq> []"
  by (induction s) (auto split: list.splits)

lemma split_dots_plain: "CHR ''.'' \<notin> set a \<Longrightarrow> split_dots a = [a]"
  by (induction a) auto

lemma split_dots_append: "CHR ''.'' \<notin> set a \<Longrightarrow> split_dots (a @ CHR ''.'' # b) = a # split_dots b"
  by (induction a) auto

lemma octet_char: "(n :: nat) < 10 \<Longrightarrow> (of_char (char_of (48 + n) :: char) :: nat) = 48 + n"
  by simp

lemma octet_char_not_dot: "(n :: nat) < 10 \<Longrightarrow> CHR ''.'' \<noteq> char_of (48 + n)"
  by (auto dest!: arg_cong [where f = "of_char :: char \<Rightarrow> nat"])

lemma show_octet_no_dot: "n < 256 \<Longrightarrow> CHR ''.'' \<notin> set (show_octet n)"
  by (auto simp: show_octet_def octet_char_not_dot)

lemma base_digits:
  fixes n :: nat
  shows "b * (b * (n div (b * b)) + n div b mod b) + n mod b = n"
proof -
  have "b * (n div (b * b)) + n div b mod b = n div b"
    by (simp add: div_mult2_eq)
  then show ?thesis by simp
qed

lemma parse_show_octet:
  assumes "n < 256"
  shows "parse_octet (show_octet n) = Some n"
proof -
  consider "n < 10" | "10 \<le> n" "n < 100" | "100 \<le> n" by linarith
  then show ?thesis
  proof cases
    case 1
    then show ?thesis by (simp add: parse_octet_def show_octet_def Let_def)
  next
    case 2
    then have "n div 10 < 10" "0 < n div 10" by (simp_all add: less_mult_imp_div_less div_greater_zero_iff)
    with 2 assms show ?thesis by (simp add: parse_octet_def show_octet_def Let_def)
  next
    case 3
    then have "n div 100 < 10" "0 < n div 100" using assms by (simp_all add: less_mult_imp_div_less div_greater_zero_iff)
    moreover have "n div 10 mod 10 \<le> 9" "n mod 10 \<le> 9" by linarith+
    moreover have "10 * (10 * (n div 100) + n div 10 mod 10) + n mod 10 = n"
      using base_digits [of 10 n] by simp
    ultimately show ?thesis using 3 assms by (simp add: parse_octet_def show_octet_def Let_def)
  qed
qed

theorem dotted_round_trip: "dotted_pton (dotted_ntop a) = Some a"
proof -
  let ?n = "unat a"
  let ?a = "?n div 16777216" and ?b = "?n div 65536 mod 256" and ?c = "?n div 256 mod 256" and ?d = "?n mod 256"
  have lt: "?n < 4294967296" using unsigned_less [of a] by simp
  then have a: "?a < 256" by (simp add: less_mult_imp_div_less)
  have "split_dots (dotted_ntop a) = [show_octet ?a, show_octet ?b, show_octet ?c, show_octet ?d]"
    using a by (simp add: dotted_ntop_def Let_def split_dots_append split_dots_plain show_octet_no_dot)
  moreover have "((?a * 256 + ?b) * 256 + ?c) * 256 + ?d = ?n"
  proof -
    have "256 * (256 * (?n div 256 div 65536) + ?n div 256 div 256 mod 256) + ?n div 256 mod 256 = ?n div 256"
      using base_digits [of 256 "?n div 256"] by simp
    then show ?thesis by (simp add: div_mult2_eq [symmetric] algebra_simps)
  qed
  ultimately show ?thesis
    using a by (simp add: dotted_pton_def parse_show_octet)
qed

end
