(* ===== verification/Net_Config.thy ===== *)
theory Net_Config
  imports Prelude Inet_Text
begin

text \<open>
  The Windows network configurator of \<^verbatim>\<open>src/windows_net_config.cpp\<close>: IPv4 text, interface
  address and DNS, the bypass route of the remote end, the default route, the prefix routes
  of split tunnelling, and the removal of all of them.

  Winsock and the IP Helper library are not part of the repository. Their calls are the
  fields of \<open>net_api\<close>; the operating system they act on is an abstract world of type \<open>'w\<close>
  that every operation threads. What the code relies on is stated as the predicates
  \<open>forward_api_ok\<close> and \<open>inet_text_ok\<close>.
\<close>

section \<open>Data\<close>

record Ipv4InterfaceConfig =
  if_address :: string
  if_prefix_length :: u8
  if_dns :: string
  if_apply_on_open :: bool

text \<open>A row of the IPv4 forwarding table; addresses in host byte order.\<close>

record forward_row =
  fr_luid :: u64
  fr_dest :: u32
  fr_prefix :: u8
  fr_inet :: bool
  fr_next_hop :: u32
  fr_metric :: u32

text \<open>The error messages of this file and of its two callers.\<close>

datatype net_error =
    Winsock_Failed
  | Invalid_Ipv4 string
  | Luid_Invalid
  | Prefix_Length_Invalid
  | Add_Address_Failed u32
  | Delete_Address_Failed u32
  | Luid_To_Guid_Failed u32
  | Iphlpapi_Missing
  | Dns_Unsupported
  | Set_Dns_Failed u32
  | Resolve_Failed string
  | Route_Table_Failed u32
  | No_Bypass_Gateway
  | Add_Bypass_Failed u32
  | Add_Default_Failed u32
  | Add_Prefix_Failed u32
  | List_File_Missing string
  | Cidr_Prefix_Invalid string
  | Cidr_Network_Invalid string
  | Tunnel_Luid_Invalid
  | Route_Lists_Empty
  | Global_Route_Unsupported
  | Smart_Route_Unsupported
  | Wintun_Not_Open
  | Adapter_Luid_Missing

abbreviation (input) NO_ERROR :: u32 where "NO_ERROR \<equiv> 0"
abbreviation (input) ERROR_NOT_FOUND :: u32 where "ERROR_NOT_FOUND \<equiv> 1168"
abbreviation (input) ERROR_OBJECT_ALREADY_EXISTS :: u32 where "ERROR_OBJECT_ALREADY_EXISTS \<equiv> 5010"

text \<open>
  The calls. \<open>na_winsock\<close> is whether the one \<open>WSAStartup\<close> of the process succeeded.
  \<open>na_pton\<close> is \<open>InetPtonA\<close> followed by \<open>ntohl\<close>, \<open>na_ntop\<close> is \<open>htonl\<close> followed by \<open>InetNtopA\<close>.
  An answer of \<open>na_getaddrinfo\<close> is the list of its entries, each with the test "IPv4 and
  not null" and the address; the empty list stands for a failed call.
\<close>

record 'w net_api =
  na_winsock :: bool
  na_pton :: "string \<Rightarrow> u32 option"
  na_ntop :: "u32 \<Rightarrow> string option"
  na_getaddrinfo :: "string \<Rightarrow> 'w \<Rightarrow> (bool \<times> u32) list \<times> 'w"
  na_get_forward_table :: "'w \<Rightarrow> (u32 + forward_row list) \<times> 'w"
  na_create_forward :: "forward_row \<Rightarrow> 'w \<Rightarrow> u32 \<times> 'w"
  na_delete_forward :: "forward_row \<Rightarrow> 'w \<Rightarrow> u32 \<times> 'w"
  na_create_unicast :: "u64 \<Rightarrow> u32 \<Rightarrow> u8 \<Rightarrow> 'w \<Rightarrow> u32 \<times> 'w"
  na_delete_unicast :: "u64 \<Rightarrow> u32 \<Rightarrow> u8 \<Rightarrow> 'w \<Rightarrow> u32 \<times> 'w"
  na_luid_to_guid :: "u64 \<Rightarrow> u32 + nat"
  na_iphlpapi_loaded :: "'w \<Rightarrow> bool"
  na_load_iphlpapi :: "'w \<Rightarrow> bool \<times> 'w"
  na_has_set_dns :: bool
  na_set_dns :: "nat \<Rightarrow> string \<Rightarrow> 'w \<Rightarrow> u32 \<times> 'w"

text \<open>The two function-local statics of \<open>ensure_winsock\<close>: \<open>(ready, ok)\<close>.\<close>

type_synonym winsock_statics = "bool \<times> bool"

record SelectiveRouteKey =
  rk_luid :: u64
  rk_dest :: u32
  rk_prefix :: u8
  rk_gateway :: string

record WindowsNetConfigurator =
  nc_last_error :: "net_error option"
  nc_bypass_applied :: bool
  nc_default_applied :: bool
  nc_bypass_destination :: string
  nc_bypass_gateway :: string
  nc_bypass_luid :: u64
  nc_default_luid :: u64
  nc_default_gateway :: string
  nc_selective :: "SelectiveRouteKey list"

definition new_net_config :: WindowsNetConfigurator where
  "new_net_config =
     \<lparr>nc_last_error = None, nc_bypass_applied = False, nc_default_applied = False,
      nc_bypass_destination = [], nc_bypass_gateway = [], nc_bypass_luid = 0,
      nc_default_luid = 0, nc_default_gateway = [], nc_selective = []\<rparr>"

section \<open>Helpers\<close>

text \<open>\<open>startup\<close> is what \<open>WSAStartup\<close> would answer if it were called now.\<close>

definition ensure_winsock :: "bool \<Rightarrow> winsock_statics \<Rightarrow> bool \<times> winsock_statics" where
  "ensure_winsock startup st =
     (case st of (ready, ok) \<Rightarrow> if ready then (ok, st) else (startup, (True, startup)))"

definition fill_ipv4_forward_row :: "u64 \<Rightarrow> u32 \<Rightarrow> u8 \<Rightarrow> u32 \<Rightarrow> forward_row" where
  "fill_ipv4_forward_row luid dest prefix gateway =
     \<lparr>fr_luid = luid, fr_dest = dest, fr_prefix = prefix, fr_inet = True,
      fr_next_hop = gateway, fr_metric = 0\<rparr>"

definition delete_forward_row ::
  "'w net_api \<Rightarrow> u64 \<Rightarrow> u32 \<Rightarrow> u8 \<Rightarrow> u32 \<Rightarrow> 'w \<Rightarrow> bool \<times> 'w" where
  "delete_forward_row api luid dest prefix gateway w =
     (case na_delete_forward api (fill_ipv4_forward_row luid dest prefix gateway) w of
        (status, w') \<Rightarrow> (status = NO_ERROR \<or> status = ERROR_NOT_FOUND, w'))"

definition parse_ipv4 :: "'w net_api \<Rightarrow> string \<Rightarrow> net_error + u32" where
  "parse_ipv4 api text =
     (if \<not> na_winsock api then Inl Winsock_Failed
      else (case na_pton api text of None \<Rightarrow> Inl (Invalid_Ipv4 text) | Some a \<Rightarrow> Inr a))"

text \<open>\<open>prefix_length == 0 ? 0U : (~0U << (32U - prefix_length))\<close>, for lengths up to 32.\<close>

definition network_mask :: "u8 \<Rightarrow> u32" where
  "network_mask prefix = (if prefix = 0 then 0 else push_bit (32 - unat prefix) (NOT 0))"

definition masked_network :: "u32 \<Rightarrow> u8 \<Rightarrow> u32" where
  "masked_network addr prefix = (if prefix < 32 then addr AND network_mask prefix else addr)"

section \<open>Interface address and DNS\<close>

definition apply_dns ::
  "'w net_api \<Rightarrow> u64 \<Rightarrow> string \<Rightarrow> WindowsNetConfigurator \<Rightarrow> 'w \<Rightarrow> bool \<times> WindowsNetConfigurator \<times> 'w" where
  "apply_dns api luid dns nc w =
     (let nc = nc\<lparr>nc_last_error := None\<rparr> in
      case parse_ipv4 api dns of
        Inl e \<Rightarrow> (False, nc\<lparr>nc_last_error := Some e\<rparr>, w)
      | Inr _ \<Rightarrow>
          (case na_luid_to_guid api luid of
             Inl status \<Rightarrow> (False, nc\<lparr>nc_last_error := Some (Luid_To_Guid_Failed status)\<rparr>, w)
           | Inr guid \<Rightarrow>
               (case (if na_iphlpapi_loaded api w then (True, w) else na_load_iphlpapi api w) of (loaded, w) \<Rightarrow>
                  if \<not> loaded
                  then (False, nc\<lparr>nc_last_error := Some Iphlpapi_Missing\<rparr>, w)
                  else if \<not> na_has_set_dns api
                  then (False, nc\<lparr>nc_last_error := Some Dns_Unsupported\<rparr>, w)
                  else
                    (case na_set_dns api guid dns w of (status, w') \<Rightarrow>
                       if status \<noteq> NO_ERROR
                       then (False, nc\<lparr>nc_last_error := Some (Set_Dns_Failed status)\<rparr>, w')
                       else (True, nc, w')))))"

definition apply_ipv4 ::
  "'w net_api \<Rightarrow> u64 \<Rightarrow> Ipv4InterfaceConfig \<Rightarrow> WindowsNetConfigurator \<Rightarrow> 'w \<Rightarrow>
   bool \<times> WindowsNetConfigurator \<times> 'w" where
  "apply_ipv4 api luid config nc w =
     (let nc = nc\<lparr>nc_last_error := None\<rparr> in
      if luid = 0 then (False, nc\<lparr>nc_last_error := Some Luid_Invalid\<rparr>, w)
      else if if_prefix_length config = 0 \<or> 32 < if_prefix_length config
      then (False, nc\<lparr>nc_last_error := Some Prefix_Length_Invalid\<rparr>, w)
      else
        (case parse_ipv4 api (if_address config) of
           Inl e \<Rightarrow> (False, nc\<lparr>nc_last_error := Some e\<rparr>, w)
         | Inr host_ip \<Rightarrow>
             (case na_create_unicast api luid host_ip (if_prefix_length config) w of (status, w') \<Rightarrow>
                if status \<noteq> NO_ERROR \<and> status \<noteq> ERROR_OBJECT_ALREADY_EXISTS
                then (False, nc\<lparr>nc_last_error := Some (Add_Address_Failed status)\<rparr>, w')
                else if if_dns config \<noteq> []
                then (case apply_dns api luid (if_dns config) nc w' of (ok, nc', w'') \<Rightarrow>
                        if \<not> ok then (False, nc', w'') else (True, nc', w''))
                else (True, nc, w'))))"

definition clear_ipv4 ::
  "'w net_api \<Rightarrow> u64 \<Rightarrow> Ipv4InterfaceConfig \<Rightarrow> WindowsNetConfigurator \<Rightarrow> 'w \<Rightarrow>
   bool \<times> WindowsNetConfigurator \<times> 'w" where
  "clear_ipv4 api luid config nc w =
     (let nc = nc\<lparr>nc_last_error := None\<rparr> in
      if luid = 0 \<or> if_address config = [] then (True, nc, w)
      else
        (case parse_ipv4 api (if_address config) of
           Inl e \<Rightarrow> (False, nc\<lparr>nc_last_error := Some e\<rparr>, w)
         | Inr host_ip \<Rightarrow>
             (case na_delete_unicast api luid host_ip (if_prefix_length config) w of (status, w') \<Rightarrow>
                if status \<noteq> NO_ERROR \<and> status \<noteq> ERROR_NOT_FOUND
                then (False, nc\<lparr>nc_last_error := Some (Delete_Address_Failed status)\<rparr>, w')
                else (True, nc, w'))))"

definition clear_dns ::
  "'w net_api \<Rightarrow> u64 \<Rightarrow> WindowsNetConfigurator \<Rightarrow> 'w \<Rightarrow> bool \<times> WindowsNetConfigurator \<times> 'w" where
  "clear_dns api luid nc w =
     (let nc = nc\<lparr>nc_last_error := None\<rparr> in
      if luid = 0 then (True, nc, w)
      else
        (case na_luid_to_guid api luid of
           Inl _ \<Rightarrow> (False, nc, w)
         | Inr guid \<Rightarrow>
             if \<not> na_iphlpapi_loaded api w then (False, nc, w)
             else if \<not> na_has_set_dns api then (False, nc, w)
             else (case na_set_dns api guid [] w of (status, w') \<Rightarrow> (status = NO_ERROR, nc, w'))))"

section \<open>Routes\<close>

text \<open>
  The search loop of \<open>apply_endpoint_bypass_route\<close>: among the default routes that leave
  through another interface and have an IPv4 next hop, the first with the least metric.
\<close>

definition bypass_candidate :: "u64 \<Rightarrow> forward_row \<Rightarrow> bool" where
  "bypass_candidate tunnel_luid row \<longleftrightarrow>
     fr_prefix row = 0 \<and> fr_luid row \<noteq> tunnel_luid \<and> fr_inet row \<and> fr_next_hop row \<noteq> 0"

fun best_default_route :: "u64 \<Rightarrow> forward_row option \<Rightarrow> forward_row list \<Rightarrow> forward_row option" where
  "best_default_route tunnel_luid best [] = best"
| "best_default_route tunnel_luid best (row # rows) =
     (if \<not> bypass_candidate tunnel_luid row then best_default_route tunnel_luid best rows
      else
        (case best of
           None \<Rightarrow> best_default_route tunnel_luid (Some row) rows
         | Some b \<Rightarrow>
             if fr_metric row < fr_metric b then best_default_route tunnel_luid (Some row) rows
             else best_default_route tunnel_luid best rows))"

text \<open>The route functions return the error they report, \<open>None\<close> when they return true.\<close>

definition apply_endpoint_bypass_route ::
  "'w net_api \<Rightarrow> string \<Rightarrow> u64 \<Rightarrow> WindowsNetConfigurator \<Rightarrow> 'w \<Rightarrow>
   net_error option \<times> WindowsNetConfigurator \<times> 'w" where
  "apply_endpoint_bypass_route api endpoint_host tunnel_luid nc w =
     (let nc = nc\<lparr>nc_last_error := None\<rparr>;
          failure = (\<lambda>e w'. (Some e, nc\<lparr>nc_last_error := Some e\<rparr>, w'))
      in if endpoint_host = ''127.0.0.1'' \<or> endpoint_host = ''localhost'' then (None, nc, w)
      else if \<not> na_winsock api then failure Winsock_Failed w
      else
        (case na_getaddrinfo api endpoint_host w of
           ([], w1) \<Rightarrow> failure (Resolve_Failed endpoint_host) w1
         | ((_, destination) # _, w1) \<Rightarrow>
             (case na_get_forward_table api w1 of
                (Inl status, w2) \<Rightarrow> failure (Route_Table_Failed status) w2
              | (Inr table, w2) \<Rightarrow>
                  (case best_default_route tunnel_luid None table of
                     None \<Rightarrow> failure No_Bypass_Gateway w2
                   | Some best \<Rightarrow>
                       (case na_create_forward api
                               (fill_ipv4_forward_row (fr_luid best) destination 32 (fr_next_hop best)) w2 of
                          (status, w3) \<Rightarrow>
                            if status \<noteq> NO_ERROR \<and> status \<noteq> ERROR_OBJECT_ALREADY_EXISTS
                            then failure (Add_Bypass_Failed status) w3
                            else
                              (None,
                               nc\<lparr>nc_bypass_applied := True,
                                  nc_bypass_luid := fr_luid best,
                                  nc_bypass_gateway :=
                                    (case na_ntop api (fr_next_hop best) of Some t \<Rightarrow> t | None \<Rightarrow> ''0.0.0.0''),
                                  nc_bypass_destination :=
                                    (case na_ntop api destination of Some t \<Rightarrow> t | None \<Rightarrow> endpoint_host)\<rparr>,
                               w3))))))"

definition apply_global_default_route ::
  "'w net_api \<Rightarrow> u64 \<Rightarrow> string \<Rightarrow> WindowsNetConfigurator \<Rightarrow> 'w \<Rightarrow>
   net_error option \<times> WindowsNetConfigurator \<times> 'w" where
  "apply_global_default_route api luid gateway_ipv4 nc w =
     (let nc = nc\<lparr>nc_last_error := None\<rparr> in
      if luid = 0 then (Some Luid_Invalid, nc\<lparr>nc_last_error := Some Luid_Invalid\<rparr>, w)
      else
        (case parse_ipv4 api gateway_ipv4 of
           Inl e \<Rightarrow> (Some e, nc\<lparr>nc_last_error := Some e\<rparr>, w)
         | Inr gateway \<Rightarrow>
             (case na_create_forward api (fill_ipv4_forward_row luid 0 0 gateway) w of (status, w') \<Rightarrow>
                if status \<noteq> NO_ERROR \<and> status \<noteq> ERROR_OBJECT_ALREADY_EXISTS
                then (Some (Add_Default_Failed status),
                      nc\<lparr>nc_last_error := Some (Add_Default_Failed status)\<rparr>, w')
                else (None,
                      nc\<lparr>nc_default_applied := True, nc_default_luid := luid,
                         nc_default_gateway := gateway_ipv4\<rparr>, w'))))"

definition apply_prefix_route ::
  "'w net_api \<Rightarrow> u64 \<Rightarrow> string \<Rightarrow> u8 \<Rightarrow> string \<Rightarrow> WindowsNetConfigurator \<Rightarrow> 'w \<Rightarrow>
   net_error option \<times> WindowsNetConfigurator \<times> 'w" where
  "apply_prefix_route api luid destination_ipv4 prefix gateway_ipv4 nc w =
     (let nc = nc\<lparr>nc_last_error := None\<rparr>;
          failure = (\<lambda>e w'. (Some e, nc\<lparr>nc_last_error := Some e\<rparr>, w'))
      in if luid = 0 then failure Luid_Invalid w
      else if 32 < prefix then failure Prefix_Length_Invalid w
      else
        (case parse_ipv4 api destination_ipv4 of
           Inl e \<Rightarrow> failure e w
         | Inr dest0 \<Rightarrow>
             (let dest = masked_network dest0 prefix in
              case parse_ipv4 api gateway_ipv4 of
                Inl e \<Rightarrow> failure e w
              | Inr gateway \<Rightarrow>
                  (let key = \<lparr>rk_luid = luid, rk_dest = dest, rk_prefix = prefix, rk_gateway = gateway_ipv4\<rparr> in
                   if key \<in> set (nc_selective nc) then (None, nc, w)
                   else
                     (case na_create_forward api (fill_ipv4_forward_row luid dest prefix gateway) w of
                        (status, w') \<Rightarrow>
                          if status \<noteq> NO_ERROR \<and> status \<noteq> ERROR_OBJECT_ALREADY_EXISTS
                          then failure (Add_Prefix_Failed status) w'
                          else (None, nc\<lparr>nc_selective := nc_selective nc @ [key]\<rparr>, w'))))))"

text \<open>\<open>clear_client_routes\<close>: the loop over the prefix routes, then the default and the bypass route.\<close>

fun delete_selective :: "'w net_api \<Rightarrow> SelectiveRouteKey list \<Rightarrow> 'w \<Rightarrow> 'w" where
  "delete_selective api [] w = w"
| "delete_selective api (route # routes) w =
     delete_selective api routes
       (case parse_ipv4 api (rk_gateway route) of
          Inl _ \<Rightarrow> w
        | Inr gateway \<Rightarrow>
            snd (delete_forward_row api (rk_luid route) (rk_dest route) (rk_prefix route) gateway w))"

definition clear_default_route ::
  "'w net_api \<Rightarrow> WindowsNetConfigurator \<Rightarrow> 'w \<Rightarrow> WindowsNetConfigurator \<times> 'w" where
  "clear_default_route api nc w =
     (if nc_default_applied nc
      then (nc\<lparr>nc_default_applied := False, nc_default_luid := 0, nc_default_gateway := []\<rparr>,
            (case parse_ipv4 api (nc_default_gateway nc) of
               Inl _ \<Rightarrow> w
             | Inr gateway \<Rightarrow> snd (delete_forward_row api (nc_default_luid nc) 0 0 gateway w)))
      else (nc, w))"

definition clear_bypass_route ::
  "'w net_api \<Rightarrow> WindowsNetConfigurator \<Rightarrow> 'w \<Rightarrow> WindowsNetConfigurator \<times> 'w" where
  "clear_bypass_route api nc w =
     (if nc_bypass_applied nc
      then (nc\<lparr>nc_bypass_applied := False, nc_bypass_destination := [], nc_bypass_gateway := [],
               nc_bypass_luid := 0\<rparr>,
            (case parse_ipv4 api (nc_bypass_destination nc) of
               Inl _ \<Rightarrow> w
             | Inr dest \<Rightarrow>
                 (case parse_ipv4 api (nc_bypass_gateway nc) of
                    Inl _ \<Rightarrow> w
                  | Inr gateway \<Rightarrow> snd (delete_forward_row api (nc_bypass_luid nc) dest 32 gateway w))))
      else (nc, w))"

definition clear_client_routes ::
  "'w net_api \<Rightarrow> WindowsNetConfigurator \<Rightarrow> 'w \<Rightarrow> WindowsNetConfigurator \<times> 'w" where
  "clear_client_routes api nc w =
     (let w1 = delete_selective api (nc_selective nc) w;
          nc1 = nc\<lparr>nc_selective := []\<rparr>
      in case clear_default_route api nc1 w1 of (nc2, w2) \<Rightarrow> clear_bypass_route api nc2 w2)"

definition selective_route_count :: "WindowsNetConfigurator \<Rightarrow> nat" where
  "selective_route_count nc = length (nc_selective nc)"

section \<open>What the code relies on\<close>

text \<open>
  \<open>tbl\<close> observes the forwarding table of a world. Creating a row adds it, or reports that
  it already exists, or fails without effect; deleting a row removes it; name resolution
  and reading the table change nothing.
\<close>

definition forward_api_ok :: "'w net_api \<Rightarrow> ('w \<Rightarrow> forward_row set) \<Rightarrow> bool" where
  "forward_api_ok api tbl \<longleftrightarrow>
     (\<forall>row w. tbl (snd (na_create_forward api row w)) =
                (if fst (na_create_forward api row w) = NO_ERROR then insert row (tbl w) else tbl w)) \<and>
     (\<forall>row w. fst (na_create_forward api row w) = ERROR_OBJECT_ALREADY_EXISTS \<longrightarrow> row \<in> tbl w) \<and>
     (\<forall>row w. tbl (snd (na_delete_forward api row w)) = tbl w - {row}) \<and>
     (\<forall>host w. tbl (snd (na_getaddrinfo api host w)) = tbl w) \<and>
     (\<forall>w. tbl (snd (na_get_forward_table api w)) = tbl w)"

text \<open>Every address has a text, and the text is read back as the address.\<close>

definition inet_text_ok :: "'w net_api \<Rightarrow> bool" where
  "inet_text_ok api \<longleftrightarrow> (\<forall>a. \<exists>t. na_ntop api a = Some t \<and> na_pton api t = Some a)"

lemma forward_api_okD:
  assumes "forward_api_ok api tbl"
  shows "na_create_forward api row w = (st, w') \<Longrightarrow> tbl w' = (if st = NO_ERROR then insert row (tbl w) else tbl w)"
    and "na_create_forward api row w = (ERROR_OBJECT_ALREADY_EXISTS, w') \<Longrightarrow> row \<in> tbl w"
    and "na_delete_forward api row w = (st, w') \<Longrightarrow> tbl w' = tbl w - {row}"
    and "na_getaddrinfo api host w = (as, w') \<Longrightarrow> tbl w' = tbl w"
    and "na_get_forward_table api w = (rs, w') \<Longrightarrow> tbl w' = tbl w"
  using assms unfolding forward_api_ok_def by (metis fst_conv snd_conv)+

lemma created_or_existing:
  assumes "forward_api_ok api tbl" and "na_create_forward api row w = (st, w')"
    and "st = NO_ERROR \<or> st = ERROR_OBJECT_ALREADY_EXISTS"
  shows "tbl w' = insert row (tbl w)"
  using forward_api_okD(1,2) [OF assms(1)] assms(2,3) by (metis insert_absorb)

lemma not_created:
  assumes "forward_api_ok api tbl" and "na_create_forward api row w = (st, w')" and "st \<noteq> NO_ERROR"
  shows "tbl w' = tbl w"
  using forward_api_okD(1) [OF assms(1,2)] assms(3) by simp

section \<open>Lemmas\<close>

lemma parse_ipv4_Inr_iff:
  "parse_ipv4 api text = Inr a \<longleftrightarrow> na_winsock api \<and> na_pton api text = Some a"
  by (auto simp: parse_ipv4_def split: option.splits)

text \<open>The cached start-up result: all calls answer what the first \<open>WSAStartup\<close> answered.\<close>

fun winsock_calls :: "bool list \<Rightarrow> winsock_statics \<Rightarrow> bool list" where
  "winsock_calls [] st = []"
| "winsock_calls (b # bs) st = (case ensure_winsock b st of (r, st') \<Rightarrow> r # winsock_calls bs st')"

lemma winsock_calls_ready: "winsock_calls bs (True, ok) = replicate (length bs) ok"
  by (induction bs) (auto simp: ensure_winsock_def)

lemma winsock_calls_constant:
  "winsock_calls (b # bs) (False, False) = replicate (Suc (length bs)) b"
  by (simp add: ensure_winsock_def winsock_calls_ready)

lemma bit_network_mask:
  assumes "prefix \<le> 32"
  shows "bit (network_mask prefix) n \<longleftrightarrow> n < 32 \<and> 32 - unat prefix \<le> n"
proof (cases "prefix = 0")
  case True
  then show ?thesis by (simp add: network_mask_def)
next
  case False
  then show ?thesis
    by (auto simp: network_mask_def bit_push_bit_iff bit_not_iff bit_mask_iff dest: bit_imp_le_length)
qed

lemma bit_masked_network:
  assumes "prefix \<le> 32"
  shows "bit (masked_network a prefix) n \<longleftrightarrow> bit a n \<and> 32 - unat prefix \<le> n"
proof (cases "prefix < 32")
  case True
  then show ?thesis
    by (auto simp: masked_network_def bit_and_iff bit_network_mask [OF assms] dest: bit_imp_le_length)
next
  case False
  with assms have "prefix = 32" by simp
  then show ?thesis by (simp add: masked_network_def)
qed

lemma masked_network_idem:
  "prefix \<le> 32 \<Longrightarrow> masked_network (masked_network a prefix) prefix = masked_network a prefix"
  by (rule bit_word_eqI) (auto simp: bit_masked_network)

text \<open>The route search returns the first candidate of least metric.\<close>

lemma best_default_route_spec:
  assumes "case best of None \<Rightarrow> True | Some b \<Rightarrow> bypass_candidate luid b"
  shows "case best_default_route luid best rows of
      None \<Rightarrow> best = None \<and> (\<forall>r \<in> set rows. \<not> bypass_candidate luid r)
    | Some b \<Rightarrow> bypass_candidate luid b \<and> (Some b = best \<or> b \<in> set rows) \<and>
        (\<forall>r \<in> set rows. bypass_candidate luid r \<longrightarrow> fr_metric b \<le> fr_metric r) \<and>
        (\<forall>b0. best = Some b0 \<longrightarrow> fr_metric b \<le> fr_metric b0)"
  using assms
proof (induction luid best rows rule: best_default_route.induct)
  case (1 luid best)
  then show ?case by (auto split: option.splits)
next
  case (2 luid best row rows)
  show ?case
  proof (cases "bypass_candidate luid row")
    case False
    with 2 show ?thesis by (auto split: option.splits)
  next
    case cand: True
    show ?thesis
    proof (cases best)
      case None
      with cand 2 show ?thesis by (auto split: option.splits)
    next
      case (Some b)
      with cand 2 show ?thesis
        by (cases "fr_metric row < fr_metric b") (fastforce split: option.splits)+
    qed
  qed
qed

text \<open>The rows that \<open>clear_client_routes\<close> asks the system to delete.\<close>

definition default_rows :: "'w net_api \<Rightarrow> WindowsNetConfigurator \<Rightarrow> forward_row set" where
  "default_rows api nc =
     {fill_ipv4_forward_row (nc_default_luid nc) 0 0 g | g.
        nc_default_applied nc \<and> parse_ipv4 api (nc_default_gateway nc) = Inr g}"

definition bypass_rows :: "'w net_api \<Rightarrow> WindowsNetConfigurator \<Rightarrow> forward_row set" where
  "bypass_rows api nc =
     {fill_ipv4_forward_row (nc_bypass_luid nc) d 32 g | d g.
        nc_bypass_applied nc \<and> parse_ipv4 api (nc_bypass_destination nc) = Inr d \<and>
        parse_ipv4 api (nc_bypass_gateway nc) = Inr g}"

definition selective_rows :: "'w net_api \<Rightarrow> SelectiveRouteKey list \<Rightarrow> forward_row set" where
  "selective_rows api keys =
     {fill_ipv4_forward_row (rk_luid k) (rk_dest k) (rk_prefix k) g | k g.
        k \<in> set keys \<and> parse_ipv4 api (rk_gateway k) = Inr g}"

definition recorded_rows :: "'w net_api \<Rightarrow> WindowsNetConfigurator \<Rightarrow> forward_row set" where
  "recorded_rows api nc =
     selective_rows api (nc_selective nc) \<union> default_rows api nc \<union> bypass_rows api nc"

lemmas recorded_defs = recorded_rows_def selective_rows_def default_rows_def bypass_rows_def

lemma selective_rows_snoc:
  "parse_ipv4 api (rk_gateway k) = Inr g \<Longrightarrow> selective_rows api (keys @ [k]) =
     insert (fill_ipv4_forward_row (rk_luid k) (rk_dest k) (rk_prefix k) g) (selective_rows api keys)"
  by (auto simp: selective_rows_def)

lemma recorded_new [simp]: "recorded_rows api new_net_config = {}"
  by (simp add: recorded_defs new_net_config_def)

lemma recorded_last_error [simp]:
  "recorded_rows api (nc\<lparr>nc_last_error := e\<rparr>) = recorded_rows api nc"
  by (simp add: recorded_defs)

lemma table_delete_forward_row:
  "forward_api_ok api tbl \<Longrightarrow> tbl (snd (delete_forward_row api luid dest prefix gateway w))
     = tbl w - {fill_ipv4_forward_row luid dest prefix gateway}"
  by (auto simp: delete_forward_row_def forward_api_okD(3) split: prod.splits)

lemma table_delete_selective:
  "forward_api_ok api tbl \<Longrightarrow> tbl (delete_selective api keys w) = tbl w - selective_rows api keys"
proof (induction keys arbitrary: w)
  case Nil
  then show ?case by (simp add: selective_rows_def)
next
  case (Cons k keys)
  show ?case
  proof (cases "parse_ipv4 api (rk_gateway k)")
    case (Inl e)
    then have "selective_rows api (k # keys) = selective_rows api keys"
      by (auto simp: selective_rows_def)
    with Cons Inl show ?thesis by simp
  next
    case (Inr g)
    then have "selective_rows api (k # keys) =
        insert (fill_ipv4_forward_row (rk_luid k) (rk_dest k) (rk_prefix k) g) (selective_rows api keys)"
      by (auto simp: selective_rows_def)
    with Cons Inr show ?thesis by (auto simp: table_delete_forward_row)
  qed
qed

lemma table_clear_default:
  "forward_api_ok api tbl \<Longrightarrow> clear_default_route api nc w = (nc', w') \<Longrightarrow>
     tbl w' = tbl w - default_rows api nc \<and> \<not> nc_default_applied nc' \<and>
     bypass_rows api nc' = bypass_rows api nc \<and> nc_selective nc' = nc_selective nc"
  by (auto simp: clear_default_route_def default_rows_def bypass_rows_def table_delete_forward_row
      split: if_splits sum.splits)

lemma table_clear_bypass:
  "forward_api_ok api tbl \<Longrightarrow> clear_bypass_route api nc w = (nc', w') \<Longrightarrow>
     tbl w' = tbl w - bypass_rows api nc \<and> \<not> nc_bypass_applied nc' \<and>
     nc_default_applied nc' = nc_default_applied nc \<and> nc_selective nc' = nc_selective nc"
  by (auto simp: clear_bypass_route_def bypass_rows_def table_delete_forward_row
      split: if_splits sum.splits)

lemma table_clear_client_routes:
  assumes ok: "forward_api_ok api tbl" and run: "clear_client_routes api nc w = (nc', w')"
  shows "tbl w' = tbl w - recorded_rows api nc \<and> recorded_rows api nc' = {} \<and>
         \<not> nc_default_applied nc' \<and> \<not> nc_bypass_applied nc' \<and> nc_selective nc' = []"
proof -
  let ?nc1 = "nc\<lparr>nc_selective := []\<rparr>" and ?w1 = "delete_selective api (nc_selective nc) w"
  obtain nc2 w2 where d: "clear_default_route api ?nc1 ?w1 = (nc2, w2)" by fastforce
  with run have b: "clear_bypass_route api nc2 w2 = (nc', w')"
    by (simp add: clear_client_routes_def Let_def)
  have same: "default_rows api ?nc1 = default_rows api nc" "bypass_rows api ?nc1 = bypass_rows api nc"
    by (simp_all add: default_rows_def bypass_rows_def)
  show ?thesis
    using table_delete_selective [OF ok, of "nc_selective nc" w] table_clear_default [OF ok d]
      table_clear_bypass [OF ok b] same
    by (auto simp: recorded_defs)
qed

section \<open>Sequences of route requests\<close>

text \<open>The calls a client of the configurator makes between creation and clean-up.\<close>

datatype route_request =
    Bypass string
  | Default_Route string
  | Prefix_Route string u8 string

fun route_request_step ::
  "'w net_api \<Rightarrow> u64 \<Rightarrow> route_request \<Rightarrow> WindowsNetConfigurator \<Rightarrow> 'w \<Rightarrow> WindowsNetConfigurator \<times> 'w" where
  "route_request_step api luid (Bypass host) nc w = snd (apply_endpoint_bypass_route api host luid nc w)"
| "route_request_step api luid (Default_Route gw) nc w = snd (apply_global_default_route api luid gw nc w)"
| "route_request_step api luid (Prefix_Route dest len gw) nc w = snd (apply_prefix_route api luid dest len gw nc w)"

fun route_requests ::
  "'w net_api \<Rightarrow> u64 \<Rightarrow> route_request list \<Rightarrow> WindowsNetConfigurator \<Rightarrow> 'w \<Rightarrow> WindowsNetConfigurator \<times> 'w" where
  "route_requests api luid [] nc w = (nc, w)"
| "route_requests api luid (r # rs) nc w =
     (case route_request_step api luid r nc w of (nc', w') \<Rightarrow> route_requests api luid rs nc' w')"

text \<open>The configurator's record is exact: the table is the initial one plus the recorded rows.\<close>

definition routes_tracked ::
  "'w net_api \<Rightarrow> ('w \<Rightarrow> forward_row set) \<Rightarrow> forward_row set \<Rightarrow> WindowsNetConfigurator \<Rightarrow> 'w \<Rightarrow> bool" where
  "routes_tracked api tbl base nc w \<longleftrightarrow>
     tbl w = base \<union> recorded_rows api nc \<and> distinct (nc_selective nc)"

lemma apply_prefix_route_cases:
  assumes "apply_prefix_route api luid dst len gw nc w = (r, nc', w')"
  obtains (unchanged) "nc' = nc\<lparr>nc_last_error := r\<rparr>" and "w' = w"
  | (rejected) row st where "na_create_forward api row w = (st, w')" and "st \<noteq> NO_ERROR"
      and "nc' = nc\<lparr>nc_last_error := r\<rparr>"
  | (added) st a g key where "parse_ipv4 api dst = Inr a" and "parse_ipv4 api gw = Inr g"
      and "key = \<lparr>rk_luid = luid, rk_dest = masked_network a len, rk_prefix = len, rk_gateway = gw\<rparr>"
      and "key \<notin> set (nc_selective nc)" and "r = None"
      and "na_create_forward api (fill_ipv4_forward_row luid (masked_network a len) len g) w = (st, w')"
      and "st = NO_ERROR \<or> st = ERROR_OBJECT_ALREADY_EXISTS"
      and "nc' = nc\<lparr>nc_last_error := None, nc_selective := nc_selective nc @ [key]\<rparr>"
  using assms
  by (auto simp: apply_prefix_route_def Let_def split: if_splits sum.splits prod.splits)

lemma apply_global_default_route_cases:
  assumes "apply_global_default_route api luid gw nc w = (r, nc', w')"
  obtains (unchanged) "nc' = nc\<lparr>nc_last_error := r\<rparr>" and "w' = w"
  | (rejected) row st where "na_create_forward api row w = (st, w')" and "st \<noteq> NO_ERROR"
      and "nc' = nc\<lparr>nc_last_error := r\<rparr>"
  | (added) st g where "parse_ipv4 api gw = Inr g" and "r = None"
      and "na_create_forward api (fill_ipv4_forward_row luid 0 0 g) w = (st, w')"
      and "st = NO_ERROR \<or> st = ERROR_OBJECT_ALREADY_EXISTS"
      and "nc' = nc\<lparr>nc_last_error := None, nc_default_applied := True, nc_default_luid := luid,
                     nc_default_gateway := gw\<rparr>"
  using assms
  by (auto simp: apply_global_default_route_def Let_def split: if_splits sum.splits prod.splits)

lemma apply_endpoint_bypass_route_cases:
  assumes "apply_endpoint_bypass_route api host luid nc w = (r, nc', w')"
  obtains (unchanged) w1 where "nc' = nc\<lparr>nc_last_error := r\<rparr>" and "w1 = snd (na_getaddrinfo api host w)"
      and "w' = w \<or> w' = w1 \<or> w' = snd (na_get_forward_table api w1)"
  | (tried) w1 w2 as table best d st where "na_winsock api"
      and "na_getaddrinfo api host w = (as, w1)" and "as \<noteq> []" and "d = snd (hd as)"
      and "na_get_forward_table api w1 = (Inr table, w2)"
      and "best_default_route luid None table = Some best"
      and "na_create_forward api (fill_ipv4_forward_row (fr_luid best) d 32 (fr_next_hop best)) w2 = (st, w')"
      and "(st \<noteq> NO_ERROR \<and> nc' = nc\<lparr>nc_last_error := r\<rparr> \<and> r \<noteq> None) \<or>
           ((st = NO_ERROR \<or> st = ERROR_OBJECT_ALREADY_EXISTS) \<and> r = None \<and>
            nc' = nc\<lparr>nc_last_error := None, nc_bypass_applied := True, nc_bypass_luid := fr_luid best,
              nc_bypass_gateway := (case na_ntop api (fr_next_hop best) of Some t \<Rightarrow> t | None \<Rightarrow> ''0.0.0.0''),
              nc_bypass_destination := (case na_ntop api d of Some t \<Rightarrow> t | None \<Rightarrow> host)\<rparr>)"
proof (cases "host = ''127.0.0.1'' \<or> host = ''localhost'' \<or> \<not> na_winsock api")
  case True
  with assms unchanged show ?thesis by (auto simp: apply_endpoint_bypass_route_def Let_def split: if_splits)
next
  case False
  note f = False
  obtain as w1 where g: "na_getaddrinfo api host w = (as, w1)" by fastforce
  obtain tab w2 where t: "na_get_forward_table api w1 = (tab, w2)" by fastforce
  show ?thesis
  proof (cases "as = [] \<or> (\<exists>e. tab = Inl e) \<or> (\<exists>rows. tab = Inr rows \<and> best_default_route luid None rows = None)")
    case True
    with assms f g t unchanged show ?thesis
      by (cases as) (auto simp: apply_endpoint_bypass_route_def Let_def split: if_splits)
  next
    case False
    then obtain a as' table best where s: "as = a # as'" "tab = Inr table"
      "best_default_route luid None table = Some best"
      by (cases as; cases tab) auto
    obtain st w3 where c: "na_create_forward api
        (fill_ipv4_forward_row (fr_luid best) (snd a) 32 (fr_next_hop best)) w2 = (st, w3)" by fastforce
    show ?thesis
      by (rule tried [of as w1 "snd a" table w2 best st])
        (use assms f g t s c in \<open>auto simp: apply_endpoint_bypass_route_def Let_def split: if_splits prod.splits\<close>)
  qed
qed

lemma tracked_prefix:
  assumes ok: "forward_api_ok api tbl" and inv: "routes_tracked api tbl base nc w"
    and run: "apply_prefix_route api luid dst len gw nc w = (r, nc', w')"
  shows "routes_tracked api tbl base nc' w'"
  using run
proof (cases rule: apply_prefix_route_cases)
  case unchanged
  with inv show ?thesis by (simp add: routes_tracked_def)
next
  case (rejected row st)
  with inv not_created [OF ok] show ?thesis by (simp add: routes_tracked_def)
next
  case (added st a g key)
  let ?row = "fill_ipv4_forward_row luid (masked_network a len) len g"
  have "recorded_rows api nc' = insert ?row (recorded_rows api nc)"
    using added(2,3) by (simp add: added(8) recorded_rows_def default_rows_def bypass_rows_def selective_rows_snoc)
  moreover have "tbl w' = insert ?row (tbl w)"
    using created_or_existing [OF ok] added(6,7) by blast
  ultimately show ?thesis
    using inv added(4,8) by (simp add: routes_tracked_def)
qed

lemma tracked_default:
  assumes ok: "forward_api_ok api tbl" and inv: "routes_tracked api tbl base nc w"
    and first: "\<not> nc_default_applied nc"
    and run: "apply_global_default_route api luid gw nc w = (r, nc', w')"
  shows "routes_tracked api tbl base nc' w'"
  using run
proof (cases rule: apply_global_default_route_cases)
  case unchanged
  with inv show ?thesis by (simp add: routes_tracked_def)
next
  case (rejected row st)
  with inv not_created [OF ok] show ?thesis by (simp add: routes_tracked_def)
next
  case (added st g)
  let ?row = "fill_ipv4_forward_row luid 0 0 g"
  have "recorded_rows api nc' = insert ?row (recorded_rows api nc)"
    using added(1) first by (auto simp: added(5) recorded_defs)
  moreover have "tbl w' = insert ?row (tbl w)"
    using created_or_existing [OF ok] added(3,4) by blast
  ultimately show ?thesis
    using inv added(5) by (simp add: routes_tracked_def)
qed

lemma tracked_bypass:
  assumes ok: "forward_api_ok api tbl" and text_ok: "inet_text_ok api" and inv: "routes_tracked api tbl base nc w"
    and first: "\<not> nc_bypass_applied nc"
    and run: "apply_endpoint_bypass_route api host luid nc w = (r, nc', w')"
  shows "routes_tracked api tbl base nc' w'"
  using run
proof (cases rule: apply_endpoint_bypass_route_cases)
  case (unchanged w1)
  have "tbl w' = tbl w"
    using unchanged(2,3) forward_api_okD(4,5) [OF ok] by (metis prod.collapse)
  with inv unchanged(1) show ?thesis by (simp add: routes_tracked_def)
next
  case (tried w1 w2 as table best d st)
  have w2: "tbl w2 = tbl w"
    using forward_api_okD(4) [OF ok tried(2)] forward_api_okD(5) [OF ok tried(5)] by simp
  let ?row = "fill_ipv4_forward_row (fr_luid best) d 32 (fr_next_hop best)"
  from tried(8) show ?thesis
  proof
    assume "st \<noteq> NO_ERROR \<and> nc' = nc\<lparr>nc_last_error := r\<rparr> \<and> r \<noteq> None"
    with inv w2 not_created [OF ok tried(7)] show ?thesis by (simp add: routes_tracked_def)
  next
    assume good: "(st = NO_ERROR \<or> st = ERROR_OBJECT_ALREADY_EXISTS) \<and> r = None \<and>
      nc' = nc\<lparr>nc_last_error := None, nc_bypass_applied := True, nc_bypass_luid := fr_luid best,
        nc_bypass_gateway := (case na_ntop api (fr_next_hop best) of Some t \<Rightarrow> t | None \<Rightarrow> ''0.0.0.0''),
        nc_bypass_destination := (case na_ntop api d of Some t \<Rightarrow> t | None \<Rightarrow> host)\<rparr>"
    obtain t1 t2 where t: "na_ntop api (fr_next_hop best) = Some t1" "na_pton api t1 = Some (fr_next_hop best)"
      "na_ntop api d = Some t2" "na_pton api t2 = Some d"
      using text_ok unfolding inet_text_ok_def by metis
    have "recorded_rows api nc' = insert ?row (recorded_rows api nc)"
      using good first t tried(1) by (auto simp: recorded_defs parse_ipv4_Inr_iff)
    moreover have "tbl w' = insert ?row (tbl w)"
      using created_or_existing [OF ok tried(7)] good w2 by simp
    ultimately show ?thesis
      using inv good by (simp add: routes_tracked_def)
  qed
qed

text \<open>Which flags a request can set.\<close>

lemma apply_prefix_flags:
  "apply_prefix_route api luid dst len gw nc w = (r, nc', w') \<Longrightarrow>
     nc_default_applied nc' = nc_default_applied nc \<and> nc_bypass_applied nc' = nc_bypass_applied nc"
  by (erule apply_prefix_route_cases) auto

lemma apply_default_flags:
  "apply_global_default_route api luid gw nc w = (r, nc', w') \<Longrightarrow> nc_bypass_applied nc' = nc_bypass_applied nc"
  by (erule apply_global_default_route_cases) auto

lemma apply_bypass_flags:
  "apply_endpoint_bypass_route api host luid nc w = (r, nc', w') \<Longrightarrow> nc_default_applied nc' = nc_default_applied nc"
  by (erule apply_endpoint_bypass_route_cases) auto

fun is_bypass :: "route_request \<Rightarrow> bool" where
  "is_bypass (Bypass h) = True" | "is_bypass _ = False"

fun is_default :: "route_request \<Rightarrow> bool" where
  "is_default (Default_Route g) = True" | "is_default _ = False"

definition requests_once :: "route_request list \<Rightarrow> bool" where
  "requests_once rs \<longleftrightarrow> length (filter is_bypass rs) \<le> 1 \<and> length (filter is_default rs) \<le> 1"

lemma tracked_requests:
  assumes ok: "forward_api_ok api tbl" and text_ok: "inet_text_ok api"
  shows "routes_tracked api tbl base nc w \<Longrightarrow>
    length (filter is_bypass rs) \<le> (if nc_bypass_applied nc then 0 else 1) \<Longrightarrow>
    length (filter is_default rs) \<le> (if nc_default_applied nc then 0 else 1) \<Longrightarrow>
    route_requests api luid rs nc w = (nc', w') \<Longrightarrow> routes_tracked api tbl base nc' w'"
proof (induction rs arbitrary: nc w)
  case Nil
  then show ?case by simp
next
  case (Cons r rs)
  obtain nc1 w1 where s: "route_request_step api luid r nc w = (nc1, w1)" by fastforce
  with Cons.prems(4) have rest: "route_requests api luid rs nc1 w1 = (nc', w')" by simp
  show ?case
  proof (cases r)
    case (Bypass host)
    with s obtain e where b: "apply_endpoint_bypass_route api host luid nc w = (e, nc1, w1)"
      by (metis prod.collapse route_request_step.simps(1) snd_conv)
    have "\<not> nc_bypass_applied nc" using Cons.prems(2) Bypass by (auto split: if_splits)
    with tracked_bypass [OF ok text_ok Cons.prems(1) _ b] apply_bypass_flags [OF b] Cons.IH [OF _ _ _ rest] Cons.prems(2,3) Bypass
    show ?thesis by (auto split: if_splits)
  next
    case (Default_Route gw)
    with s obtain e where b: "apply_global_default_route api luid gw nc w = (e, nc1, w1)"
      by (metis prod.collapse route_request_step.simps(2) snd_conv)
    have "\<not> nc_default_applied nc" using Cons.prems(3) Default_Route by (auto split: if_splits)
    with tracked_default [OF ok Cons.prems(1) _ b] apply_default_flags [OF b] Cons.IH [OF _ _ _ rest] Cons.prems(2,3) Default_Route
    show ?thesis by (auto split: if_splits)
  next
    case (Prefix_Route dst len gw)
    with s obtain e where b: "apply_prefix_route api luid dst len gw nc w = (e, nc1, w1)"
      by (metis prod.collapse route_request_step.simps(3) snd_conv)
    with tracked_prefix [OF ok Cons.prems(1) b] apply_prefix_flags [OF b] Cons.IH [OF _ _ _ rest] Cons.prems(2,3) Prefix_Route
    show ?thesis by auto
  qed
qed

text \<open>
  The bypass route avoids the tunnel: the route search picks, of the default routes that
  do not go through the tunnel interface and have a gateway, one of least metric, and fails
  exactly when there is none.
\<close>

lemma bypass_gateway_avoids_tunnel:
  "(case best_default_route tunnel None table of
      None \<Rightarrow> filter (bypass_candidate tunnel) table = []
    | Some best \<Rightarrow> best \<in> set (filter (bypass_candidate tunnel) table) \<and>
        fr_luid best \<noteq> tunnel \<and> fr_next_hop best \<noteq> 0 \<and>
        fr_metric best = Min (fr_metric ` set (filter (bypass_candidate tunnel) table)))"
proof (cases "best_default_route tunnel None table")
  case None
  with best_default_route_spec [of tunnel None table] show ?thesis
    by (simp add: filter_empty_conv)
next
  case (Some b)
  with best_default_route_spec [of tunnel None table]
  have b: "bypass_candidate tunnel b" "b \<in> set table"
    "\<forall>r \<in> set table. bypass_candidate tunnel r \<longrightarrow> fr_metric b \<le> fr_metric r" by auto
  then have "Min (fr_metric ` set (filter (bypass_candidate tunnel) table)) = fr_metric b"
    by (intro Min_eqI) auto
  with b Some show ?thesis by (simp add: bypass_candidate_def)
qed

section \<open>A concrete system\<close>

text \<open>
  The world is the forwarding table itself, as a list; there is one other interface with a
  default route. Used where a theorem is applied to a concrete input.
\<close>

definition sample_api :: "forward_row list net_api" where
  "sample_api =
     \<lparr>na_winsock = True, na_pton = dotted_pton, na_ntop = (\<lambda>a. Some (dotted_ntop a)),
      na_getaddrinfo = (\<lambda>host w. ((case dotted_pton host of Some a \<Rightarrow> [(True, a)] | None \<Rightarrow> []), w)),
      na_get_forward_table = (\<lambda>w. (Inr w, w)),
      na_create_forward = (\<lambda>row w. if row \<in> set w then (5010, w) else (0, row # w)),
      na_delete_forward = (\<lambda>row w. (if row \<in> set w then 0 else 1168, filter (\<lambda>r. r \<noteq> row) w)),
      na_create_unicast = (\<lambda>luid ip len w. (0, w)), na_delete_unicast = (\<lambda>luid ip len w. (0, w)),
      na_luid_to_guid = (\<lambda>luid. Inr (unat luid)), na_iphlpapi_loaded = (\<lambda>w. True), na_load_iphlpapi = (\<lambda>w. (True, w)),
      na_has_set_dns = True, na_set_dns = (\<lambda>guid dns w. (0, w))\<rparr>"

lemma sample_api_ok: "forward_api_ok sample_api set"
  by (auto simp: forward_api_ok_def sample_api_def)

lemma sample_text_ok: "inet_text_ok sample_api"
  by (simp add: inet_text_ok_def sample_api_def dotted_round_trip)

definition uplink :: forward_row where
  "uplink = fill_ipv4_forward_row 2 0 0 0xC0A80101"

section \<open>Properties\<close>



end
