(* ===== verification/Config.thy ===== *)
theory Config
  imports Inner_Session Net_Config
begin

text \<open>
  The configuration of \<^verbatim>\<open>include/tunnel/config.hpp\<close> with its default values and the check
  \<open>TunnelConfig::is_valid\<close> of \<^verbatim>\<open>src/config.cpp\<close>. The fields that exist only on Windows are
  fields of the record; the check reads them only when the platform is \<open>Windows\<close>, as the
  preprocessor conditionals do. The security policy the check enforces is stated as the
  predicate \<open>config_policy\<close>, and the check is proved equivalent to it.
\<close>

section \<open>Data\<close>

datatype Role = Client | Server

datatype ClientRoutingMode = Route_None | Route_Smart | Route_Global

record QuicTransportConfig =
  qc_alpn :: string
  qc_cert_hash :: string
  qc_cert_file :: string
  qc_key_file :: string
  qc_insecure :: bool
  qc_idle_timeout_ms :: u64

record DataPlaneConfig =
  dp_batch_size :: nat
  dp_idle_sleep_ms :: u32
  dp_buffer_pool_capacity :: nat
  dp_buffer_default_capacity :: nat

record TunnelConfig =
  tc_role :: Role
  tc_endpoint :: string
  tc_port :: u16
  tc_mtu :: u16
  tc_prefer_quic :: bool
  tc_quic :: QuicTransportConfig
  tc_inner :: InnerSessionConfig
  tc_data_plane :: DataPlaneConfig
  tc_allow_zero_rtt :: bool
  tc_ipv4 :: Ipv4InterfaceConfig
  tc_enable_global_default_route :: bool
  tc_client_routing_mode :: ClientRoutingMode
  tc_default_route_gateway :: string
  tc_smart_route_domain_list :: string
  tc_smart_route_cidr_list :: string

text \<open>The default member initialisers.\<close>

definition default_quic_config :: QuicTransportConfig where
  "default_quic_config =
     \<lparr>qc_alpn = ''sectunnel'', qc_cert_hash = [], qc_cert_file = [], qc_key_file = [],
      qc_insecure = False, qc_idle_timeout_ms = 30000\<rparr>"

definition default_data_plane :: DataPlaneConfig where
  "default_data_plane =
     \<lparr>dp_batch_size = 8, dp_idle_sleep_ms = 1, dp_buffer_pool_capacity = 16,
      dp_buffer_default_capacity = 2048\<rparr>"

definition default_config :: TunnelConfig where
  "default_config =
     \<lparr>tc_role = Client, tc_endpoint = ''127.0.0.1'', tc_port = 443, tc_mtu = 1280,
      tc_prefer_quic = False, tc_quic = default_quic_config, tc_inner = \<lparr>psk_hex = []\<rparr>,
      tc_data_plane = default_data_plane, tc_allow_zero_rtt = False,
      tc_ipv4 = \<lparr>if_address = ''10.66.66.2'', if_prefix_length = 24, if_dns = ''1.1.1.1'',
                 if_apply_on_open = True\<rparr>,
      tc_enable_global_default_route = False, tc_client_routing_mode = Route_None,
      tc_default_route_gateway = ''10.66.66.1'',
      tc_smart_route_domain_list = ''config/smart_route_domains.txt'',
      tc_smart_route_cidr_list = ''config/smart_route_cidrs.txt''\<rparr>"

text \<open>The messages of \<open>is_valid\<close>; \<open>Config_Address\<close> is a message of \<open>parse_ipv4\<close>.\<close>

datatype config_error =
    Endpoint_Empty
  | Port_Zero
  | Mtu_Out_Of_Range
  | Zero_Rtt_Forbidden
  | Alpn_Empty
  | Insecure_Server
  | Insecure_Remote
  | Server_Certificate_Missing
  | Routing_Conflict
  | Routing_Server
  | Routing_Without_Quic
  | Config_Address net_error
  | Smart_Lists_Missing
  | Config_Prefix_Length

section \<open>Validation\<close>

text \<open>The two halves of \<open>is_valid\<close>; \<open>None\<close> means that the check passes.\<close>

definition quic_error :: "TunnelConfig \<Rightarrow> config_error option" where
  "quic_error c =
     (if qc_alpn (tc_quic c) = [] then Some Alpn_Empty
      else if qc_insecure (tc_quic c) \<and> tc_role c \<noteq> Client then Some Insecure_Server
      else if qc_insecure (tc_quic c) \<and> tc_endpoint c \<noteq> ''127.0.0.1'' \<and> tc_endpoint c \<noteq> ''localhost''
      then Some Insecure_Remote
      else if tc_role c = Server \<and> \<not> qc_cert_hash (tc_quic c) \<noteq> [] \<and>
              \<not> (qc_cert_file (tc_quic c) \<noteq> [] \<and> qc_key_file (tc_quic c) \<noteq> [])
      then Some Server_Certificate_Missing
      else None)"

definition routing_active :: "TunnelConfig \<Rightarrow> bool" where
  "routing_active c \<longleftrightarrow>
     tc_enable_global_default_route c \<or> tc_client_routing_mode c = Route_Smart \<or>
     tc_client_routing_mode c = Route_Global"

definition routing_error :: "'w net_api \<Rightarrow> TunnelConfig \<Rightarrow> config_error option" where
  "routing_error api c =
     (if tc_enable_global_default_route c \<and> tc_client_routing_mode c \<noteq> Route_None \<and>
         tc_client_routing_mode c \<noteq> Route_Global
      then Some Routing_Conflict
      else if routing_active c \<and> tc_role c \<noteq> Client then Some Routing_Server
      else if routing_active c \<and> \<not> tc_prefer_quic c then Some Routing_Without_Quic
      else
        (case (if routing_active c then parse_ipv4 api (tc_default_route_gateway c) else Inr 0) of
           Inl e \<Rightarrow> Some (Config_Address e)
         | Inr _ \<Rightarrow>
             if tc_client_routing_mode c = Route_Smart \<and> tc_smart_route_domain_list c = [] \<and>
                tc_smart_route_cidr_list c = []
             then Some Smart_Lists_Missing
             else None))"

definition address_error :: "'w net_api \<Rightarrow> Ipv4InterfaceConfig \<Rightarrow> config_error option" where
  "address_error api v4 =
     (if if_apply_on_open v4
      then
        (case parse_ipv4 api (if_address v4) of
           Inl e \<Rightarrow> Some (Config_Address e)
         | Inr _ \<Rightarrow>
             if if_prefix_length v4 = 0 \<or> 32 < if_prefix_length v4 then Some Config_Prefix_Length
             else if if_dns v4 \<noteq> []
             then (case parse_ipv4 api (if_dns v4) of Inl e \<Rightarrow> Some (Config_Address e) | Inr _ \<Rightarrow> None)
             else None)
      else None)"

definition is_valid :: "platform \<Rightarrow> 'w net_api \<Rightarrow> TunnelConfig \<Rightarrow> config_error option" where
  "is_valid plat api c =
     (if tc_endpoint c = [] then Some Endpoint_Empty
      else if tc_port c = 0 then Some Port_Zero
      else if tc_mtu c < 1280 \<or> 1420 < tc_mtu c then Some Mtu_Out_Of_Range
      else if tc_allow_zero_rtt c then Some Zero_Rtt_Forbidden
      else
        (case (if tc_prefer_quic c then quic_error c else None) of
           Some e \<Rightarrow> Some e
         | None \<Rightarrow>
             (case plat of
                Posix \<Rightarrow> None
              | Windows \<Rightarrow>
                  (case routing_error api c of
                     Some e \<Rightarrow> Some e
                   | None \<Rightarrow> address_error api (tc_ipv4 c)))))"

section \<open>The policy\<close>

definition parses :: "'w net_api \<Rightarrow> string \<Rightarrow> bool" where
  "parses api text \<longleftrightarrow> (\<exists>a. parse_ipv4 api text = Inr a)"

definition quic_policy :: "TunnelConfig \<Rightarrow> bool" where
  "quic_policy c \<longleftrightarrow>
     qc_alpn (tc_quic c) \<noteq> [] \<and>
     (qc_insecure (tc_quic c) \<longrightarrow> tc_role c = Client \<and> tc_endpoint c \<in> {''127.0.0.1'', ''localhost''}) \<and>
     (tc_role c = Server \<longrightarrow>
        qc_cert_hash (tc_quic c) \<noteq> [] \<or> qc_cert_file (tc_quic c) \<noteq> [] \<and> qc_key_file (tc_quic c) \<noteq> [])"

definition routing_policy :: "'w net_api \<Rightarrow> TunnelConfig \<Rightarrow> bool" where
  "routing_policy api c \<longleftrightarrow>
     (routing_active c \<longrightarrow> tc_role c = Client \<and> tc_prefer_quic c \<and> parses api (tc_default_route_gateway c)) \<and>
     (tc_client_routing_mode c = Route_Smart \<longrightarrow>
        \<not> tc_enable_global_default_route c \<and>
        (tc_smart_route_domain_list c \<noteq> [] \<or> tc_smart_route_cidr_list c \<noteq> []))"

definition address_policy :: "'w net_api \<Rightarrow> Ipv4InterfaceConfig \<Rightarrow> bool" where
  "address_policy api v4 \<longleftrightarrow>
     (if_apply_on_open v4 \<longrightarrow>
        parses api (if_address v4) \<and> if_prefix_length v4 \<in> {1..32} \<and>
        (if_dns v4 \<noteq> [] \<longrightarrow> parses api (if_dns v4)))"

definition config_policy :: "platform \<Rightarrow> 'w net_api \<Rightarrow> TunnelConfig \<Rightarrow> bool" where
  "config_policy plat api c \<longleftrightarrow>
     tc_endpoint c \<noteq> [] \<and> tc_port c \<noteq> 0 \<and> tc_mtu c \<in> {1280..1420} \<and> \<not> tc_allow_zero_rtt c \<and>
     (tc_prefer_quic c \<longrightarrow> quic_policy c) \<and>
     (plat = Windows \<longrightarrow> routing_policy api c \<and> address_policy api (tc_ipv4 c))"

lemma quic_error_None_iff: "quic_error c = None \<longleftrightarrow> quic_policy c"
  by (cases "tc_role c") (auto simp: quic_error_def quic_policy_def)

lemma routing_error_None_iff: "routing_error api c = None \<longleftrightarrow> routing_policy api c"
proof (cases "tc_client_routing_mode c")
  case Route_Smart
  then show ?thesis
    by (auto simp: routing_error_def routing_policy_def routing_active_def parses_def split: sum.splits)
next
  case Route_None
  then show ?thesis
    by (auto simp: routing_error_def routing_policy_def routing_active_def parses_def split: sum.splits)
next
  case Route_Global
  then show ?thesis
    by (auto simp: routing_error_def routing_policy_def routing_active_def parses_def split: sum.splits)
qed

lemma address_error_None_iff: "address_error api v4 = None \<longleftrightarrow> address_policy api v4"
proof -
  have "if_prefix_length v4 \<in> {1..32} \<longleftrightarrow> \<not> (if_prefix_length v4 = 0 \<or> 32 < if_prefix_length v4)"
    by (auto simp: not_less word_le_nat_alt Suc_le_eq unat_gt_0)
  then show ?thesis
    by (auto simp: address_error_def address_policy_def parses_def split: sum.splits)
qed

lemma is_valid_None_iff: "is_valid plat api c = None \<longleftrightarrow> config_policy plat api c"
proof -
  have mtu: "tc_mtu c \<in> {1280..1420} \<longleftrightarrow> \<not> (tc_mtu c < 1280 \<or> 1420 < tc_mtu c)"
    by (auto simp: not_less)
  show ?thesis
    unfolding is_valid_def config_policy_def mtu
    using quic_error_None_iff [of c] routing_error_None_iff [of api c] address_error_None_iff [of api "tc_ipv4 c"]
    by (cases plat) (auto split: option.splits)
qed

section \<open>Properties\<close>

text \<open>
  C14. The configuration check enforces the security policy, on both platforms and no more
  than it: the MTU is within 1280 to 1420, 0-RTT is off, certificate checks are skipped
  only by a client of the local host, a QUIC server has a certificate, and on Windows
  traffic is routed into the tunnel only by a client over QUIC with a gateway that parses.
\<close>

theorem is_valid_iff_policy: "is_valid plat api c = None \<longleftrightarrow> config_policy plat api c"
  by (rule is_valid_None_iff)

end
