(* ===== verification/Buffer_Pool.thy ===== *)
theory Buffer_Pool
  imports Prelude
begin

text \<open>
  The buffer pool of \<^verbatim>\<open>src/packet_buffer_pool.cpp\<close> and the counters of \<^verbatim>\<open>src/relay_stats.cpp\<close>.
  A \<open>std::vector\<close> is its elements and its capacity; the pool's contract is the locale
  \<open>buffer_recycler\<close>, interpreted on the code's operations.
\<close>

section \<open>Vectors\<close>

record buffer =
  buf_bytes :: bytes
  buf_capacity :: nat

definition empty_buffer :: buffer where
  "empty_buffer = \<lparr>buf_bytes = [], buf_capacity = 0\<rparr>"

text \<open>\<open>reserve\<close> never shrinks; \<open>clear\<close> keeps the capacity; filling grows it if it is too small.\<close>

definition buf_reserve :: "nat \<Rightarrow> buffer \<Rightarrow> buffer" where
  "buf_reserve n b = b\<lparr>buf_capacity := max (buf_capacity b) n\<rparr>"

definition buf_clear :: "buffer \<Rightarrow> buffer" where
  "buf_clear b = b\<lparr>buf_bytes := []\<rparr>"

definition buf_assign :: "bytes \<Rightarrow> buffer \<Rightarrow> buffer" where
  "buf_assign xs b = \<lparr>buf_bytes = xs, buf_capacity = max (buf_capacity b) (length xs)\<rparr>"

definition buf_ok :: "buffer \<Rightarrow> bool" where
  "buf_ok b \<longleftrightarrow> length (buf_bytes b) \<le> buf_capacity b"

lemmas buf_defs = empty_buffer_def buf_reserve_def buf_clear_def buf_assign_def buf_ok_def

lemma buf_ok_operations [simp]:
  "buf_ok empty_buffer" "buf_ok (buf_clear b)" "buf_ok (buf_assign xs b)"
  "buf_ok b \<Longrightarrow> buf_ok (buf_reserve n b)"
  by (auto simp: buf_defs)

section \<open>The pool\<close>

text \<open>The free list, last element last; \<open>acquire\<close> takes the last one.\<close>

record PacketBufferPool =
  pool_capacity :: nat
  pool_default_capacity :: nat
  pool_free_list :: "buffer list"

definition new_pool :: "nat \<Rightarrow> nat \<Rightarrow> PacketBufferPool" where
  "new_pool cap dflt =
     \<lparr>pool_capacity = (if 0 < cap then cap else 16),
      pool_default_capacity = (if 0 < dflt then dflt else 2048),
      pool_free_list = []\<rparr>"

definition acquire :: "nat \<Rightarrow> PacketBufferPool \<Rightarrow> buffer \<times> PacketBufferPool" where
  "acquire minimum_capacity pool =
     (let target = max minimum_capacity (pool_default_capacity pool) in
      if pool_free_list pool \<noteq> []
      then
        (let b = last (pool_free_list pool);
             pool' = pool\<lparr>pool_free_list := butlast (pool_free_list pool)\<rparr>;
             b' = (if buf_capacity b < target then buf_reserve target b else b)
         in (buf_clear b', pool'))
      else (buf_reserve target empty_buffer, pool))"

text \<open>
  The argument is an rvalue reference: when the pool is full it is left as it is, otherwise
  it is cleared and moved from, which leaves an empty vector behind. The result is what is
  left in the caller's variable, and the pool.
\<close>

definition release :: "buffer \<Rightarrow> PacketBufferPool \<Rightarrow> buffer \<times> PacketBufferPool" where
  "release b pool =
     (if pool_capacity pool \<le> length (pool_free_list pool) then (b, pool)
      else (empty_buffer, pool\<lparr>pool_free_list := pool_free_list pool @ [buf_clear b]\<rparr>))"

definition available :: "PacketBufferPool \<Rightarrow> nat" where
  "available pool = length (pool_free_list pool)"

section \<open>The contract of a recycler\<close>

text \<open>Any sequence of requests (\<open>Inl\<close> a minimum capacity) and returns (\<open>Inr\<close> a buffer).\<close>

fun recycle ::
  "(nat \<Rightarrow> 'p \<Rightarrow> buffer \<times> 'p) \<Rightarrow> (buffer \<Rightarrow> 'p \<Rightarrow> buffer \<times> 'p) \<Rightarrow> (nat + buffer) list \<Rightarrow> 'p \<Rightarrow>
   (nat \<times> buffer) list \<times> 'p" where
  "recycle t g [] p = ([], p)"
| "recycle t g (Inl n # ops) p =
     (case t n p of (b, p') \<Rightarrow> (case recycle t g ops p' of (bs, q) \<Rightarrow> ((n, b) # bs, q)))"
| "recycle t g (Inr b # ops) p = (case g b p of (_, p') \<Rightarrow> recycle t g ops p')"

text \<open>
  Buffers handed out are empty and large enough; handing out and taking back keep the
  invariant, and the number of stored buffers never passes the bound.
\<close>

locale buffer_recycler =
  fixes take_buffer :: "nat \<Rightarrow> 'p \<Rightarrow> buffer \<times> 'p"
    and give_buffer :: "buffer \<Rightarrow> 'p \<Rightarrow> buffer \<times> 'p"
    and stored :: "'p \<Rightarrow> nat"
    and bound :: "'p \<Rightarrow> nat"
    and inv :: "'p \<Rightarrow> bool"
  assumes inv_bound: "inv p \<Longrightarrow> stored p \<le> bound p"
    and take_ok: "inv p \<Longrightarrow> take_buffer n p = (b, p') \<Longrightarrow>
      inv p' \<and> buf_bytes b = [] \<and> n \<le> buf_capacity b \<and> bound p' = bound p \<and> stored p' = stored p - 1"
    and give_ok: "inv p \<Longrightarrow> buf_ok b \<Longrightarrow> give_buffer b p = (b', p') \<Longrightarrow>
      inv p' \<and> buf_ok b' \<and> bound p' = bound p \<and> stored p' = min (bound p) (stored p + 1)"
begin

lemma recycle_ok:
  "inv p \<Longrightarrow> (\<And>b. Inr b \<in> set ops \<Longrightarrow> buf_ok b) \<Longrightarrow> recycle take_buffer give_buffer ops p = (out, q) \<Longrightarrow>
     inv q \<and> stored q \<le> bound p \<and> bound q = bound p \<and>
     (\<forall>(n, b) \<in> set out. buf_bytes b = [] \<and> n \<le> buf_capacity b)"
proof (induction ops arbitrary: p out q)
  case Nil
  then show ?case using inv_bound by auto
next
  case (Cons op ops)
  have rest: "\<And>b. Inr b \<in> set ops \<Longrightarrow> buf_ok b" using Cons.prems(2) by simp
  show ?case
  proof (cases op)
    case (Inl n)
    obtain b p1 where t: "take_buffer n p = (b, p1)" by fastforce
    obtain bs q1 where r: "recycle take_buffer give_buffer ops p1 = (bs, q1)" by fastforce
    from take_ok [OF Cons.prems(1) t] Cons.IH [OF _ rest r] Cons.prems(3) Inl t r
    show ?thesis by auto
  next
    case (Inr b)
    obtain b1 p1 where g: "give_buffer b p = (b1, p1)" by fastforce
    have r: "recycle take_buffer give_buffer ops p1 = (out, q)" using Cons.prems(3) Inr g by simp
    have "buf_ok b" using Cons.prems(2) Inr by simp
    from give_ok [OF Cons.prems(1) this g] Cons.IH [OF _ rest r] show ?thesis by auto
  qed
qed

end

text \<open>The pool's invariant: never more than the capacity, and every stored buffer is empty.\<close>

definition pool_ok :: "PacketBufferPool \<Rightarrow> bool" where
  "pool_ok pool \<longleftrightarrow>
     0 < pool_capacity pool \<and> 0 < pool_default_capacity pool \<and>
     length (pool_free_list pool) \<le> pool_capacity pool \<and>
     (\<forall>b \<in> set (pool_free_list pool). buf_bytes b = [])"

lemma new_pool_ok [simp]: "pool_ok (new_pool cap dflt)"
  by (simp add: pool_ok_def new_pool_def)

lemma acquire_spec:
  assumes "pool_ok pool" and "acquire n pool = (b, pool')"
  shows "pool_ok pool'" and "buf_bytes b = []" and "n \<le> buf_capacity b"
    and "pool_default_capacity pool \<le> buf_capacity b"
    and "pool_capacity pool' = pool_capacity pool" and "available pool' = available pool - 1"
proof -
  let ?fl = "pool_free_list pool"
  have sub: "set (butlast ?fl) \<subseteq> set ?fl" by (auto dest: in_set_butlastD)
  have eq: "b = (if ?fl = [] then buf_reserve (max n (pool_default_capacity pool)) empty_buffer
      else buf_clear (buf_reserve (if buf_capacity (last ?fl) < max n (pool_default_capacity pool)
        then max n (pool_default_capacity pool) else 0) (last ?fl)))"
    "pool' = pool\<lparr>pool_free_list := butlast ?fl\<rparr>"
    using assms(2) by (auto simp: acquire_def Let_def buf_reserve_def split: if_splits)
  show "pool_ok pool'" using assms(1) sub by (auto simp: eq(2) pool_ok_def)
  show "buf_bytes b = []" by (simp add: eq(1) buf_defs)
  show "n \<le> buf_capacity b" "pool_default_capacity pool \<le> buf_capacity b"
    by (auto simp: eq(1) buf_defs)
  show "pool_capacity pool' = pool_capacity pool" by (simp add: eq(2))
  show "available pool' = available pool - 1" by (simp add: eq(2) available_def)
qed

lemma release_spec:
  assumes "pool_ok pool" and "release b pool = (b', pool')"
  shows "pool_ok pool'" and "pool_capacity pool' = pool_capacity pool"
    and "available pool' = min (pool_capacity pool) (available pool + 1)"
    and "buf_ok b \<Longrightarrow> buf_ok b'"
  using assms by (auto simp: release_def pool_ok_def available_def buf_clear_def split: if_splits)

interpretation pool: buffer_recycler acquire release available pool_capacity pool_ok
proof unfold_locales
  fix p :: PacketBufferPool
  assume ok: "pool_ok p"
  then show "available p \<le> pool_capacity p" by (simp add: pool_ok_def available_def)
  fix n b p'
  assume "acquire n p = (b, p')"
  with acquire_spec [OF ok this]
  show "pool_ok p' \<and> buf_bytes b = [] \<and> n \<le> buf_capacity b \<and> pool_capacity p' = pool_capacity p \<and>
      available p' = available p - 1" by blast
next
  fix p b b' p'
  assume "pool_ok p" "buf_ok b" "release b p = (b', p')"
  then show "pool_ok p' \<and> buf_ok b' \<and> pool_capacity p' = pool_capacity p \<and>
      available p' = min (pool_capacity p) (available p + 1)" using release_spec by blast
qed

section \<open>Relay statistics\<close>

record RelayStats =
  rs_relay_iterations :: u64
  rs_outbound_packets :: u64
  rs_outbound_bytes :: u64
  rs_inbound_packets :: u64
  rs_inbound_bytes :: u64
  rs_seal_errors :: u64
  rs_open_errors :: u64
  rs_transport_errors :: u64

definition new_relay_stats :: RelayStats where
  "new_relay_stats =
     \<lparr>rs_relay_iterations = 0, rs_outbound_packets = 0, rs_outbound_bytes = 0,
      rs_inbound_packets = 0, rs_inbound_bytes = 0, rs_seal_errors = 0,
      rs_open_errors = 0, rs_transport_errors = 0\<rparr>"

definition reset_relay_stats :: "RelayStats \<Rightarrow> RelayStats" where
  "reset_relay_stats r =
     r\<lparr>rs_relay_iterations := 0, rs_outbound_packets := 0, rs_outbound_bytes := 0,
       rs_inbound_packets := 0, rs_inbound_bytes := 0, rs_seal_errors := 0,
       rs_open_errors := 0, rs_transport_errors := 0\<rparr>"

lemma reset_relay_stats_eq [simp]: "reset_relay_stats r = new_relay_stats"
  by (cases r) (simp add: reset_relay_stats_def new_relay_stats_def)

section \<open>Properties\<close>

text \<open>
  C31. The pool hands out usable buffers and stays bounded: over any sequence of requests and
  returns on a new pool, every buffer handed out is empty and has at least the requested
  capacity, and the pool never stores more buffers than its capacity.
\<close>

theorem pool_buffers_usable_and_bounded:
  assumes "\<forall>b. Inr b \<in> set ops \<longrightarrow> buf_ok b"
    and "recycle acquire release ops (new_pool cap dflt) = (out, pool')"
  shows "available pool' \<le> (if 0 < cap then cap else 16) \<and>
         (\<forall>(n, b) \<in> set out. buf_bytes b = [] \<and> n \<le> buf_capacity b)"
proof -
  from pool.recycle_ok [OF new_pool_ok _ assms(2)] assms(1)
  have "available pool' \<le> pool_capacity (new_pool cap dflt) \<and>
    (\<forall>(n, b) \<in> set out. buf_bytes b = [] \<and> n \<le> buf_capacity b)" by blast
  then show ?thesis by (simp add: new_pool_def)
qed

theorem pool_buffers_usable_and_bounded_witness:
  "\<exists>out pool'. recycle acquire release [Inr \<lparr>buf_bytes = [1], buf_capacity = 4\<rparr>, Inr empty_buffer, Inl 3000]
       (new_pool 1 16) = (out, pool') \<and>
     available pool' \<le> 1 \<and> (\<forall>(n, b) \<in> set out. buf_bytes b = [] \<and> n \<le> buf_capacity b)"
proof -
  let ?ops = "[Inr \<lparr>buf_bytes = [1], buf_capacity = 4\<rparr>, Inr empty_buffer, Inl 3000]"
  obtain out pool' where r: "recycle acquire release ?ops (new_pool 1 16) = (out, pool')" by fastforce
  have "\<forall>b. Inr b \<in> set ?ops \<longrightarrow> buf_ok b" by (auto simp: buf_ok_def empty_buffer_def)
  from pool_buffers_usable_and_bounded [OF this r] r show ?thesis by auto
qed

end
