(* ===== verification/Engine.thy ===== *)
theory Engine
  imports Session Inner_Session Config Buffer_Pool "HOL-Library.Sublist"
begin

text \<open>
  The tunnel engine of \<^verbatim>\<open>src/tunnel_engine.cpp\<close> and the two interface classes of
  \<^verbatim>\<open>include/tunnel/tunnel_engine.hpp\<close>. An object behind a \<open>VirtualInterface\<close> or \<open>SecureTransport\<close>
  pointer is its table of virtual functions; the state of the objects, the operating system
  and the network live in a world of type \<open>'w\<close> that every call threads.
\<close>

section \<open>Interfaces\<close>

text \<open>\<open>vi_apply_client_routing\<close> gives the error it reports, \<open>None\<close> when it returns true; \<open>vi_destroy\<close> and
  \<open>st_destroy\<close> are the virtual destructors.\<close>

record 'w VirtualInterface =
  vi_open :: "u16 \<Rightarrow> 'w \<Rightarrow> bool \<times> 'w"
  vi_read_packet :: "'w \<Rightarrow> bytes \<times> 'w"
  vi_write_packet :: "bytes \<Rightarrow> 'w \<Rightarrow> bool \<times> 'w"
  vi_close :: "'w \<Rightarrow> 'w"
  vi_apply_client_routing :: "TunnelConfig \<Rightarrow> 'w \<Rightarrow> net_error option \<times> 'w"
  vi_clear_client_routing :: "'w \<Rightarrow> 'w"
  vi_destroy :: "'w \<Rightarrow> 'w"

text \<open>
  \<open>st_reset_for_next_client\<close> is the method the engine reaches by \<open>dynamic_cast\<close>: it is present
  only when the object is a \<open>QuicSecureTransport\<close> (and the build has MsQuic).
\<close>

record 'w SecureTransport =
  st_connect :: "TunnelConfig \<Rightarrow> 'w \<Rightarrow> bool \<times> 'w"
  st_perform_handshake :: "'w \<Rightarrow> bool \<times> 'w"
  st_open_data_channel :: "'w \<Rightarrow> bool \<times> 'w"
  st_send_payload :: "bytes \<Rightarrow> 'w \<Rightarrow> bool \<times> 'w"
  st_try_receive_payload :: "'w \<Rightarrow> bytes option \<times> 'w"
  st_close :: "'w \<Rightarrow> 'w"
  st_reset_for_next_client :: "('w \<Rightarrow> 'w) option"
  st_destroy :: "'w \<Rightarrow> 'w"

text \<open>The routing methods an implementation inherits when it does not override them.\<close>

definition base_apply_client_routing :: "platform \<Rightarrow> TunnelConfig \<Rightarrow> 'w \<Rightarrow> net_error option \<times> 'w" where
  "base_apply_client_routing plat config w =
     (if plat = Windows \<and> (tc_client_routing_mode config = Route_Global \<or> tc_enable_global_default_route config)
      then (Some Global_Route_Unsupported, w)
      else if plat = Windows \<and> tc_client_routing_mode config = Route_Smart
      then (Some Smart_Route_Unsupported, w)
      else (None, w))"

definition base_clear_client_routing :: "'w \<Rightarrow> 'w" where
  "base_clear_client_routing w = w"

definition base_open_data_channel :: "'w \<Rightarrow> bool \<times> 'w" where
  "base_open_data_channel w = (True, w)"

section \<open>The engine\<close>

text \<open>
  What the engine uses beside its two objects: the platform, the IPv4 parser behind
  \<open>is_valid\<close>, BCrypt, the steady clock in milliseconds, sleeping, and the signals. The
  client's console handler calls \<open>request_data_plane_stop\<close>, the server's signal handler
  calls \<open>stop\<close>; a signal is delivered where the data plane reads the stop flag.
\<close>

datatype signal = No_Signal | Signal_Request_Stop | Signal_Stop

record 'w engine_env =
  env_platform :: platform
  env_net :: "'w net_api"
  env_bcrypt :: bcrypt_api
  env_now :: "'w \<Rightarrow> nat \<times> 'w"
  env_sleep :: "nat \<Rightarrow> 'w \<Rightarrow> 'w"
  env_signal :: "'w \<Rightarrow> signal \<times> 'w"

text \<open>
  The members of \<open>TunnelEngine\<close>; a null pointer is \<open>None\<close>. \<open>te_null_call\<close> is not a member: it
  records a call through a null pointer, which the code does not exclude in one place.
\<close>

record 'w TunnelEngine =
  te_config :: TunnelConfig
  te_session :: Session
  te_interface :: "'w VirtualInterface option"
  te_transport :: "'w SecureTransport option"
  te_inner :: "inner_session option"
  te_pool :: PacketBufferPool
  te_stats :: RelayStats
  te_scratch_sealed :: buffer
  te_scratch_opened :: buffer
  te_stop_requested :: bool
  te_null_call :: bool

definition new_engine ::
  "TunnelConfig \<Rightarrow> 'w VirtualInterface option \<Rightarrow> 'w SecureTransport option \<Rightarrow> inner_session option \<Rightarrow>
   'w TunnelEngine" where
  "new_engine config vi st inner =
     \<lparr>te_config = config, te_session = new_session, te_interface = vi, te_transport = st, te_inner = inner,
      te_pool = new_pool (dp_buffer_pool_capacity (tc_data_plane config))
                         (dp_buffer_default_capacity (tc_data_plane config)),
      te_stats = new_relay_stats, te_scratch_sealed = empty_buffer, te_scratch_opened = empty_buffer,
      te_stop_requested = False, te_null_call = False\<rparr>"

definition engine_state :: "'w TunnelEngine \<Rightarrow> SessionState" where
  "engine_state e = sess_state (te_session e)"

definition engine_transition :: "SessionState \<Rightarrow> 'w TunnelEngine \<Rightarrow> bool \<times> 'w TunnelEngine" where
  "engine_transition nxt e =
     (case transition_to nxt (te_session e) of (ok, s) \<Rightarrow> (ok, e\<lparr>te_session := s\<rparr>))"

text \<open>\<open>session_.transition_to(SessionState::failed); return false;\<close>\<close>

definition engine_fail :: "'w TunnelEngine \<Rightarrow> 'w \<Rightarrow> bool \<times> 'w TunnelEngine \<times> 'w" where
  "engine_fail e w = (False, snd (engine_transition Failed e), w)"

subsection \<open>start\<close>

text \<open>The inner session, created on first use; \<open>None\<close> when the factory fails.\<close>

definition start_inner :: "'w engine_env \<Rightarrow> 'w TunnelEngine \<Rightarrow> 'w TunnelEngine option" where
  "start_inner env e =
     (case te_inner e of
        Some _ \<Rightarrow> Some e
      | None \<Rightarrow>
          (case create_inner_session (env_platform env) (env_bcrypt env) (tc_inner (te_config e)) of
             None \<Rightarrow> None
           | Some s \<Rightarrow> Some (e\<lparr>te_inner := Some s\<rparr>)))"

definition start_buffers :: "'w TunnelEngine \<Rightarrow> 'w TunnelEngine" where
  "start_buffers e =
     (case acquire 0 (te_pool e) of (b1, pool1) \<Rightarrow>
        (case acquire 0 pool1 of (b2, pool2) \<Rightarrow>
           e\<lparr>te_stats := reset_relay_stats (te_stats e), te_scratch_sealed := b1,
             te_scratch_opened := b2, te_pool := pool2\<rparr>))"

definition inner_ready :: "'w TunnelEngine \<Rightarrow> bool" where
  "inner_ready e = (case te_inner e of None \<Rightarrow> False | Some s \<Rightarrow> inner_is_ready s)"

definition start_server ::
  "'w SecureTransport \<Rightarrow> 'w TunnelEngine \<Rightarrow> 'w \<Rightarrow> bool \<times> 'w TunnelEngine \<times> 'w" where
  "start_server st e w =
     (case st_perform_handshake st w of (ok, w1) \<Rightarrow>
        if \<not> ok then engine_fail e w1
        else if \<not> inner_ready e then engine_fail e w1
        else (True, e\<lparr>te_stop_requested := False\<rparr>, w1))"

definition start_client ::
  "'w VirtualInterface \<Rightarrow> 'w SecureTransport \<Rightarrow> 'w TunnelEngine \<Rightarrow> 'w \<Rightarrow> bool \<times> 'w TunnelEngine \<times> 'w" where
  "start_client vi st e w =
     (case st_perform_handshake st w of (ok, w1) \<Rightarrow>
        if \<not> ok then engine_fail e w1
        else
          (case st_open_data_channel st w1 of (ok, w2) \<Rightarrow>
             if \<not> ok then engine_fail e w2
             else if \<not> inner_ready e then engine_fail e w2
             else
               (case vi_apply_client_routing vi (te_config e) w2 of (err, w3) \<Rightarrow>
                  if err \<noteq> None then engine_fail e w3
                  else
                    (case engine_transition Established (e\<lparr>te_stop_requested := False\<rparr>) of
                       (ok, e') \<Rightarrow> (ok, e', w3)))))"

definition start_connected ::
  "'w VirtualInterface \<Rightarrow> 'w SecureTransport \<Rightarrow> 'w TunnelEngine \<Rightarrow> 'w \<Rightarrow> bool \<times> 'w TunnelEngine \<times> 'w" where
  "start_connected vi st e w =
     (case engine_transition Handshaking e of (ok, e1) \<Rightarrow>
        if \<not> ok then (False, e1, w)
        else if tc_role (te_config e1) = Server then start_server st e1 w
        else start_client vi st e1 w)"

definition start_connect ::
  "'w VirtualInterface \<Rightarrow> 'w SecureTransport \<Rightarrow> 'w TunnelEngine \<Rightarrow> 'w \<Rightarrow> bool \<times> 'w TunnelEngine \<times> 'w" where
  "start_connect vi st e w =
     (case engine_transition Connecting e of (ok, e1) \<Rightarrow>
        if \<not> ok then (False, e1, w)
        else
          (case vi_open vi (tc_mtu (te_config e1)) w of (ok, w1) \<Rightarrow>
             if \<not> ok then engine_fail e1 w1
             else
               (case st_connect st (te_config e1) w1 of (ok, w2) \<Rightarrow>
                  if \<not> ok then engine_fail e1 w2 else start_connected vi st e1 w2)))"

definition start :: "'w engine_env \<Rightarrow> 'w TunnelEngine \<Rightarrow> 'w \<Rightarrow> bool \<times> 'w TunnelEngine \<times> 'w" where
  "start env e w =
     (if is_valid (env_platform env) (env_net env) (te_config e) \<noteq> None then (False, e, w)
      else
        (case (te_interface e, te_transport e) of
           (Some vi, Some st) \<Rightarrow>
             (case start_inner env e of
                None \<Rightarrow> (False, e, w)
              | Some e1 \<Rightarrow> start_connect vi st (start_buffers e1) w)
         | _ \<Rightarrow> (False, e, w)))"

subsection \<open>The data plane\<close>

definition ensure_session_ready :: "'w TunnelEngine \<Rightarrow> 'w \<Rightarrow> bool \<times> 'w TunnelEngine \<times> 'w" where
  "ensure_session_ready e w =
     (if can_send_data (te_session e) then (True, e, w)
      else if tc_role (te_config e) \<noteq> Server \<or> engine_state e \<noteq> Handshaking then (False, e, w)
      else
        (case (te_transport e, te_inner e) of
           (Some st, Some _) \<Rightarrow>
             (case st_open_data_channel st w of (ok, w1) \<Rightarrow>
                if \<not> ok then (False, e, w1)
                else
                  (case te_interface e of
                     None \<Rightarrow> (False, e\<lparr>te_null_call := True\<rparr>, w1)
                   | Some vi \<Rightarrow>
                       (case vi_apply_client_routing vi (te_config e) w1 of (err, w2) \<Rightarrow>
                          if err \<noteq> None then engine_fail e w2
                          else (case engine_transition Established e of (ok, e') \<Rightarrow> (ok, e', w2)))))
         | _ \<Rightarrow> (False, e, w)))"

definition forward_outbound :: "'w engine_env \<Rightarrow> 'w TunnelEngine \<Rightarrow> 'w \<Rightarrow> bool \<times> 'w TunnelEngine \<times> 'w" where
  "forward_outbound env e w =
     (if \<not> can_send_data (te_session e) then (False, e, w)
      else
        (case (te_interface e, te_transport e, te_inner e) of
           (Some vi, Some st, Some inner) \<Rightarrow>
             (case vi_read_packet vi w of (packet, w1) \<Rightarrow>
                if packet = [] then (True, e, w1)
                else
                  (let scratch = buf_clear (te_scratch_sealed e) in
                   case inner_seal (env_bcrypt env) packet inner of
                     (None, inner') \<Rightarrow>
                       (False,
                        e\<lparr>te_inner := Some inner', te_scratch_sealed := scratch,
                          te_stats := (te_stats e)\<lparr>rs_seal_errors := rs_seal_errors (te_stats e) + 1\<rparr>\<rparr>,
                        w1)
                   | (Some sealed, inner') \<Rightarrow>
                       (let e1 = e\<lparr>te_inner := Some inner', te_scratch_sealed := buf_assign sealed scratch\<rparr> in
                        case st_send_payload st sealed w1 of (ok, w2) \<Rightarrow>
                          if \<not> ok
                          then (False,
                                e1\<lparr>te_stats := (te_stats e1)\<lparr>rs_transport_errors :=
                                     rs_transport_errors (te_stats e1) + 1\<rparr>\<rparr>,
                                w2)
                          else (True,
                                e1\<lparr>te_stats := (te_stats e1)
                                     \<lparr>rs_outbound_packets := rs_outbound_packets (te_stats e1) + 1,
                                      rs_outbound_bytes :=
                                        rs_outbound_bytes (te_stats e1) + of_nat (length packet)\<rparr>\<rparr>,
                                w2))))
         | _ \<Rightarrow> (False, e, w)))"

text \<open>
  The loop of \<open>forward_inbound_batch\<close>, with the number of iterations left and the packets
  processed so far. The guard before it makes the inner session non-null.
\<close>

fun inbound_loop ::
  "'w engine_env \<Rightarrow> 'w VirtualInterface \<Rightarrow> 'w SecureTransport \<Rightarrow> nat \<Rightarrow> nat \<Rightarrow> inner_session \<Rightarrow>
   'w TunnelEngine \<Rightarrow> 'w \<Rightarrow> nat \<times> 'w TunnelEngine \<times> 'w" where
  "inbound_loop env vi st 0 processed inner e w = (processed, e\<lparr>te_inner := Some inner\<rparr>, w)"
| "inbound_loop env vi st (Suc n) processed inner e w =
     (case st_try_receive_payload st w of
        (None, w1) \<Rightarrow> (processed, e\<lparr>te_inner := Some inner\<rparr>, w1)
      | (Some received, w1) \<Rightarrow>
          if received = [] then (processed, e\<lparr>te_inner := Some inner\<rparr>, w1)
          else
            (let scratch = buf_clear (te_scratch_opened e);
                 open_error = (\<lambda>b inner'. e\<lparr>te_inner := Some inner', te_scratch_opened := b,
                   te_stats := (te_stats e)\<lparr>rs_open_errors := rs_open_errors (te_stats e) + 1\<rparr>\<rparr>)
             in case inner_open (env_bcrypt env) received inner of
                  (None, inner') \<Rightarrow> (processed, open_error scratch inner', w1)
                | (Some opened, inner') \<Rightarrow>
                    (let b = buf_assign opened scratch in
                     if opened = [] then (processed, open_error b inner', w1)
                     else
                       (case vi_write_packet vi opened w1 of (ok, w2) \<Rightarrow>
                          if \<not> ok
                          then (processed,
                                e\<lparr>te_inner := Some inner', te_scratch_opened := b,
                                  te_stats := (te_stats e)\<lparr>rs_transport_errors :=
                                    rs_transport_errors (te_stats e) + 1\<rparr>\<rparr>,
                                w2)
                          else
                            inbound_loop env vi st n (processed + 1) inner'
                              (e\<lparr>te_scratch_opened := b,
                                 te_stats := (te_stats e)
                                   \<lparr>rs_inbound_packets := rs_inbound_packets (te_stats e) + 1,
                                    rs_inbound_bytes :=
                                      rs_inbound_bytes (te_stats e) + of_nat (length opened)\<rparr>\<rparr>)
                              w2))))"

definition forward_inbound_batch ::
  "'w engine_env \<Rightarrow> nat \<Rightarrow> 'w TunnelEngine \<Rightarrow> 'w \<Rightarrow> nat \<times> 'w TunnelEngine \<times> 'w" where
  "forward_inbound_batch env max_packets e w =
     (if \<not> can_send_data (te_session e) then (0, e, w)
      else
        (case (te_interface e, te_transport e, te_inner e) of
           (Some vi, Some st, Some inner) \<Rightarrow> inbound_loop env vi st max_packets 0 inner e w
         | _ \<Rightarrow> (0, e, w)))"

text \<open>\<open>relay_batch\<close> once the session is established.\<close>

definition relay_established ::
  "'w engine_env \<Rightarrow> nat \<Rightarrow> 'w TunnelEngine \<Rightarrow> 'w \<Rightarrow> bool \<times> 'w TunnelEngine \<times> 'w" where
  "relay_established env batch_size e w =
     (let e1 = e\<lparr>te_stats := (te_stats e)\<lparr>rs_relay_iterations := rs_relay_iterations (te_stats e) + 1\<rparr>\<rparr> in
      case forward_outbound env e1 w of (ok, e2, w2) \<Rightarrow>
        if \<not> ok then (False, e2, w2)
        else
          (case forward_inbound_batch env (if 0 < batch_size then batch_size else 1) e2 w2 of
             (_, e3, w3) \<Rightarrow> (True, e3, w3)))"

definition relay_batch ::
  "'w engine_env \<Rightarrow> nat \<Rightarrow> 'w TunnelEngine \<Rightarrow> 'w \<Rightarrow> bool \<times> 'w TunnelEngine \<times> 'w" where
  "relay_batch env batch_size e w =
     (if \<not> can_send_data (te_session e)
      then
        if tc_role (te_config e) = Server \<and> engine_state e = Handshaking
        then
          (case ensure_session_ready e w of (_, e1, w1) \<Rightarrow>
             if \<not> can_send_data (te_session e1) then (True, e1, w1)
             else relay_established env batch_size e1 w1)
        else (False, e, w)
      else relay_established env batch_size e w)"

definition relay_once :: "'w engine_env \<Rightarrow> 'w TunnelEngine \<Rightarrow> 'w \<Rightarrow> bool \<times> 'w TunnelEngine \<times> 'w" where
  "relay_once env = relay_batch env 1"

subsection \<open>Stopping and resetting\<close>

definition request_data_plane_stop :: "'w TunnelEngine \<Rightarrow> 'w TunnelEngine" where
  "request_data_plane_stop e = e\<lparr>te_stop_requested := True\<rparr>"

definition reset_server_session :: "'w TunnelEngine \<Rightarrow> 'w \<Rightarrow> 'w TunnelEngine \<times> 'w" where
  "reset_server_session e w =
     (if tc_role (te_config e) \<noteq> Server then (e, w)
      else
        (let w1 = (case te_transport e of
                     None \<Rightarrow> w
                   | Some st \<Rightarrow> (case st_reset_for_next_client st of None \<Rightarrow> w | Some r \<Rightarrow> r w))
         in (e\<lparr>te_session := snd (reset_to_handshaking (te_session e))\<rparr>, w1)))"

definition stop :: "'w TunnelEngine \<Rightarrow> 'w \<Rightarrow> 'w TunnelEngine \<times> 'w" where
  "stop e w =
     (let e1 = e\<lparr>te_stop_requested := True\<rparr>;
          e2 = (if engine_state e1 = Established then snd (engine_transition Closing e1) else e1);
          w1 = (case te_interface e2 of None \<Rightarrow> w | Some vi \<Rightarrow> vi_clear_client_routing vi w);
          w2 = (case te_transport e2 of None \<Rightarrow> w1 | Some st \<Rightarrow> st_close st w1);
          w3 = (case te_interface e2 of None \<Rightarrow> w2 | Some vi \<Rightarrow> vi_close vi w2);
          (b1, pool1) = release (te_scratch_sealed e2) (te_pool e2);
          (b2, pool2) = release (te_scratch_opened e2) pool1;
          e3 = e2\<lparr>te_scratch_sealed := b1, te_scratch_opened := b2, te_pool := pool2\<rparr>;
          e4 = (if engine_state e3 = Closing \<or> engine_state e3 = Failed
                then snd (engine_transition Stopped e3) else e3)
      in (e4, w3))"

text \<open>
  The implicit destructor: the members are destroyed in the reverse order of their declaration,
  so the transport before the interface; the others have no effect outside the engine.
\<close>

definition destroy_engine :: "'w TunnelEngine \<Rightarrow> 'w \<Rightarrow> 'w" where
  "destroy_engine e w =
     (let w1 = (case te_transport e of None \<Rightarrow> w | Some st \<Rightarrow> st_destroy st w)
      in case te_interface e of None \<Rightarrow> w1 | Some vi \<Rightarrow> vi_destroy vi w1)"

subsection \<open>The data-plane loop\<close>

text \<open>A read of the stop flag, where a signal handler may have run.\<close>

definition poll_signal :: "'w engine_env \<Rightarrow> 'w TunnelEngine \<Rightarrow> 'w \<Rightarrow> 'w TunnelEngine \<times> 'w" where
  "poll_signal env e w =
     (case env_signal env w of
        (No_Signal, w1) \<Rightarrow> (e, w1)
      | (Signal_Request_Stop, w1) \<Rightarrow> (request_data_plane_stop e, w1)
      | (Signal_Stop, w1) \<Rightarrow> stop e w1)"

datatype loop_control = Continue | Break

definition idle_sleep :: "'w engine_env \<Rightarrow> 'w TunnelEngine \<Rightarrow> 'w \<Rightarrow> 'w" where
  "idle_sleep env e w = env_sleep env (unat (dp_idle_sleep_ms (tc_data_plane (te_config e)))) w"

text \<open>The body from \<open>relay_batch\<close> on, entered when data can be sent.\<close>

definition relay_iteration ::
  "'w engine_env \<Rightarrow> nat \<Rightarrow> 'w TunnelEngine \<Rightarrow> 'w \<Rightarrow> loop_control \<times> 'w TunnelEngine \<times> 'w" where
  "relay_iteration env batch_size e w =
     (let inbound_before = rs_inbound_packets (te_stats e);
          outbound_before = rs_outbound_packets (te_stats e)
      in case relay_batch env batch_size e w of (ok, e1, w1) \<Rightarrow>
           if \<not> ok
           then
             (case poll_signal env e1 w1 of (e2, w2) \<Rightarrow>
                if te_stop_requested e2 then (Break, e2, w2)
                else if tc_role (te_config e2) = Server \<and> engine_state e2 = Handshaking
                then (Continue, e2, idle_sleep env e2 w2)
                else if tc_role (te_config e2) = Server
                then (case reset_server_session e2 w2 of (e3, w3) \<Rightarrow> (Continue, e3, idle_sleep env e3 w3))
                else (Break, snd (engine_transition Failed e2), w2))
           else if \<not> can_send_data (te_session e1) then (Continue, e1, w1)
           else if rs_inbound_packets (te_stats e1) = inbound_before \<and>
                   rs_outbound_packets (te_stats e1) = outbound_before
           then (Continue, e1, idle_sleep env e1 w1)
           else (Continue, e1, w1))"

definition data_plane_iteration ::
  "'w engine_env \<Rightarrow> nat \<Rightarrow> 'w TunnelEngine \<Rightarrow> 'w \<Rightarrow> loop_control \<times> 'w TunnelEngine \<times> 'w" where
  "data_plane_iteration env batch_size e w =
     (if can_send_data (te_session e) then relay_iteration env batch_size e w
      else
        (let waiting = tc_role (te_config e) = Server \<and> engine_state e = Handshaking in
         case (if waiting then ensure_session_ready e w else (True, e, w)) of (ready, e1, w1) \<Rightarrow>
           if waiting \<and> \<not> ready then (Continue, e1, idle_sleep env e1 w1)
           else if \<not> can_send_data (te_session e1)
           then
             (if tc_role (te_config e1) = Server
              then
                (case poll_signal env e1 w1 of (e2, w2) \<Rightarrow>
                   if te_stop_requested e2 then (Break, e2, w2)
                   else (case reset_server_session e2 w2 of (e3, w3) \<Rightarrow> (Continue, e3, idle_sleep env e3 w3)))
              else (Break, e1, w1))
           else relay_iteration env batch_size e1 w1))"

partial_function (option) data_plane_loop ::
  "'w engine_env \<Rightarrow> nat \<Rightarrow> nat \<Rightarrow> 'w TunnelEngine \<Rightarrow> 'w \<Rightarrow> ('w TunnelEngine \<times> 'w) option" where
  "data_plane_loop env deadline batch_size e w =
     (case poll_signal env e w of (e1, w1) \<Rightarrow>
        if te_stop_requested e1 then Some (e1, w1)
        else
          (case env_now env w1 of (now, w2) \<Rightarrow>
             if deadline \<le> now then Some (e1, w2)
             else
               (case data_plane_iteration env batch_size e1 w2 of (control, e2, w3) \<Rightarrow>
                  case control of
                    Break \<Rightarrow> Some (e2, w3)
                  | Continue \<Rightarrow> data_plane_loop env deadline batch_size e2 w3)))"

definition run_data_plane_for ::
  "'w engine_env \<Rightarrow> nat \<Rightarrow> 'w TunnelEngine \<Rightarrow> 'w \<Rightarrow> ('w TunnelEngine \<times> 'w) option" where
  "run_data_plane_for env duration e w =
     (case env_now env w of (now, w1) \<Rightarrow>
        let batch_size = (if 0 < dp_batch_size (tc_data_plane (te_config e))
                          then dp_batch_size (tc_data_plane (te_config e)) else 1)
        in data_plane_loop env (now + duration) batch_size e w1)"

section \<open>Lemmas\<close>

lemma engine_transition_frame [simp]:
  "te_config (snd (engine_transition nxt e)) = te_config e"
  "te_interface (snd (engine_transition nxt e)) = te_interface e"
  "te_transport (snd (engine_transition nxt e)) = te_transport e"
  "te_inner (snd (engine_transition nxt e)) = te_inner e"
  "te_stats (snd (engine_transition nxt e)) = te_stats e"
  "te_stop_requested (snd (engine_transition nxt e)) = te_stop_requested e"
  by (simp_all add: engine_transition_def split: prod.splits)

lemma engine_transition_cases:
  assumes "engine_transition nxt e = (ok, e')"
  obtains (granted) "ok" and "engine_state e' = nxt" and "lifecycle_edge (engine_state e) nxt"
      and "e' = e\<lparr>te_session := te_session e'\<rparr>"
  | (rejected) "\<not> ok" and "e' = e" and "\<not> lifecycle_edge (engine_state e) nxt"
  using assms
  by (auto simp: engine_transition_def engine_state_def transition_to_eq split: if_splits)

lemma stop_engine:
  assumes "stop e w = (e', w')"
  shows "te_config e' = te_config e" and "te_interface e' = te_interface e" and "te_transport e' = te_transport e"
    and "te_inner e' = te_inner e" and "te_stats e' = te_stats e" and "te_stop_requested e'"
    and "engine_state e' = (if engine_state e \<in> {Established, Closing, Failed} then Stopped else engine_state e)"
  using assms
  by (auto simp: stop_def Let_def engine_transition_def engine_state_def transition_to_eq split: prod.splits if_splits)

lemma stop_world:
  "snd (stop e w) =
     (case te_interface e of None \<Rightarrow> id | Some vi \<Rightarrow> vi_close vi)
       ((case te_transport e of None \<Rightarrow> id | Some st \<Rightarrow> st_close st)
         ((case te_interface e of None \<Rightarrow> id | Some vi \<Rightarrow> vi_clear_client_routing vi) w))"
  by (simp add: stop_def Let_def split: prod.splits option.splits)

end
