(* ===== verification/Engine_Trace.thy ===== *)
theory Engine_Trace
  imports Engine
begin

text \<open>
  The order of the calls the engine makes. The engine's two objects are wrapped so that the
  world records every call with its outcome; a phase automaton says which call sequences
  are allowed; every state the engine can reach, whatever its users call and whatever the
  objects answer, has an allowed record.
\<close>

section \<open>Recorded calls\<close>

datatype call =
    Vi_Open bool | Vi_Read | Vi_Write | Vi_Close | Vi_Route bool | Vi_Unroute
  | St_Connect bool | St_Handshake bool | St_Channel bool | St_Send bool | St_Receive | St_Close | St_Reset

definition log_interface :: "'w VirtualInterface \<Rightarrow> (call list \<times> 'w) VirtualInterface" where
  "log_interface vi =
     \<lparr>vi_open = (\<lambda>mtu (l, w). case vi_open vi mtu w of (r, w') \<Rightarrow> (r, (l @ [Vi_Open r], w'))),
      vi_read_packet = (\<lambda>(l, w). case vi_read_packet vi w of (r, w') \<Rightarrow> (r, (l @ [Vi_Read], w'))),
      vi_write_packet = (\<lambda>p (l, w). case vi_write_packet vi p w of (r, w') \<Rightarrow> (r, (l @ [Vi_Write], w'))),
      vi_close = (\<lambda>(l, w). (l @ [Vi_Close], vi_close vi w)),
      vi_apply_client_routing = (\<lambda>c (l, w).
        case vi_apply_client_routing vi c w of (r, w') \<Rightarrow> (r, (l @ [Vi_Route (r = None)], w'))),
      vi_clear_client_routing = (\<lambda>(l, w). (l @ [Vi_Unroute], vi_clear_client_routing vi w)),
      vi_destroy = (\<lambda>(l, w). (l, vi_destroy vi w))\<rparr>"

definition log_transport :: "'w SecureTransport \<Rightarrow> (call list \<times> 'w) SecureTransport" where
  "log_transport st =
     \<lparr>st_connect = (\<lambda>c (l, w). case st_connect st c w of (r, w') \<Rightarrow> (r, (l @ [St_Connect r], w'))),
      st_perform_handshake = (\<lambda>(l, w).
        case st_perform_handshake st w of (r, w') \<Rightarrow> (r, (l @ [St_Handshake r], w'))),
      st_open_data_channel = (\<lambda>(l, w).
        case st_open_data_channel st w of (r, w') \<Rightarrow> (r, (l @ [St_Channel r], w'))),
      st_send_payload = (\<lambda>p (l, w). case st_send_payload st p w of (r, w') \<Rightarrow> (r, (l @ [St_Send r], w'))),
      st_try_receive_payload = (\<lambda>(l, w).
        case st_try_receive_payload st w of (r, w') \<Rightarrow> (r, (l @ [St_Receive], w'))),
      st_close = (\<lambda>(l, w). (l @ [St_Close], st_close st w)),
      st_reset_for_next_client =
        map_option (\<lambda>f (l, w). (l @ [St_Reset], f w)) (st_reset_for_next_client st),
      st_destroy = (\<lambda>(l, w). (l, st_destroy st w))\<rparr>"

section \<open>The phases\<close>

record phase =
  ph_handshaken :: bool
  ph_channel :: bool

definition data_phase :: "Role \<Rightarrow> phase \<Rightarrow> bool" where
  "data_phase role ph \<longleftrightarrow> ph_channel ph \<and> (role = Client \<longrightarrow> ph_handshaken ph)"

text \<open>Packets move and routes are set only while the channel is open; \<open>None\<close> is a violation.\<close>

fun phase_step :: "Role \<Rightarrow> phase \<Rightarrow> call \<Rightarrow> phase option" where
  "phase_step role ph (St_Connect r) = Some \<lparr>ph_handshaken = False, ph_channel = False\<rparr>"
| "phase_step role ph (St_Handshake r) = Some (ph\<lparr>ph_handshaken := r\<rparr>)"
| "phase_step role ph (St_Channel r) = Some (ph\<lparr>ph_channel := r\<rparr>)"
| "phase_step role ph St_Reset = Some (ph\<lparr>ph_channel := False\<rparr>)"
| "phase_step role ph St_Close = Some \<lparr>ph_handshaken = False, ph_channel = False\<rparr>"
| "phase_step role ph Vi_Read = (if data_phase role ph then Some ph else None)"
| "phase_step role ph Vi_Write = (if data_phase role ph then Some ph else None)"
| "phase_step role ph (St_Send r) = (if data_phase role ph then Some ph else None)"
| "phase_step role ph St_Receive = (if data_phase role ph then Some ph else None)"
| "phase_step role ph (Vi_Route r) = (if data_phase role ph then Some ph else None)"
| "phase_step role ph (Vi_Open r) = Some ph"
| "phase_step role ph Vi_Close = Some ph"
| "phase_step role ph Vi_Unroute = Some ph"

definition phase_run :: "Role \<Rightarrow> call list \<Rightarrow> phase option" where
  "phase_run role calls =
     foldl (\<lambda>ph c. Option.bind ph (\<lambda>ph. phase_step role ph c))
       (Some \<lparr>ph_handshaken = False, ph_channel = False\<rparr>) calls"

lemma phase_run_Nil [simp]: "phase_run role [] = Some \<lparr>ph_handshaken = False, ph_channel = False\<rparr>"
  by (simp add: phase_run_def)

lemma phase_run_snoc [simp]:
  "phase_run role (calls @ [c]) = Option.bind (phase_run role calls) (\<lambda>ph. phase_step role ph c)"
  by (simp add: phase_run_def)

section \<open>Steps\<close>

text \<open>
  One step of an engine: a public operation, or inside \<open>run_data_plane_for\<close> a reading of the
  clock, a delivered signal, or one iteration of the loop.
\<close>

inductive engine_step :: "'w engine_env \<Rightarrow> 'w TunnelEngine \<times> 'w \<Rightarrow> 'w TunnelEngine \<times> 'w \<Rightarrow> bool" for env where
  step_start: "start env e w = (ok, e', w') \<Longrightarrow> engine_step env (e, w) (e', w')"
| step_relay: "relay_batch env n e w = (ok, e', w') \<Longrightarrow> engine_step env (e, w) (e', w')"
| step_reset: "reset_server_session e w = (e', w') \<Longrightarrow> engine_step env (e, w) (e', w')"
| step_request_stop: "engine_step env (e, w) (request_data_plane_stop e, w)"
| step_stop: "stop e w = (e', w') \<Longrightarrow> engine_step env (e, w) (e', w')"
| step_clock: "env_now env w = (t, w') \<Longrightarrow> engine_step env (e, w) (e, w')"
| step_signal: "poll_signal env e w = (e', w') \<Longrightarrow> engine_step env (e, w) (e', w')"
| step_iteration: "data_plane_iteration env n e w = (control, e', w') \<Longrightarrow> engine_step env (e, w) (e', w')"

abbreviation engine_reaches where
  "engine_reaches env \<equiv> (engine_step env)\<^sup>*\<^sup>*"

text \<open>What \<open>run_data_plane_for\<close> returns is reached by steps.\<close>

lemma data_plane_loop_reaches:
  assumes "data_plane_loop env deadline n e w = Some r"
  shows "engine_reaches env (e, w) r"
proof (rule data_plane_loop.raw_induct [where P = "\<lambda>env _ _ e w r. engine_reaches env (e, w) r", OF _ assms])
  fix loop env deadline n e w r
  assume ih: "\<And>env deadline n e w r. loop env deadline n e w = Some r \<Longrightarrow> engine_reaches env (e, w) r"
    and body: "(case poll_signal env e w of (e1, w1) \<Rightarrow>
        if te_stop_requested e1 then Some (e1, w1)
        else (case env_now env w1 of (now, w2) \<Rightarrow>
             if deadline \<le> now then Some (e1, w2)
             else (case data_plane_iteration env n e1 w2 of (control, e2, w3) \<Rightarrow>
                  case control of Continue \<Rightarrow> loop env deadline n e2 w3 | Break \<Rightarrow> Some (e2, w3)))) = Some r"
  obtain e1 w1 where p: "poll_signal env e w = (e1, w1)" by fastforce
  obtain t w2 where t: "env_now env w1 = (t, w2)" by fastforce
  obtain c e2 w3 where i: "data_plane_iteration env n e1 w2 = (c, e2, w3)" by (metis prod_cases3)
  have s1: "engine_reaches env (e, w) (e1, w1)" using step_signal [OF p] by blast
  have s2: "engine_reaches env (e, w) (e1, w2)"
    using s1 step_clock [OF t] by (rule rtranclp.rtrancl_into_rtrancl)
  have s3: "engine_reaches env (e, w) (e2, w3)"
    using s2 step_iteration [OF i] by (rule rtranclp.rtrancl_into_rtrancl)
  have "r = (e1, w1) \<or> r = (e1, w2) \<or> r = (e2, w3) \<or> loop env deadline n e2 w3 = Some r"
    using body p t i by (auto split: if_splits loop_control.splits)
  then show "engine_reaches env (e, w) r"
    using s1 s2 s3 ih rtranclp_trans [OF s3] by blast
qed

section \<open>The invariant\<close>

text \<open>
  The record has no violation, and an established session is in the data phase. The clock,
  sleeping and the delivery of a signal are assumed not to call the engine's objects.
\<close>

definition env_quiet :: "(call list \<times> 'w) engine_env \<Rightarrow> bool" where
  "env_quiet env \<longleftrightarrow>
     (\<forall>w. fst (snd (env_now env w)) = fst w) \<and> (\<forall>n w. fst (env_sleep env n w) = fst w) \<and>
     (\<forall>w. fst (snd (env_signal env w)) = fst w)"

definition trace_inv ::
  "TunnelConfig \<Rightarrow> 'w VirtualInterface \<Rightarrow> 'w SecureTransport \<Rightarrow>
   (call list \<times> 'w) TunnelEngine \<Rightarrow> call list \<times> 'w \<Rightarrow> bool" where
  "trace_inv config vi st e w \<longleftrightarrow>
     te_config e = config \<and> te_interface e = Some (log_interface vi) \<and>
     te_transport e = Some (log_transport st) \<and>
     (\<exists>ph. phase_run (tc_role config) (fst w) = Some ph \<and>
        (engine_state e = Established \<longrightarrow> data_phase (tc_role config) ph))"

text \<open>The recorded form of each call.\<close>

lemma log_interface_calls [simp]:
  "vi_open (log_interface vi) mtu w = (let r = vi_open vi mtu (snd w) in (fst r, fst w @ [Vi_Open (fst r)], snd r))"
  "vi_read_packet (log_interface vi) w = (let r = vi_read_packet vi (snd w) in (fst r, fst w @ [Vi_Read], snd r))"
  "vi_write_packet (log_interface vi) p w =
     (let r = vi_write_packet vi p (snd w) in (fst r, fst w @ [Vi_Write], snd r))"
  "vi_close (log_interface vi) w = (fst w @ [Vi_Close], vi_close vi (snd w))"
  "vi_apply_client_routing (log_interface vi) c w =
     (let r = vi_apply_client_routing vi c (snd w) in (fst r, fst w @ [Vi_Route (fst r = None)], snd r))"
  "vi_clear_client_routing (log_interface vi) w = (fst w @ [Vi_Unroute], vi_clear_client_routing vi (snd w))"
  "vi_destroy (log_interface vi) w = (fst w, vi_destroy vi (snd w))"
  by (simp_all add: log_interface_def split: prod.splits)

lemma log_transport_calls [simp]:
  "st_connect (log_transport st) c w = (let r = st_connect st c (snd w) in (fst r, fst w @ [St_Connect (fst r)], snd r))"
  "st_perform_handshake (log_transport st) w =
     (let r = st_perform_handshake st (snd w) in (fst r, fst w @ [St_Handshake (fst r)], snd r))"
  "st_open_data_channel (log_transport st) w =
     (let r = st_open_data_channel st (snd w) in (fst r, fst w @ [St_Channel (fst r)], snd r))"
  "st_send_payload (log_transport st) p w =
     (let r = st_send_payload st p (snd w) in (fst r, fst w @ [St_Send (fst r)], snd r))"
  "st_try_receive_payload (log_transport st) w =
     (let r = st_try_receive_payload st (snd w) in (fst r, fst w @ [St_Receive], snd r))"
  "st_close (log_transport st) w = (fst w @ [St_Close], st_close st (snd w))"
  "st_reset_for_next_client (log_transport st) =
     map_option (\<lambda>f (l, w). (l @ [St_Reset], f w)) (st_reset_for_next_client st)"
  "st_destroy (log_transport st) w = (fst w, st_destroy st (snd w))"
  by (simp_all add: log_transport_def split: prod.splits)

text \<open>Two engines with the same configuration, objects and session.\<close>

definition engine_same :: "'w TunnelEngine \<Rightarrow> 'w TunnelEngine \<Rightarrow> bool" where
  "engine_same e e' \<longleftrightarrow>
     te_config e' = te_config e \<and> te_interface e' = te_interface e \<and>
     te_transport e' = te_transport e \<and> te_session e' = te_session e"

lemma inv_same: "trace_inv config vi st e w \<Longrightarrow> engine_same e e' \<Longrightarrow> trace_inv config vi st e' w"
  by (simp add: trace_inv_def engine_same_def engine_state_def)

lemma inv_world: "trace_inv config vi st e w \<Longrightarrow> fst w' = fst w \<Longrightarrow> trace_inv config vi st e w'"
  by (simp add: trace_inv_def)

lemma inv_transition:
  assumes "trace_inv config vi st e w" and "engine_transition nxt e = (ok, e')" and "nxt \<noteq> Established"
  shows "trace_inv config vi st e' w"
  using assms(2)
proof (cases rule: engine_transition_cases)
  case granted
  have "te_config e' = te_config e" "te_interface e' = te_interface e" "te_transport e' = te_transport e"
    using arg_cong [OF granted(4), of te_config] arg_cong [OF granted(4), of te_interface]
      arg_cong [OF granted(4), of te_transport] by simp_all
  with granted(2) assms show ?thesis by (auto simp: trace_inv_def)
next
  case rejected
  with assms show ?thesis by simp
qed

lemma inv_fail:
  assumes "trace_inv config vi st e w" and "engine_fail e w = (ok, e', w')"
  shows "trace_inv config vi st e' w'"
proof -
  have "engine_transition Failed e = (fst (engine_transition Failed e), e')" and "w' = w"
    using assms(2) by (auto simp: engine_fail_def)
  with inv_transition [OF assms(1) this(1)] show ?thesis by simp
qed

text \<open>A call that is not a packet or routing call, made outside the established state.\<close>

lemma inv_control_call:
  assumes "trace_inv config vi st e w" and "engine_state e \<noteq> Established"
    and "\<And>ph. phase_step (tc_role config) ph c \<noteq> None"
  shows "trace_inv config vi st e (fst w @ [c], x)"
proof -
  from assms(1) obtain ph where "phase_run (tc_role config) (fst w) = Some ph" by (auto simp: trace_inv_def)
  with assms show ?thesis by (auto simp: trace_inv_def)
qed

text \<open>A packet call in the established state.\<close>

lemma inv_data_call:
  assumes "trace_inv config vi st e w" and "engine_state e = Established"
    and "c \<in> {Vi_Read, Vi_Write, St_Send r, St_Receive}"
  shows "trace_inv config vi st e (fst w @ [c], x)"
  using assms by (auto simp: trace_inv_def)

section \<open>Preservation\<close>

lemma inv_objects:
  "trace_inv config vi st e w \<Longrightarrow> te_interface e = Some (log_interface vi)"
  "trace_inv config vi st e w \<Longrightarrow> te_transport e = Some (log_transport st)"
  "trace_inv config vi st e w \<Longrightarrow> te_config e = config"
  by (simp_all add: trace_inv_def)

lemma inv_forward_outbound:
  assumes inv: "trace_inv config vi st e w" and run: "forward_outbound env e w = (ok, e', w')"
  shows "trace_inv config vi st e' w' \<and> engine_same e e'"
proof (cases "engine_state e = Established \<and> te_inner e \<noteq> None")
  case False
  with run inv show ?thesis
    by (auto simp: forward_outbound_def engine_state_def engine_same_def split: option.splits if_splits)
next
  case True
  then obtain inner where est: "engine_state e = Established" and inner: "te_inner e = Some inner" by blast
  note obj = inv_objects [OF inv]
  let ?w1 = "(fst w @ [Vi_Read], snd (vi_read_packet vi (snd w)))"
  have r: "trace_inv config vi st e ?w1" by (rule inv_data_call [OF inv est]) simp
  have snt: "trace_inv config vi st e (fst ?w1 @ [St_Send b], x)" for b x
    by (rule inv_data_call [OF r est]) simp
  have same: "engine_same e e'"
    using run est inner obj
    by (auto simp: forward_outbound_def engine_state_def engine_same_def Let_def
        split: prod.splits option.splits if_splits)
  have "w' = ?w1 \<or> (\<exists>b x. w' = (fst ?w1 @ [St_Send b], x))"
    using run est inner obj
    by (auto simp: forward_outbound_def engine_state_def Let_def split: prod.splits option.splits if_splits)
  then have "trace_inv config vi st e w'" using r snt by blast
  with same show ?thesis using inv_same by blast
qed

lemma inv_inbound_loop:
  assumes "trace_inv config vi st e w" and "engine_state e = Established"
    and "inbound_loop env (log_interface vi) (log_transport st) n k inner e w = (m, e', w')"
  shows "trace_inv config vi st e' w' \<and> engine_same e e'"
  using assms
proof (induction n arbitrary: k inner e w)
  case 0
  then have "engine_same e e'" "w' = w" by (auto simp: engine_same_def)
  with 0(1) inv_same show ?case by blast
next
  case (Suc n)
  let ?r = "st_try_receive_payload st (snd w)"
  let ?w1 = "(fst w @ [St_Receive], snd ?r)"
  have r: "trace_inv config vi st e ?w1" by (rule inv_data_call [OF Suc.prems(1,2)]) simp
  have wr: "trace_inv config vi st e (fst ?w1 @ [Vi_Write], x)" for x
    by (rule inv_data_call [OF r Suc.prems(2)]) simp
  consider (leave) "engine_same e e'" "w' = ?w1 \<or> (\<exists>x. w' = (fst ?w1 @ [Vi_Write], x))"
    | (again) e1 x inner' where "engine_same e e1"
        "inbound_loop env (log_interface vi) (log_transport st) n (k + 1) inner' e1 (fst ?w1 @ [Vi_Write], x) = (m, e', w')"
  proof (cases "\<exists>received opened inner'. fst ?r = Some received \<and> received \<noteq> [] \<and>
      inner_open (env_bcrypt env) received inner = (Some opened, inner') \<and> opened \<noteq> []")
    case False
    then have "engine_same e e' \<and> w' = ?w1"
      using Suc.prems(3) by (auto simp: Let_def engine_same_def split: prod.splits option.splits if_splits)
    with leave show ?thesis by blast
  next
    case True
    then obtain received opened inner' where o: "fst ?r = Some received" "received \<noteq> []"
      "inner_open (env_bcrypt env) received inner = (Some opened, inner')" "opened \<noteq> []" by blast
    show ?thesis
    proof (cases "fst (vi_write_packet vi opened (snd ?r))")
      case False
      then have "engine_same e e' \<and> w' = (fst ?w1 @ [Vi_Write], snd (vi_write_packet vi opened (snd ?r)))"
        using Suc.prems(3) o by (auto simp: Let_def engine_same_def)
      with leave show ?thesis by blast
    next
      case True
      show ?thesis
        by (rule again [of _ "inner'" "snd (vi_write_packet vi opened (snd ?r))"])
          (use Suc.prems(3) o True in \<open>simp_all add: Let_def\<close>, simp add: engine_same_def)
    qed
  qed
  then show ?case
  proof cases
    case leave
    with r wr inv_same show ?thesis by blast
  next
    case (again e1 x inner')
    have "trace_inv config vi st e1 (fst ?w1 @ [Vi_Write], x)" using wr inv_same again(1) by blast
    moreover have "engine_state e1 = Established"
      using again(1) Suc.prems(2) by (simp add: engine_same_def engine_state_def)
    ultimately have "trace_inv config vi st e' w' \<and> engine_same e1 e'" using Suc.IH again(2) by blast
    with again(1) show ?thesis by (simp add: engine_same_def)
  qed
qed

lemma inv_forward_inbound:
  assumes inv: "trace_inv config vi st e w" and run: "forward_inbound_batch env n e w = (m, e', w')"
  shows "trace_inv config vi st e' w' \<and> engine_same e e'"
proof (cases "engine_state e = Established \<and> te_inner e \<noteq> None")
  case False
  with run inv show ?thesis
    by (auto simp: forward_inbound_batch_def engine_state_def engine_same_def split: option.splits if_splits)
next
  case True
  then obtain inner where est: "engine_state e = Established" and inner: "te_inner e = Some inner" by blast
  have "inbound_loop env (log_interface vi) (log_transport st) n 0 inner e w = (m, e', w')"
    using run est inner inv_objects [OF inv] by (simp add: forward_inbound_batch_def engine_state_def)
  from inv_inbound_loop [OF inv est this] show ?thesis .
qed

lemma inv_relay_established:
  assumes inv: "trace_inv config vi st e w" and run: "relay_established env n e w = (ok, e', w')"
  shows "trace_inv config vi st e' w' \<and> engine_same e e'"
proof -
  let ?e1 = "e\<lparr>te_stats := (te_stats e)\<lparr>rs_relay_iterations := rs_relay_iterations (te_stats e) + 1\<rparr>\<rparr>"
  have same: "engine_same e ?e1" by (simp add: engine_same_def)
  obtain ok2 e2 w2 where o: "forward_outbound env ?e1 w = (ok2, e2, w2)" by (metis prod_cases3)
  note out = inv_forward_outbound [OF inv_same [OF inv same] o]
  obtain m e3 w3 where i: "forward_inbound_batch env (if 0 < n then n else 1) e2 w2 = (m, e3, w3)" by (metis prod_cases3)
  from out inv_forward_inbound [OF _ i] have inb: "trace_inv config vi st e3 w3 \<and> engine_same e2 e3" by blast
  have "(e', w') = (e2, w2) \<or> (e', w') = (e3, w3)"
    using run o i by (simp add: relay_established_def Let_def split: if_splits)
  with out inb same show ?thesis by (auto simp: engine_same_def)
qed

lemma inv_establish:
  assumes inv: "trace_inv config vi st e w" and data: "phase_run (tc_role config) (fst w) = Some ph" "data_phase (tc_role config) ph"
    and run: "engine_transition Established e = (ok, e')"
  shows "trace_inv config vi st e' w"
  using run
proof (cases rule: engine_transition_cases)
  case granted
  have "te_config e' = te_config e" "te_interface e' = te_interface e" "te_transport e' = te_transport e"
    using arg_cong [OF granted(4), of te_config] arg_cong [OF granted(4), of te_interface]
      arg_cong [OF granted(4), of te_transport] by simp_all
  with inv data show ?thesis by (auto simp: trace_inv_def)
next
  case rejected
  with inv show ?thesis by simp
qed

text \<open>The routes are set and the session is established once the record is in the data phase.\<close>

lemma inv_route_and_establish:
  assumes inv: "trace_inv config vi st e w"
    and data: "phase_run (tc_role config) (fst w) = Some ph" "data_phase (tc_role config) ph"
    and same: "engine_same e e1"
    and run: "(case vi_apply_client_routing (log_interface vi) config w of (err, w1) \<Rightarrow>
        if err \<noteq> None then engine_fail e w1
        else (case engine_transition Established e1 of (ok, e') \<Rightarrow> (ok, e', w1))) = (ok, e', w')"
  shows "trace_inv config vi st e' w'"
proof -
  let ?r = "vi_apply_client_routing vi config (snd w)"
  let ?w1 = "(fst w @ [Vi_Route (fst ?r = None)], snd ?r)"
  have ph: "phase_run (tc_role config) (fst ?w1) = Some ph" using data by simp
  have routed: "trace_inv config vi st e ?w1" using inv ph data(2) by (simp add: trace_inv_def)
  show ?thesis
  proof (cases "fst ?r = None")
    case False
    with run have "engine_fail e ?w1 = (ok, e', w')" by (auto simp: Let_def)
    with inv_fail [OF routed] show ?thesis by blast
  next
    case True
    with run have "engine_transition Established e1 = (ok, e')" "w' = ?w1"
      by (simp_all add: Let_def split: prod.splits)
    with inv_establish [OF inv_same [OF routed same] ph data(2)] show ?thesis by simp
  qed
qed

lemma inv_ensure_session_ready:
  assumes inv: "trace_inv config vi st e w" and run: "ensure_session_ready e w = (ok, e', w')"
  shows "trace_inv config vi st e' w'"
proof (cases "engine_state e = Handshaking \<and> tc_role config = Server \<and> te_inner e \<noteq> None")
  case False
  with run inv inv_objects [OF inv] show ?thesis
    by (auto simp: ensure_session_ready_def engine_state_def split: option.splits if_splits)
next
  case True
  note obj = inv_objects [OF inv]
  let ?r = "st_open_data_channel st (snd w)"
  let ?w1 = "(fst w @ [St_Channel (fst ?r)], snd ?r)"
  have ch: "trace_inv config vi st e ?w1" by (rule inv_control_call [OF inv]) (use True in simp_all)
  show ?thesis
  proof (cases "fst ?r")
    case False
    with run True obj have "e' = e" "w' = ?w1"
      by (auto simp: ensure_session_ready_def engine_state_def Let_def)
    with ch show ?thesis by simp
  next
    case ok: True
    from ch obtain ph where ph: "phase_run (tc_role config) (fst ?w1) = Some ph" by (auto simp: trace_inv_def)
    from ph ok have "ph_channel ph" by (auto simp: bind_eq_Some_conv)
    with True have data: "data_phase (tc_role config) ph" by (simp add: data_phase_def)
    have "(case vi_apply_client_routing (log_interface vi) config ?w1 of (err, w1) \<Rightarrow>
        if err \<noteq> None then engine_fail e w1
        else (case engine_transition Established e of (ok, e') \<Rightarrow> (ok, e', w1))) = (ok, e', w')"
      using run True obj ok by (auto simp: ensure_session_ready_def engine_state_def Let_def)
    moreover have "engine_same e e" by (simp add: engine_same_def)
    ultimately show ?thesis using inv_route_and_establish [OF ch ph data] by blast
  qed
qed

lemma inv_relay_batch:
  assumes inv: "trace_inv config vi st e w" and run: "relay_batch env n e w = (ok, e', w')"
  shows "trace_inv config vi st e' w'"
proof -
  obtain ok1 e1 w1 where r: "ensure_session_ready e w = (ok1, e1, w1)" by (metis prod_cases3)
  have "(e', w') = (e, w) \<or> (e', w') = (e1, w1) \<or> relay_established env n e1 w1 = (ok, e', w') \<or>
      relay_established env n e w = (ok, e', w')"
    using run r by (auto simp: relay_batch_def split: if_splits)
  then show ?thesis
    using inv inv_ensure_session_ready [OF inv r] inv_relay_established by blast
qed

lemma inv_reset:
  assumes inv: "trace_inv config vi st e w" and run: "reset_server_session e w = (e', w')"
  shows "trace_inv config vi st e' w'"
proof (cases "tc_role config = Server")
  case False
  with run inv inv_objects [OF inv] show ?thesis by (auto simp: reset_server_session_def)
next
  case True
  from inv obtain ph where ph: "phase_run (tc_role config) (fst w) = Some ph" by (auto simp: trace_inv_def)
  have "e' = e\<lparr>te_session := (te_session e)\<lparr>sess_state := Handshaking\<rparr>\<rparr>"
    "w' = w \<or> (\<exists>x. w' = (fst w @ [St_Reset], x))"
    using run True inv_objects [OF inv]
    by (auto simp: reset_server_session_def reset_to_handshaking_eq Let_def split: option.splits prod.splits)
  with inv ph show ?thesis by (auto simp: trace_inv_def engine_state_def)
qed

lemma inv_stop:
  assumes inv: "trace_inv config vi st e w" and run: "stop e w = (e', w')"
  shows "trace_inv config vi st e' w'"
proof -
  from inv obtain ph where ph: "phase_run (tc_role config) (fst w) = Some ph" by (auto simp: trace_inv_def)
  have "fst w' = ((fst w @ [Vi_Unroute]) @ [St_Close]) @ [Vi_Close]"
    using stop_world [of e w] run inv_objects [OF inv] by simp
  then have "phase_run (tc_role config) (fst w') = Some \<lparr>ph_handshaken = False, ph_channel = False\<rparr>"
    using ph by (simp only: phase_run_snoc) simp
  moreover have "engine_state e' \<noteq> Established" using stop_engine(7) [OF run] by (auto split: if_splits)
  ultimately show ?thesis using stop_engine(1-3) [OF run] inv_objects [OF inv] by (simp add: trace_inv_def)
qed

lemma inv_poll:
  assumes inv: "trace_inv config vi st e w" and quiet: "env_quiet env" and run: "poll_signal env e w = (e', w')"
  shows "trace_inv config vi st e' w'"
proof -
  obtain sig w1 where s: "env_signal env w = (sig, w1)" by (meson surj_pair)
  have "fst w1 = fst w" using quiet s unfolding env_quiet_def by (metis snd_conv)
  with inv have inv1: "trace_inv config vi st e w1" by (rule inv_world)
  show ?thesis
  proof (cases sig)
    case No_Signal
    with run s inv1 show ?thesis by (simp add: poll_signal_def)
  next
    case Signal_Request_Stop
    moreover have "engine_same e (request_data_plane_stop e)"
      by (simp add: request_data_plane_stop_def engine_same_def)
    ultimately show ?thesis using run s inv_same [OF inv1] by (auto simp: poll_signal_def)
  next
    case Signal_Stop
    with run s inv_stop [OF inv1] show ?thesis by (auto simp: poll_signal_def)
  qed
qed

lemma inv_sleep:
  "trace_inv config vi st e w \<Longrightarrow> env_quiet env \<Longrightarrow> trace_inv config vi st e (idle_sleep env e' w)"
  unfolding idle_sleep_def env_quiet_def by (rule inv_world) blast+

lemma inv_reset_sleep:
  assumes "trace_inv config vi st e w" and "env_quiet env"
    and "(case reset_server_session e w of (e3, w3) \<Rightarrow> (Continue, e3, idle_sleep env e3 w3)) = (c, e', w')"
  shows "trace_inv config vi st e' w'"
proof -
  obtain e3 w3 where r: "reset_server_session e w = (e3, w3)" by (meson surj_pair)
  with inv_sleep [OF inv_reset [OF assms(1) r] assms(2)] assms(3) show ?thesis by auto
qed

lemma inv_relay_iteration:
  assumes inv: "trace_inv config vi st e w" and quiet: "env_quiet env"
    and run: "relay_iteration env n e w = (c, e', w')"
  shows "trace_inv config vi st e' w'"
proof -
  obtain ok e1 w1 where r: "relay_batch env n e w = (ok, e1, w1)" by (metis prod_cases3)
  note inv1 = inv_relay_batch [OF inv r]
  obtain e2 w2 where p: "poll_signal env e1 w1 = (e2, w2)" by (meson surj_pair)
  note inv2 = inv_poll [OF inv1 quiet p]
  obtain ok3 e3 where f: "engine_transition Failed e2 = (ok3, e3)" by fastforce
  have "(e', w') \<in> {(e1, w1), (e1, idle_sleep env e1 w1), (e2, w2), (e2, idle_sleep env e2 w2), (e3, w2)} \<or>
      (case reset_server_session e2 w2 of (e3, w3) \<Rightarrow> (Continue, e3, idle_sleep env e3 w3)) = (c, e', w')"
    using run r p f by (auto simp: relay_iteration_def Let_def split: if_splits)
  with inv1 inv2 inv_sleep [OF inv1 quiet] inv_sleep [OF inv2 quiet] inv_transition [OF inv2 f]
    inv_reset_sleep [OF inv2 quiet, of c e' w'] show ?thesis by auto
qed

lemma inv_data_plane_iteration:
  assumes inv: "trace_inv config vi st e w" and quiet: "env_quiet env"
    and run: "data_plane_iteration env n e w = (c, e', w')"
  shows "trace_inv config vi st e' w'"
proof -
  obtain ok e1 w1 where r: "ensure_session_ready e w = (ok, e1, w1)" by (metis prod_cases3)
  note inv1 = inv_ensure_session_ready [OF inv r]
  have after: "trace_inv config vi st e' w'"
    if i: "trace_inv config vi st e0 w0"
      and "(case poll_signal env e0 w0 of (e2, w2) \<Rightarrow>
             if te_stop_requested e2 then (Break, e2, w2)
             else (case reset_server_session e2 w2 of (e3, w3) \<Rightarrow> (Continue, e3, idle_sleep env e3 w3))) = (c, e', w')"
    for e0 w0
  proof -
    obtain e2 w2 where p: "poll_signal env e0 w0 = (e2, w2)" by (meson surj_pair)
    note inv2 = inv_poll [OF i quiet p]
    show ?thesis
      using that(2) p inv2 inv_reset_sleep [OF inv2 quiet, of c e' w'] by (auto split: if_splits)
  qed
  have "(e', w') \<in> {(e, w), (e1, w1), (e1, idle_sleep env e1 w1)} \<or>
      relay_iteration env n e w = (c, e', w') \<or> relay_iteration env n e1 w1 = (c, e', w') \<or>
      (\<exists>(e0, w0) \<in> {(e, w), (e1, w1)}. (case poll_signal env e0 w0 of (e2, w2) \<Rightarrow>
             if te_stop_requested e2 then (Break, e2, w2)
             else (case reset_server_session e2 w2 of (e3, w3) \<Rightarrow> (Continue, e3, idle_sleep env e3 w3))) = (c, e', w'))"
    using run r by (simp add: data_plane_iteration_def Let_def split: if_splits) auto
  with inv inv1 inv_sleep [OF inv1 quiet] inv_relay_iteration [OF inv quiet, of n c e' w'] inv_relay_iteration [OF inv1 quiet, of n c e' w']
    after [OF inv] after [OF inv1] show ?thesis by auto
qed

lemma inv_start_server:
  assumes inv: "trace_inv config vi st e w" and state: "engine_state e \<noteq> Established"
    and run: "start_server (log_transport st) e w = (ok, e', w')"
  shows "trace_inv config vi st e' w'"
proof -
  let ?r = "st_perform_handshake st (snd w)"
  let ?w1 = "(fst w @ [St_Handshake (fst ?r)], snd ?r)"
  have inv1: "trace_inv config vi st e ?w1" by (rule inv_control_call [OF inv state]) simp
  have "engine_fail e ?w1 = (ok, e', w') \<or> (e' = e\<lparr>te_stop_requested := False\<rparr> \<and> w' = ?w1)"
    using run by (auto simp: start_server_def Let_def split: if_splits)
  then show ?thesis
  proof
    assume "engine_fail e ?w1 = (ok, e', w')"
    with inv_fail [OF inv1] show ?thesis by blast
  next
    assume "e' = e\<lparr>te_stop_requested := False\<rparr> \<and> w' = ?w1"
    with inv_same [OF inv1] show ?thesis by (simp add: engine_same_def)
  qed
qed

lemma inv_start_client:
  assumes inv: "trace_inv config vi st e w" and state: "engine_state e \<noteq> Established"
    and run: "start_client (log_interface vi) (log_transport st) e w = (ok, e', w')"
  shows "trace_inv config vi st e' w'"
proof -
  let ?r = "st_perform_handshake st (snd w)"
  let ?w1 = "(fst w @ [St_Handshake (fst ?r)], snd ?r)"
  let ?s = "st_open_data_channel st (snd ?w1)"
  let ?w2 = "(fst ?w1 @ [St_Channel (fst ?s)], snd ?s)"
  have inv1: "trace_inv config vi st e ?w1" by (rule inv_control_call [OF inv state]) simp
  have inv2: "trace_inv config vi st e ?w2" by (rule inv_control_call [OF inv1 state]) simp
  from inv obtain ph where ph: "phase_run (tc_role config) (fst w) = Some ph" by (auto simp: trace_inv_def)
  show ?thesis
  proof (cases "fst ?r \<and> fst ?s \<and> inner_ready e")
    case False
    then have "engine_fail e ?w1 = (ok, e', w') \<or> engine_fail e ?w2 = (ok, e', w')"
      using run by (auto simp: start_client_def Let_def split: if_splits)
    with inv_fail [OF inv1] inv_fail [OF inv2] show ?thesis by blast
  next
    case True
    have ph2: "phase_run (tc_role config) (fst ?w2) = Some \<lparr>ph_handshaken = True, ph_channel = True\<rparr>"
      using True ph by (simp only: phase_run_snoc fst_conv) (cases ph, simp)
    have "(case vi_apply_client_routing (log_interface vi) config ?w2 of (err, w1) \<Rightarrow>
        if err \<noteq> None then engine_fail e w1
        else (case engine_transition Established (e\<lparr>te_stop_requested := False\<rparr>) of (ok, e') \<Rightarrow> (ok, e', w1))) = (ok, e', w')"
      using run True inv_objects(3) [OF inv] by (simp add: start_client_def Let_def)
    moreover have "engine_same e (e\<lparr>te_stop_requested := False\<rparr>)" by (simp add: engine_same_def)
    ultimately show ?thesis
      using inv_route_and_establish [OF inv2 ph2] by (simp add: data_phase_def)
  qed
qed

lemma inv_start_connect:
  assumes inv: "trace_inv config vi st e w"
    and run: "start_connect (log_interface vi) (log_transport st) e w = (ok, e', w')"
  shows "trace_inv config vi st e' w'"
proof -
  obtain ok1 e1 where t: "engine_transition Connecting e = (ok1, e1)" by fastforce
  note inv1 = inv_transition [OF inv t, simplified]
  obtain ok2 e2 where h: "engine_transition Handshaking e1 = (ok2, e2)" by fastforce
  let ?o = "vi_open vi (tc_mtu config) (snd w)"
  let ?w1 = "(fst w @ [Vi_Open (fst ?o)], snd ?o)"
  let ?c = "st_connect st config (snd ?w1)"
  let ?w2 = "(fst ?w1 @ [St_Connect (fst ?c)], snd ?c)"
  note obj = inv_objects(3) [OF inv1]
  show ?thesis
  proof (cases ok1)
    case False
    with run t inv1 show ?thesis by (simp add: start_connect_def)
  next
    case True
    with t have state: "engine_state e1 \<noteq> Established" by (auto elim!: engine_transition_cases)
    have inv2: "trace_inv config vi st e1 ?w1" by (rule inv_control_call [OF inv1 state]) simp
    have inv3: "trace_inv config vi st e1 ?w2" by (rule inv_control_call [OF inv2 state]) simp
    have inv4: "trace_inv config vi st e2 ?w2" using inv_transition [OF inv3 h] by simp
    have state2: "ok2 \<Longrightarrow> engine_state e2 \<noteq> Established" using h by (auto elim!: engine_transition_cases)
    have "engine_fail e1 ?w1 = (ok, e', w') \<or> engine_fail e1 ?w2 = (ok, e', w') \<or> (e' = e2 \<and> w' = ?w2) \<or>
      ok2 \<and> start_server (log_transport st) e2 ?w2 = (ok, e', w') \<or>
      ok2 \<and> start_client (log_interface vi) (log_transport st) e2 ?w2 = (ok, e', w')"
      using run t True h obj by (auto simp: start_connect_def start_connected_def Let_def split: if_splits)
    then show ?thesis
      using inv_fail [OF inv2] inv_fail [OF inv3] inv4 inv_start_server [OF inv4 state2] inv_start_client [OF inv4 state2]
      by blast
  qed
qed

lemma inv_start:
  assumes inv: "trace_inv config vi st e w" and run: "start env e w = (ok, e', w')"
  shows "trace_inv config vi st e' w'"
proof (cases "is_valid (env_platform env) (env_net env) config = None \<and> start_inner env e \<noteq> None")
  case False
  with run inv inv_objects [OF inv] show ?thesis by (auto simp: start_def split: option.splits if_splits)
next
  case True
  then obtain e1 where e1: "start_inner env e = Some e1" by blast
  then have "engine_same e (start_buffers e1)"
    by (auto simp: start_inner_def start_buffers_def engine_same_def split: option.splits prod.splits)
  with inv have inv1: "trace_inv config vi st (start_buffers e1) w" by (rule inv_same)
  have "start_connect (log_interface vi) (log_transport st) (start_buffers e1) w = (ok, e', w')"
    using run True e1 inv_objects [OF inv] by (simp add: start_def)
  with inv_start_connect [OF inv1] show ?thesis by blast
qed

lemma inv_step:
  assumes "engine_step env s s'" and "env_quiet env" and "trace_inv config vi st (fst s) (snd s)"
  shows "trace_inv config vi st (fst s') (snd s')"
  using assms(1)
proof cases
  case (step_start e w ok e' w')
  with assms(3) inv_start show ?thesis by (metis fst_conv snd_conv)
next
  case (step_relay n e w ok e' w')
  with assms(3) inv_relay_batch show ?thesis by (metis fst_conv snd_conv)
next
  case (step_reset e w e' w')
  with assms(3) inv_reset show ?thesis by (metis fst_conv snd_conv)
next
  case (step_request_stop e w)
  have "engine_same e (request_data_plane_stop e)" by (simp add: request_data_plane_stop_def engine_same_def)
  with step_request_stop assms(3) inv_same show ?thesis by (metis fst_conv snd_conv)
next
  case (step_stop e w e' w')
  with assms(3) inv_stop show ?thesis by (metis fst_conv snd_conv)
next
  case (step_clock w t w' e)
  have "fst w' = fst w" using assms(2) step_clock(3) unfolding env_quiet_def by (metis snd_conv)
  with step_clock assms(3) inv_world show ?thesis by (metis fst_conv snd_conv)
next
  case (step_signal e w e' w')
  with assms(2,3) inv_poll show ?thesis by (metis fst_conv snd_conv)
next
  case (step_iteration n e w control e' w')
  with assms(2,3) inv_data_plane_iteration show ?thesis by (metis fst_conv snd_conv)
qed

lemma inv_reaches:
  "engine_reaches env s s' \<Longrightarrow> env_quiet env \<Longrightarrow> trace_inv config vi st (fst s) (snd s) \<Longrightarrow>
     trace_inv config vi st (fst s') (snd s')"
  by (induction rule: rtranclp_induct) (auto intro: inv_step)

lemma inv_new_engine:
  "trace_inv config vi st (new_engine config (Some (log_interface vi)) (Some (log_transport st)) inner) ([], w)"
  by (simp add: trace_inv_def new_engine_def engine_state_def new_session_def)

section \<open>What the phases mean\<close>

text \<open>\<open>c\<close> occurs, and nothing of \<open>ends\<close> after it.\<close>

definition in_force :: "call \<Rightarrow> call set \<Rightarrow> call list \<Rightarrow> bool" where
  "in_force c ends calls \<longleftrightarrow> (\<exists>a b. calls = a @ c # b \<and> set b \<inter> ends = {})"

lemma in_force_snoc: "in_force c ends (calls @ [d]) \<longleftrightarrow> d = c \<or> (in_force c ends calls \<and> d \<notin> ends)"
proof
  assume "in_force c ends (calls @ [d])"
  then obtain a b where ab: "calls @ [d] = a @ c # b" "set b \<inter> ends = {}" by (auto simp: in_force_def)
  then show "d = c \<or> (in_force c ends calls \<and> d \<notin> ends)"
    by (cases b rule: rev_cases) (auto simp: in_force_def)
next
  assume "d = c \<or> (in_force c ends calls \<and> d \<notin> ends)"
  then show "in_force c ends (calls @ [d])"
  proof
    assume "d = c"
    then show ?thesis unfolding in_force_def by (intro exI [of _ calls] exI [of _ "[]"]) simp
  next
    assume "in_force c ends calls \<and> d \<notin> ends"
    then obtain a b where "calls = a @ c # b" "set b \<inter> ends = {}" "d \<notin> ends" by (auto simp: in_force_def)
    then have "calls @ [d] = a @ c # (b @ [d]) \<and> set (b @ [d]) \<inter> ends = {}" by simp
    then show ?thesis unfolding in_force_def by blast
  qed
qed

abbreviation channel_ends :: "call set" where
  "channel_ends \<equiv> {St_Close, St_Reset, St_Connect True, St_Connect False, St_Channel False}"

abbreviation handshake_ends :: "call set" where
  "handshake_ends \<equiv> {St_Close, St_Connect True, St_Connect False, St_Handshake False}"

lemma phase_meaning:
  "phase_run role calls = Some ph \<Longrightarrow>
     (ph_channel ph \<longrightarrow> in_force (St_Channel True) channel_ends calls) \<and>
     (ph_handshaken ph \<longrightarrow> in_force (St_Handshake True) handshake_ends calls)"
proof (induction calls arbitrary: ph rule: rev_induct)
  case Nil
  then show ?case by auto
next
  case (snoc c calls)
  then obtain ph0 where ph0: "phase_run role calls = Some ph0" "phase_step role ph0 c = Some ph"
    by (auto simp: bind_eq_Some_conv)
  note ih = snoc.IH [OF ph0(1)]
  from ph0(2) ih show ?case
    by (cases c) (auto simp: in_force_snoc split: if_splits)
qed

lemma phase_run_prefix:
  "phase_run role (pre @ post) \<noteq> None \<Longrightarrow> phase_run role pre \<noteq> None"
  by (induction post rule: rev_induct) (auto simp: bind_eq_Some_conv simp flip: append_assoc)

definition data_calls :: "call set" where
  "data_calls = {Vi_Read, Vi_Write, St_Receive, St_Send True, St_Send False, Vi_Route True, Vi_Route False}"

lemma phase_run_data_call:
  assumes "phase_run role (pre @ c # post) \<noteq> None" and "c \<in> data_calls"
  shows "\<exists>ph. phase_run role pre = Some ph \<and> data_phase role ph"
proof -
  have "phase_run role (pre @ [c]) \<noteq> None"
    using phase_run_prefix [of role "pre @ [c]" post] assms(1) by simp
  then obtain ph where "phase_run role pre = Some ph" "phase_step role ph c \<noteq> None"
    by (cases "phase_run role pre") auto
  with assms(2) show ?thesis by (auto simp: data_calls_def split: if_splits)
qed

section \<open>Concrete objects\<close>

text \<open>
  An interface and a transport on which every call succeeds and nothing ever arrives, and
  an environment whose clock advances by one at each reading. The world is that clock.
\<close>

definition accepting_interface :: "nat VirtualInterface" where
  "accepting_interface =
     \<lparr>vi_open = (\<lambda>_ w. (True, w)), vi_read_packet = (\<lambda>w. ([], w)), vi_write_packet = (\<lambda>_ w. (True, w)),
      vi_close = (\<lambda>w. w), vi_apply_client_routing = base_apply_client_routing Posix,
      vi_clear_client_routing = base_clear_client_routing, vi_destroy = (\<lambda>w. w)\<rparr>"

definition accepting_transport :: "'w SecureTransport" where
  "accepting_transport =
     \<lparr>st_connect = (\<lambda>_ w. (True, w)), st_perform_handshake = (\<lambda>w. (True, w)),
      st_open_data_channel = base_open_data_channel, st_send_payload = (\<lambda>_ w. (True, w)),
      st_try_receive_payload = (\<lambda>w. (Some [], w)), st_close = (\<lambda>w. w),
      st_reset_for_next_client = None, st_destroy = (\<lambda>w. w)\<rparr>"

definition ticking_env :: "('a \<times> nat) net_api \<Rightarrow> ('a \<times> nat) engine_env" where
  "ticking_env net =
     \<lparr>env_platform = Posix, env_net = net, env_bcrypt = identity_aead,
      env_now = (\<lambda>(l, t). (t, (l, t + 1))), env_sleep = (\<lambda>n (l, t). (l, t + n)),
      env_signal = (\<lambda>w. (No_Signal, w))\<rparr>"

definition logged_engine :: "TunnelConfig \<Rightarrow> (call list \<times> nat) TunnelEngine" where
  "logged_engine config =
     new_engine config (Some (log_interface accepting_interface)) (Some (log_transport accepting_transport)) None"

lemma ticking_env_quiet: "env_quiet (ticking_env net)"
  by (simp add: env_quiet_def ticking_env_def)

lemmas concrete_defs = logged_engine_def new_engine_def ticking_env_def accepting_interface_def
  accepting_transport_def base_apply_client_routing_def base_clear_client_routing_def base_open_data_channel_def

text \<open>Starting this engine makes exactly the calls of the protocol and succeeds.\<close>

lemma default_config_valid: "is_valid Posix net (default_config\<lparr>tc_role := r\<rparr>) = None"
  by (simp add: is_valid_def default_config_def)

lemma logged_client_start:
  "\<exists>e. start (ticking_env net) (logged_engine default_config) ([], 0) =
     (True, e, ([Vi_Open True, St_Connect True, St_Handshake True, St_Channel True, Vi_Route True], 0)) \<and>
     engine_state e = Established"
proof -
  have "is_valid Posix net default_config = None"
    using default_config_valid [of net Client] by (simp add: default_config_def)
  then show ?thesis
    by (simp add: start_def concrete_defs start_inner_def create_inner_session_def default_config_def
        start_buffers_def start_connect_def start_connected_def start_client_def engine_transition_def
        transition_to_eq new_session_def inner_ready_def engine_state_def Let_def split: prod.splits)
qed

lemma logged_server_start:
  "\<exists>e. start (ticking_env net) (logged_engine (default_config\<lparr>tc_role := Server\<rparr>)) ([], 0) =
     (True, e, ([Vi_Open True, St_Connect True, St_Handshake True], 0)) \<and> engine_state e = Handshaking"
proof -
  have "is_valid Posix net (default_config\<lparr>tc_role := Server\<rparr>) = None" by (rule default_config_valid)
  then show ?thesis
    by (simp add: start_def concrete_defs start_inner_def create_inner_session_def default_config_def
        start_buffers_def start_connect_def start_connected_def start_server_def engine_transition_def
        transition_to_eq new_session_def inner_ready_def engine_state_def Let_def split: prod.splits)
qed

section \<open>Properties\<close>

text \<open>
  C1. No packet moves and no route is set before the secure channel is up: in every state an
  engine reaches from its construction, whatever operations its users call in whatever
  order, whatever the interface and the transport answer and whenever a signal arrives,
  each packet read, packet written, payload sent or received and each routing request is
  preceded by a successful opening of the data channel that no close, reset, reconnect or
  failed opening follows, and on a client by a successful handshake likewise.
\<close>

theorem packets_only_on_secure_channel:
  assumes "env_quiet env"
    and "engine_reaches env
           (new_engine config (Some (log_interface vi)) (Some (log_transport st)) inner, ([], w)) (e, (pre @ c # post, w'))"
    and "c \<in> data_calls"
  shows "in_force (St_Channel True) channel_ends pre \<and>
         (tc_role config = Client \<longrightarrow> in_force (St_Handshake True) handshake_ends pre)"
proof -
  from inv_reaches [OF assms(2,1)] inv_new_engine
  have "trace_inv config vi st e (pre @ c # post, w')" by force
  then have "phase_run (tc_role config) (pre @ c # post) \<noteq> None" by (auto simp: trace_inv_def)
  from phase_run_data_call [OF this assms(3)] obtain ph
    where "phase_run (tc_role config) pre = Some ph" "data_phase (tc_role config) ph" by blast
  with phase_meaning [OF this(1)] show ?thesis by (auto simp: data_phase_def)
qed

theorem packets_only_on_secure_channel_witness:
  "\<forall>net. \<exists>e w'. engine_reaches (ticking_env net) (logged_engine default_config, ([], 0))
       (e, ([Vi_Open True, St_Connect True, St_Handshake True, St_Channel True] @ Vi_Route True # [], w')) \<and>
     in_force (St_Channel True) channel_ends [Vi_Open True, St_Connect True, St_Handshake True, St_Channel True]"
proof
  fix net
  obtain e where "start (ticking_env net) (logged_engine default_config) ([], 0) =
     (True, e, ([Vi_Open True, St_Connect True, St_Handshake True, St_Channel True] @ Vi_Route True # [], 0))"
    using logged_client_start [of net] by auto
  then have r: "engine_reaches (ticking_env net) (logged_engine default_config, ([], 0))
       (e, ([Vi_Open True, St_Connect True, St_Handshake True, St_Channel True] @ Vi_Route True # [], 0))"
    by (intro r_into_rtranclp step_start)
  have "Vi_Route True \<in> data_calls" by (simp add: data_calls_def)
  from packets_only_on_secure_channel [OF ticking_env_quiet r [unfolded logged_engine_def] this] r
  show "\<exists>e w'. engine_reaches (ticking_env net) (logged_engine default_config, ([], 0))
       (e, ([Vi_Open True, St_Connect True, St_Handshake True, St_Channel True] @ Vi_Route True # [], w')) \<and>
     in_force (St_Channel True) channel_ends [Vi_Open True, St_Connect True, St_Handshake True, St_Channel True]"
    by blast
qed

text \<open>
  C16. Stopping tears down in a fixed order from every state: the routes are removed first,
  while the transport still exists, then the transport is closed, then the interface; an
  established, closing or failed session ends stopped, and no further data-plane iteration
  can begin.
\<close>

theorem stop_order_and_state:
  "(case stop (e\<lparr>te_interface := Some (log_interface vi), te_transport := Some (log_transport st)\<rparr>) (calls, w) of
      (e', (calls', w')) \<Rightarrow>
        calls' = calls @ [Vi_Unroute, St_Close, Vi_Close] \<and>
        w' = vi_close vi (st_close st (vi_clear_client_routing vi w)) \<and>
        te_stop_requested e' \<and>
        engine_state e' = (if engine_state e \<in> {Established, Closing, Failed} then Stopped else engine_state e))"
proof -
  let ?e = "e\<lparr>te_interface := Some (log_interface vi), te_transport := Some (log_transport st)\<rparr>"
  obtain e' w' where s: "stop ?e (calls, w) = (e', w')" by (meson surj_pair)
  have "w' = (calls @ [Vi_Unroute, St_Close, Vi_Close], vi_close vi (st_close st (vi_clear_client_routing vi w)))"
    using stop_world [of ?e "(calls, w)"] s by simp
  moreover have "engine_state ?e = engine_state e" by (simp add: engine_state_def)
  ultimately show ?thesis using s stop_engine(6,7) [OF s] by simp
qed

text \<open>
  C33. A server that is stopped while it waits for a client cannot be started again: \<open>stop\<close>
  leaves its session in the handshaking state, from which \<open>start\<close> fails without opening the
  interface or the transport.
\<close>

theorem stopped_waiting_server_cannot_restart:
  assumes "engine_state e = Handshaking" and "stop e w = (e1, w1)"
  shows "engine_state e1 = Handshaking \<and>
         (\<exists>e2. start env e1 w2 = (False, e2, w2) \<and> engine_state e2 = Handshaking)"
proof -
  have h: "engine_state e1 = Handshaking" using stop_engine(7) [OF assms(2)] assms(1) by simp
  have keep: "engine_state (start_buffers e') = engine_state e'" for e' :: "'a TunnelEngine"
    by (simp add: start_buffers_def engine_state_def split: prod.splits)
  have "engine_state e' = Handshaking" if "start_inner env e1 = Some e'" for e'
    using that h by (auto simp: start_inner_def engine_state_def split: option.splits)
  then have "\<exists>e2. start_connect vi st (start_buffers e') w2 = (False, e2, w2) \<and> engine_state e2 = Handshaking"
    if "start_inner env e1 = Some e'" for vi st e'
    using that keep [of e']
    by (auto simp: start_connect_def engine_transition_def transition_to_eq engine_state_def)
  with h show ?thesis by (auto simp: start_def split: option.splits)
qed

theorem stopped_waiting_server_cannot_restart_witness:
  "\<forall>net. \<exists>e e1 w1. start (ticking_env net) (logged_engine (default_config\<lparr>tc_role := Server\<rparr>)) ([], 0) =
      (True, e, ([Vi_Open True, St_Connect True, St_Handshake True], 0)) \<and>
    stop e ([Vi_Open True, St_Connect True, St_Handshake True], 0) = (e1, w1) \<and>
    \<not> fst (start (ticking_env net) e1 w1)"
proof
  fix net :: "(call list \<times> nat) net_api"
  obtain e where e: "start (ticking_env net) (logged_engine (default_config\<lparr>tc_role := Server\<rparr>)) ([], 0) =
     (True, e, ([Vi_Open True, St_Connect True, St_Handshake True], 0))" and h: "engine_state e = Handshaking"
    using logged_server_start [of net] by blast
  obtain e1 w1 where s: "stop e ([Vi_Open True, St_Connect True, St_Handshake True], 0) = (e1, w1)" by (meson surj_pair)
  have "\<not> fst (start (ticking_env net) e1 w1)"
    using stopped_waiting_server_cannot_restart [OF h s, of "ticking_env net" w1] by auto
  with e s show "\<exists>e e1 w1. start (ticking_env net) (logged_engine (default_config\<lparr>tc_role := Server\<rparr>)) ([], 0) =
      (True, e, ([Vi_Open True, St_Connect True, St_Handshake True], 0)) \<and>
    stop e ([Vi_Open True, St_Connect True, St_Handshake True], 0) = (e1, w1) \<and>
    \<not> fst (start (ticking_env net) e1 w1)" by blast
qed

end
