(* ===== verification/Engine_Frame.thy ===== *)
theory Engine_Frame
  imports Engine_Trace
begin

text \<open>
  What holds of every call of an engine's interface, transport and environment holds of the
  engine: a reflexive and transitive relation between the worlds before and after each call
  relates the worlds before and after each operation, and so along every run. The instances
  are the passing of time, in \<open>Engine_Progress\<close>, the ownership of system handles, in
  \<open>Engine_Ownership\<close>, and the removal of routes, in \<open>Engine_Routes\<close>.

  Applying routes is special: an interface may only promise the relation for it on a world
  that is \<open>fresh\<close>, as it is after \<open>open\<close>, or for a configuration that is \<open>calm\<close>, as that of a
  server. The engine keeps to this.
\<close>

section \<open>Relations between worlds\<close>

definition interface_related ::
  "('w \<Rightarrow> 'w \<Rightarrow> bool) \<Rightarrow> ('w \<Rightarrow> bool) \<Rightarrow> (TunnelConfig \<Rightarrow> bool) \<Rightarrow> 'w VirtualInterface \<Rightarrow> bool" where
  "interface_related R fresh calm vi \<longleftrightarrow>
     (\<forall>m w. R w (snd (vi_open vi m w)) \<and> fresh (snd (vi_open vi m w))) \<and>
     (\<forall>w. R w (snd (vi_read_packet vi w))) \<and> (\<forall>p w. R w (snd (vi_write_packet vi p w))) \<and>
     (\<forall>w. R w (vi_close vi w)) \<and> (\<forall>w. R w (vi_clear_client_routing vi w)) \<and> (\<forall>w. R w (vi_destroy vi w)) \<and>
     (\<forall>c w. fresh w \<or> calm c \<longrightarrow> R w (snd (vi_apply_client_routing vi c w)))"

definition transport_related :: "('w \<Rightarrow> 'w \<Rightarrow> bool) \<Rightarrow> ('w \<Rightarrow> bool) \<Rightarrow> 'w SecureTransport \<Rightarrow> bool" where
  "transport_related R fresh st \<longleftrightarrow>
     (\<forall>c w. R w (snd (st_connect st c w)) \<and> (fresh w \<longrightarrow> fresh (snd (st_connect st c w)))) \<and>
     (\<forall>w. R w (snd (st_perform_handshake st w)) \<and> (fresh w \<longrightarrow> fresh (snd (st_perform_handshake st w)))) \<and>
     (\<forall>w. R w (snd (st_open_data_channel st w)) \<and> (fresh w \<longrightarrow> fresh (snd (st_open_data_channel st w)))) \<and>
     (\<forall>p w. R w (snd (st_send_payload st p w))) \<and> (\<forall>w. R w (snd (st_try_receive_payload st w))) \<and>
     (\<forall>w. R w (st_close st w)) \<and> (\<forall>w. R w (st_destroy st w)) \<and>
     (\<forall>r w. st_reset_for_next_client st = Some r \<longrightarrow> R w (r w))"

definition env_related :: "('w \<Rightarrow> 'w \<Rightarrow> bool) \<Rightarrow> 'w engine_env \<Rightarrow> bool" where
  "env_related R env \<longleftrightarrow>
     (\<forall>w. R w (snd (env_now env w))) \<and> (\<forall>n w. R w (env_sleep env n w)) \<and> (\<forall>w. R w (snd (env_signal env w)))"

lemma transport_related_mono:
  assumes "transport_related R fresh st" and "\<And>w w'. R w w' \<Longrightarrow> Q w w' \<and> (new w \<longrightarrow> new w')"
  shows "transport_related Q new st"
  using assms(1) assms(2) [THEN conjunct1] assms(2) [THEN conjunct2, rule_format] unfolding transport_related_def by blast

lemma env_related_mono:
  assumes "env_related R env" and "\<And>w w'. R w w' \<Longrightarrow> Q w w'"
  shows "env_related Q env"
  using assms by (simp add: env_related_def)

text \<open>The engine works on these objects, and on a calm configuration if it is a server.\<close>

definition engine_fits ::
  "(TunnelConfig \<Rightarrow> bool) \<Rightarrow> 'w VirtualInterface \<Rightarrow> 'w SecureTransport \<Rightarrow> 'w TunnelEngine \<Rightarrow> bool" where
  "engine_fits calm vi st e \<longleftrightarrow>
     te_interface e = Some vi \<and> te_transport e = Some st \<and> (tc_role (te_config e) = Server \<longrightarrow> calm (te_config e))"

abbreviation (input) any_config :: "TunnelConfig \<Rightarrow> bool" where "any_config \<equiv> \<lambda>_. True"
abbreviation (input) any_world :: "'w \<Rightarrow> bool" where "any_world \<equiv> \<lambda>_. True"

lemma engine_fits_update [simp]:
  "engine_fits calm vi st (e\<lparr>te_session := s\<rparr>) = engine_fits calm vi st e"
  "engine_fits calm vi st (e\<lparr>te_inner := i\<rparr>) = engine_fits calm vi st e"
  "engine_fits calm vi st (e\<lparr>te_stats := x\<rparr>) = engine_fits calm vi st e"
  "engine_fits calm vi st (e\<lparr>te_scratch_sealed := b\<rparr>) = engine_fits calm vi st e"
  "engine_fits calm vi st (e\<lparr>te_scratch_opened := b\<rparr>) = engine_fits calm vi st e"
  "engine_fits calm vi st (e\<lparr>te_stop_requested := f\<rparr>) = engine_fits calm vi st e"
  "engine_fits calm vi st (e\<lparr>te_null_call := f\<rparr>) = engine_fits calm vi st e"
  "engine_fits calm vi st (e\<lparr>te_pool := q\<rparr>) = engine_fits calm vi st e"
  by (simp_all add: engine_fits_def)

lemma engine_fits_transition [simp]: "engine_fits calm vi st (snd (engine_transition nxt e)) = engine_fits calm vi st e"
  by (simp add: engine_transition_def split: prod.splits)

lemma transition_holds: "engine_transition nxt e = (ok, e') \<Longrightarrow> engine_fits calm vi st e' = engine_fits calm vi st e"
  by (metis engine_fits_transition snd_conv)

lemma engine_fits_new [simp]:
  "engine_fits calm vi st (new_engine config (Some vi) (Some st) inner) \<longleftrightarrow> (tc_role config = Server \<longrightarrow> calm config)"
  by (simp add: engine_fits_def new_engine_def)

section \<open>The operations\<close>

locale engine_calls =
  fixes env :: "'w engine_env" and vi :: "'w VirtualInterface" and st :: "'w SecureTransport"
    and R :: "'w \<Rightarrow> 'w \<Rightarrow> bool" and fresh :: "'w \<Rightarrow> bool" and calm :: "TunnelConfig \<Rightarrow> bool"
  assumes R_refl [simp]: "R w w" and R_trans: "R u v \<Longrightarrow> R v w \<Longrightarrow> R u w"
    and interface: "interface_related R fresh calm vi"
    and transport: "transport_related R fresh st"
    and environment: "env_related R env"
begin

lemma call_related:
  "vi_read_packet vi w = (pk, w') \<Longrightarrow> R w w'"
  "vi_write_packet vi p w = (ok, w') \<Longrightarrow> R w w'"
  "vi_apply_client_routing vi c w = (er, w') \<Longrightarrow> fresh w \<or> calm c \<Longrightarrow> R w w'"
  "st_open_data_channel st w = (ok, w') \<Longrightarrow> R w w'"
  "st_send_payload st p w = (ok, w') \<Longrightarrow> R w w'"
  "st_try_receive_payload st w = (rcv, w') \<Longrightarrow> R w w'"
  "st_perform_handshake st w = (ok, w') \<Longrightarrow> R w w'"
  "st_connect st c w = (ok, w') \<Longrightarrow> R w w'"
  "vi_open vi m w = (ok, w') \<Longrightarrow> R w w'"
  using interface transport unfolding interface_related_def transport_related_def
  by (metis snd_conv)+

lemma fresh_kept:
  "vi_open vi m w = (ok, w') \<Longrightarrow> fresh w'"
  "st_connect st c w = (ok, w') \<Longrightarrow> fresh w \<Longrightarrow> fresh w'"
  "st_perform_handshake st w = (ok, w') \<Longrightarrow> fresh w \<Longrightarrow> fresh w'"
  "st_open_data_channel st w = (ok, w') \<Longrightarrow> fresh w \<Longrightarrow> fresh w'"
  using interface transport unfolding interface_related_def transport_related_def
  by (metis snd_conv)+

lemma fail_related: "engine_fail e w = (ok, e', w') \<Longrightarrow> engine_fits calm vi st e \<Longrightarrow> engine_fits calm vi st e' \<and> R w w'"
  by (auto simp: engine_fail_def)

lemma outbound_related:
  assumes "forward_outbound env e w = (ok, e', w')" and "engine_fits calm vi st e"
  shows "engine_fits calm vi st e' \<and> R w w'"
proof (cases "te_interface e = Some vi \<and> te_transport e = Some st \<and> te_inner e \<noteq> None \<and> can_send_data (te_session e)")
  case False
  with assms show ?thesis by (auto simp: forward_outbound_def engine_fits_def split: option.splits if_splits)
next
  case True
  then obtain inner where o: "te_interface e = Some vi" "te_transport e = Some st" "te_inner e = Some inner"
    "sess_state (te_session e) = Established" by auto
  obtain p w1 where r: "vi_read_packet vi w = (p, w1)" by fastforce
  obtain x inner' where s: "inner_seal (env_bcrypt env) p inner = (x, inner')" by fastforce
  have "engine_fits calm vi st e' \<and> (w' = w1 \<or> (\<exists>c b. st_send_payload st c w1 = (b, w')))"
    using assms o r s
    by (auto simp: forward_outbound_def Let_def split: if_splits option.splits prod.splits)
  with call_related(1) [OF r] call_related(5) show ?thesis by (meson R_trans)
qed

lemma inbound_related:
  "inbound_loop env vi st n k inner e w = (m, e', w') \<Longrightarrow> engine_fits calm vi st e \<Longrightarrow> engine_fits calm vi st e' \<and> R w w'"
proof (induction n arbitrary: k inner e w)
  case 0
  then show ?case by auto
next
  case (Suc n)
  obtain rcv w1 where r: "st_try_receive_payload st w = (rcv, w1)" by fastforce
  note up = call_related(6) [OF r]
  show ?case
  proof (cases "\<exists>received opened inner'. rcv = Some received \<and> received \<noteq> [] \<and>
      inner_open (env_bcrypt env) received inner = (Some opened, inner') \<and> opened \<noteq> []")
    case False
    then have "engine_fits calm vi st e' \<and> w' = w1"
      using Suc.prems r by (auto simp: Let_def split: prod.splits option.splits if_splits)
    with up show ?thesis by simp
  next
    case True
    then obtain received opened inner' where o: "rcv = Some received" "received \<noteq> []"
      "inner_open (env_bcrypt env) received inner = (Some opened, inner')" "opened \<noteq> []" by blast
    obtain ok w2 where wr: "vi_write_packet vi opened w1 = (ok, w2)" by fastforce
    note up2 = call_related(2) [OF wr]
    show ?thesis
    proof (cases ok)
      case False
      with Suc.prems r o wr up up2 show ?thesis by (auto simp: Let_def intro: R_trans)
    next
      case ok: True
      let ?e = "e\<lparr>te_scratch_opened := buf_assign opened (buf_clear (te_scratch_opened e)),
        te_stats := (te_stats e)\<lparr>rs_inbound_packets := rs_inbound_packets (te_stats e) + 1,
          rs_inbound_bytes := rs_inbound_bytes (te_stats e) + of_nat (length opened)\<rparr>\<rparr>"
      have "inbound_loop env vi st n (k + 1) inner' ?e w2 = (m, e', w')"
        using Suc.prems(1) r o wr ok by (simp add: Let_def)
      from Suc.IH [OF this] Suc.prems(2) up up2 show ?thesis by (auto intro: R_trans)
    qed
  qed
qed

lemma inbound_batch_related:
  assumes "forward_inbound_batch env n e w = (m, e', w')" and "engine_fits calm vi st e"
  shows "engine_fits calm vi st e' \<and> R w w'"
proof (cases "te_interface e = Some vi \<and> te_transport e = Some st \<and> te_inner e \<noteq> None \<and> can_send_data (te_session e)")
  case False
  with assms show ?thesis by (auto simp: forward_inbound_batch_def engine_fits_def split: option.splits if_splits)
next
  case True
  then obtain inner where "te_inner e = Some inner" by blast
  with True assms inbound_related [of n 0 inner e w] show ?thesis by (simp add: forward_inbound_batch_def)
qed

lemma established_related:
  assumes "relay_established env n e w = (ok, e', w')" and "engine_fits calm vi st e"
  shows "engine_fits calm vi st e' \<and> R w w'"
proof -
  let ?e1 = "e\<lparr>te_stats := (te_stats e)\<lparr>rs_relay_iterations := rs_relay_iterations (te_stats e) + 1\<rparr>\<rparr>"
  obtain ok2 e2 w2 where o: "forward_outbound env ?e1 w = (ok2, e2, w2)" by (metis prod_cases3)
  have f: "engine_fits calm vi st e2 \<and> R w w2" using outbound_related [OF o] assms(2) by simp
  obtain m e3 w3 where i: "forward_inbound_batch env (if 0 < n then n else 1) e2 w2 = (m, e3, w3)" by (metis prod_cases3)
  have "(e', w') = (e2, w2) \<or> (e', w') = (e3, w3)"
    using assms(1) o i by (simp add: relay_established_def Let_def split: if_splits)
  with f inbound_batch_related [OF i] show ?thesis by (auto intro: R_trans)
qed

lemma ready_related:
  assumes "ensure_session_ready e w = (ok, e', w')" and "engine_fits calm vi st e"
  shows "engine_fits calm vi st e' \<and> R w w'"
proof (cases "te_transport e = Some st \<and> te_inner e \<noteq> None \<and> tc_role (te_config e) = Server \<and> engine_state e = Handshaking")
  case False
  with assms show ?thesis
    by (auto simp: ensure_session_ready_def engine_fits_def engine_state_def split: option.splits if_splits)
next
  case True
  then obtain inner where inner: "te_inner e = Some inner" by blast
  obtain ok1 w1 where c: "st_open_data_channel st w = (ok1, w1)" by fastforce
  note up = call_related(4) [OF c]
  show ?thesis
  proof (cases "ok1 \<and> te_interface e = Some vi")
    case False
    with assms True inner c up show ?thesis
      by (auto simp: ensure_session_ready_def engine_fits_def engine_state_def split: option.splits if_splits)
  next
    case ok: True
    obtain er w2 where r: "vi_apply_client_routing vi (te_config e) w1 = (er, w2)" by fastforce
    have "engine_fail e w2 = (ok, e', w') \<or> (engine_transition Established e = (ok, e') \<and> w' = w2)"
      using assms True inner c ok r
      by (auto simp: ensure_session_ready_def engine_state_def split: if_splits prod.splits)
    moreover have "R w1 w2" using call_related(3) [OF r] True assms(2) by (simp add: engine_fits_def)
    ultimately show ?thesis
      using up fail_related [of e w2] transition_holds [of Established e] assms(2) by (meson R_trans)
  qed
qed

lemma batch_related:
  assumes "relay_batch env n e w = (ok, e', w')" and "engine_fits calm vi st e"
  shows "engine_fits calm vi st e' \<and> R w w'"
proof -
  obtain ok1 e1 w1 where r: "ensure_session_ready e w = (ok1, e1, w1)" by (metis prod_cases3)
  have "(e', w') = (e, w) \<or> (e', w') = (e1, w1) \<or> relay_established env n e1 w1 = (ok, e', w') \<or>
      relay_established env n e w = (ok, e', w')"
    using assms(1) r by (auto simp: relay_batch_def split: if_splits)
  then show ?thesis
    using assms(2) ready_related [OF r assms(2)] established_related [of n e1 w1 ok e' w'] established_related [of n e w ok e' w']
    by (auto intro: R_trans)
qed

lemma reset_related:
  assumes "reset_server_session e w = (e', w')" and "engine_fits calm vi st e"
  shows "engine_fits calm vi st e' \<and> R w w'"
proof -
  have up: "\<And>r. st_reset_for_next_client st = Some r \<Longrightarrow> R w (r w)"
    using transport unfolding transport_related_def by blast
  show ?thesis
    using assms up by (auto simp: reset_server_session_def engine_fits_def split: if_splits option.splits)
qed

lemma stop_related:
  assumes "stop e w = (e', w')" and "engine_fits calm vi st e"
  shows "engine_fits calm vi st e' \<and> R w w'"
proof -
  have up: "R v (vi_clear_client_routing vi v)" "R v (st_close st v)" "R v (vi_close vi v)" for v
    using interface transport unfolding interface_related_def transport_related_def by blast+
  let ?a = "case te_interface e of None \<Rightarrow> w | Some vi \<Rightarrow> vi_clear_client_routing vi w"
  let ?b = "case te_transport e of None \<Rightarrow> ?a | Some st \<Rightarrow> st_close st ?a"
  let ?c = "case te_interface e of None \<Rightarrow> ?b | Some vi \<Rightarrow> vi_close vi ?b"
  have "te_config e' = te_config e" "te_interface e' = te_interface e" "te_transport e' = te_transport e" "w' = ?c"
    using stop_engine(1-3) [OF assms(1)] stop_world [of e w] assms(1) by (simp_all split: option.splits)
  moreover have "R w ?a" "R ?a ?b" "R ?b ?c"
    using assms(2) up by (auto simp: engine_fits_def)
  ultimately show ?thesis using assms(2) R_trans [of w ?a ?b] R_trans [of w ?b ?c] by (simp add: engine_fits_def)
qed

lemma poll_related:
  assumes "poll_signal env e w = (e', w')" and "engine_fits calm vi st e"
  shows "engine_fits calm vi st e' \<and> R w w'"
proof -
  obtain sig w1 where s: "env_signal env w = (sig, w1)" by fastforce
  have up: "R w w1" using environment s unfolding env_related_def by (metis snd_conv)
  show ?thesis
  proof (cases sig)
    case Signal_Stop
    with assms s up stop_related [of e w1 e' w'] show ?thesis by (auto simp: poll_signal_def intro: R_trans)
  qed (use assms s up in \<open>auto simp: poll_signal_def request_data_plane_stop_def\<close>)
qed

lemma sleep_related: "R w (idle_sleep env e w)"
  using environment by (simp add: env_related_def idle_sleep_def)

lemma reset_sleep_related:
  assumes "(case reset_server_session e w of (e3, w3) \<Rightarrow> (Continue, e3, idle_sleep env e3 w3)) = (c, e', w')"
    and "engine_fits calm vi st e"
  shows "engine_fits calm vi st e' \<and> R w w'"
proof -
  obtain e3 w3 where r: "reset_server_session e w = (e3, w3)" by fastforce
  with reset_related [OF r assms(2)] sleep_related [of w3 e3] assms(1) show ?thesis by (auto intro: R_trans)
qed

lemma iteration_related:
  assumes "relay_iteration env n e w = (c, e', w')" and "engine_fits calm vi st e"
  shows "engine_fits calm vi st e' \<and> R w w'"
proof -
  obtain ok e1 w1 where r: "relay_batch env n e w = (ok, e1, w1)" by (metis prod_cases3)
  have b: "engine_fits calm vi st e1 \<and> R w w1" by (rule batch_related [OF r assms(2)])
  obtain e2 w2 where p: "poll_signal env e1 w1 = (e2, w2)" by fastforce
  have q: "engine_fits calm vi st e2 \<and> R w1 w2" using poll_related [OF p] b by blast
  obtain ok3 e3 where f: "engine_transition Failed e2 = (ok3, e3)" by fastforce
  have "(e', w') \<in> {(e1, w1), (e1, idle_sleep env e1 w1), (e2, w2), (e2, idle_sleep env e2 w2), (e3, w2)} \<or>
      (case reset_server_session e2 w2 of (e3, w3) \<Rightarrow> (Continue, e3, idle_sleep env e3 w3)) = (c, e', w')"
    using assms(1) r p f by (auto simp: relay_iteration_def Let_def split: if_splits)
  then show ?thesis
    using b q transition_holds [OF f] sleep_related [of w1 e1] sleep_related [of w2 e2]
      reset_sleep_related [of e2 w2 c e' w'] by (auto intro: R_trans)
qed

lemma data_plane_related:
  assumes "data_plane_iteration env n e w = (c, e', w')" and "engine_fits calm vi st e"
  shows "engine_fits calm vi st e' \<and> R w w'"
proof -
  let ?tail = "\<lambda>e0 w0. (case poll_signal env e0 w0 of (e2, w2) \<Rightarrow>
    if te_stop_requested e2 then (Break, e2, w2)
    else (case reset_server_session e2 w2 of (e3, w3) \<Rightarrow> (Continue, e3, idle_sleep env e3 w3)))"
  obtain ok e1 w1 where r: "ensure_session_ready e w = (ok, e1, w1)" by (metis prod_cases3)
  have b: "engine_fits calm vi st e1 \<and> R w w1" by (rule ready_related [OF r assms(2)])
  have tail: "engine_fits calm vi st e' \<and> R w0 w'" if "engine_fits calm vi st e0" "?tail e0 w0 = (c, e', w')" for e0 w0
  proof -
    obtain e2 w2 where p: "poll_signal env e0 w0 = (e2, w2)" by fastforce
    from poll_related [OF p that(1)] that(2) p reset_sleep_related [of e2 w2 c e' w'] show ?thesis
      by (auto intro: R_trans split: if_splits)
  qed
  have "(e', w') \<in> {(e, w), (e1, w1), (e1, idle_sleep env e1 w1)} \<or>
      relay_iteration env n e w = (c, e', w') \<or> relay_iteration env n e1 w1 = (c, e', w') \<or>
      ?tail e w = (c, e', w') \<or> ?tail e1 w1 = (c, e', w')"
    using assms(1) r by (simp add: data_plane_iteration_def Let_def split: if_splits) auto
  then show ?thesis
    using assms(2) b sleep_related [of w1 e1] iteration_related [of n e w c e' w']
      iteration_related [of n e1 w1 c e' w'] tail [of e w] tail [of e1 w1] by (auto intro: R_trans)
qed

lemma server_related:
  assumes "start_server st e w = (ok, e', w')" and "engine_fits calm vi st e"
  shows "engine_fits calm vi st e' \<and> R w w'"
proof -
  obtain b w1 where h: "st_perform_handshake st w = (b, w1)" by fastforce
  have "engine_fail e w1 = (ok, e', w') \<or> (e' = e\<lparr>te_stop_requested := False\<rparr> \<and> w' = w1)"
    using assms(1) h by (auto simp: start_server_def split: if_splits)
  with call_related(7) [OF h] fail_related [of e w1] assms(2) show ?thesis by (auto intro: R_trans)
qed

lemma client_related:
  assumes "start_client vi st e w = (ok, e', w')" and "engine_fits calm vi st e" and "fresh w"
  shows "engine_fits calm vi st e' \<and> R w w'"
proof -
  obtain b1 w1 where h: "st_perform_handshake st w = (b1, w1)" by fastforce
  obtain b2 w2 where c: "st_open_data_channel st w1 = (b2, w2)" by fastforce
  obtain er w3 where r: "vi_apply_client_routing vi (te_config e) w2 = (er, w3)" by fastforce
  obtain b4 e4 where t: "engine_transition Established (e\<lparr>te_stop_requested := False\<rparr>) = (b4, e4)" by fastforce
  have up: "R w w1" "R w w2" "R w w3"
    using call_related(7) [OF h] call_related(4) [OF c] call_related(3) [OF r] R_trans
      fresh_kept(4) [OF c fresh_kept(3) [OF h assms(3)]] by blast+
  have "(\<exists>v. engine_fail e v = (ok, e', w') \<and> v \<in> {w1, w2, w3}) \<or> (e' = e4 \<and> w' = w3)"
    using assms(1) h c r t by (auto simp: start_client_def split: if_splits)
  with up transition_holds [OF t] fail_related [of e] assms(2) show ?thesis by (auto intro: R_trans)
qed

lemma connected_related:
  assumes "start_connected vi st e w = (ok, e', w')" and "engine_fits calm vi st e" and "fresh w"
  shows "engine_fits calm vi st e' \<and> R w w'"
proof -
  obtain b e1 where t: "engine_transition Handshaking e = (b, e1)" by fastforce
  show ?thesis
    using assms transition_holds [OF t] server_related [of e1 w] client_related [of e1 w] t
    by (auto simp: start_connected_def split: if_splits)
qed

lemma connect_related:
  assumes "start_connect vi st e w = (ok, e', w')" and "engine_fits calm vi st e"
  shows "engine_fits calm vi st e' \<and> R w w'"
proof -
  obtain b e1 where t: "engine_transition Connecting e = (b, e1)" by fastforce
  obtain b1 w1 where o: "vi_open vi (tc_mtu (te_config e1)) w = (b1, w1)" by fastforce
  obtain b2 w2 where c: "st_connect st (te_config e1) w1 = (b2, w2)" by fastforce
  have h: "engine_fits calm vi st e1" using transition_holds [OF t] assms(2) by simp
  have up: "R w w1" "R w w2" using call_related(9) [OF o] call_related(8) [OF c] R_trans by blast+
  have "(e' = e1 \<and> w' = w) \<or> engine_fail e1 w1 = (ok, e', w') \<or> engine_fail e1 w2 = (ok, e', w') \<or>
      start_connected vi st e1 w2 = (ok, e', w')"
    using assms(1) t o c by (auto simp: start_connect_def split: if_splits)
  then show ?thesis
    using h up fail_related [of e1 w1 ok e' w'] fail_related [of e1 w2 ok e' w']
      connected_related [of e1 w2 ok e' w'] fresh_kept(2) [OF c fresh_kept(1) [OF o]]
    by (auto intro: R_trans)
qed

lemma start_related:
  assumes "start env e w = (ok, e', w')" and "engine_fits calm vi st e"
  shows "engine_fits calm vi st e' \<and> R w w'"
proof -
  have "(e' = e \<and> w' = w) \<or> (\<exists>e1. start_inner env e = Some e1 \<and> start_connect vi st (start_buffers e1) w = (ok, e', w'))"
    using assms by (auto simp: start_def engine_fits_def split: if_splits option.splits)
  moreover have "engine_fits calm vi st (start_buffers e1)" if "start_inner env e = Some e1" for e1
    using that assms(2) by (auto simp: start_inner_def start_buffers_def split: option.splits prod.splits)
  ultimately show ?thesis using assms(2) connect_related by auto
qed

lemma destroy_related:
  assumes "engine_fits calm vi st e"
  shows "R w (destroy_engine e w)"
proof -
  have "R w (st_destroy st w)" "R (st_destroy st w) (vi_destroy vi (st_destroy st w))"
    using interface transport unfolding interface_related_def transport_related_def by blast+
  then show ?thesis using assms by (auto simp: destroy_engine_def engine_fits_def intro: R_trans)
qed

text \<open>Every step, and so every run.\<close>

lemma step_related:
  "engine_step env s s' \<Longrightarrow> engine_fits calm vi st (fst s) \<Longrightarrow> engine_fits calm vi st (fst s') \<and> R (snd s) (snd s')"
proof (induction rule: engine_step.induct)
  case (step_clock w t w' e)
  then show ?case using environment unfolding env_related_def by (metis fst_conv snd_conv)
qed (use start_related batch_related reset_related stop_related poll_related data_plane_related
     in \<open>auto simp: request_data_plane_stop_def\<close>)

lemma reaches_related:
  "engine_reaches env s s' \<Longrightarrow> engine_fits calm vi st (fst s) \<Longrightarrow> engine_fits calm vi st (fst s') \<and> R (snd s) (snd s')"
  by (induction rule: rtranclp_induct) (auto dest: step_related intro: R_trans)

end

section \<open>A concrete environment\<close>

text \<open>A clock that stands still and no signals, for use where a theorem is applied to a concrete input.\<close>

definition still_env :: "platform \<Rightarrow> 'w net_api \<Rightarrow> 'w engine_env" where
  "still_env plat net =
     \<lparr>env_platform = plat, env_net = net, env_bcrypt = identity_aead, env_now = (\<lambda>w. (0, w)),
      env_sleep = (\<lambda>_ w. w), env_signal = (\<lambda>w. (No_Signal, w))\<rparr>"

end
