(* ===== verification/Engine_Progress.thy ===== *)
theory Engine_Progress
  imports Engine_Frame
begin

text \<open>
  Progress and accounting of the data plane: the loop of \<open>run_data_plane_for\<close> returns when the
  clock advances, whatever the network does; and the statistics count what was done.
\<close>

section \<open>Objects that do not turn the clock back\<close>

text \<open>
  \<open>clk\<close> observes the time of a world. Every reading of the clock is at least that time and
  strictly before the next reading; no call of the interface, the transport or the
  environment turns it back.
\<close>

definition interface_forward :: "'w VirtualInterface \<Rightarrow> ('w \<Rightarrow> nat) \<Rightarrow> bool" where
  "interface_forward vi clk \<longleftrightarrow> interface_related (\<lambda>w w'. clk w \<le> clk w') any_world any_config vi"

definition transport_forward :: "'w SecureTransport \<Rightarrow> ('w \<Rightarrow> nat) \<Rightarrow> bool" where
  "transport_forward st clk \<longleftrightarrow> transport_related (\<lambda>w w'. clk w \<le> clk w') any_world st"

definition clock_advances :: "'w engine_env \<Rightarrow> ('w \<Rightarrow> nat) \<Rightarrow> bool" where
  "clock_advances env clk \<longleftrightarrow>
     (\<forall>w. clk w \<le> fst (env_now env w) \<and> fst (env_now env w) < clk (snd (env_now env w))) \<and>
     (\<forall>n w. clk w \<le> clk (env_sleep env n w)) \<and> (\<forall>w. clk w \<le> clk (snd (env_signal env w)))"

lemmas forward_defs = interface_forward_def transport_forward_def interface_related_def transport_related_def

locale clocked_engine =
  fixes env :: "'w engine_env" and vi :: "'w VirtualInterface" and st :: "'w SecureTransport"
    and clk :: "'w \<Rightarrow> nat"
  assumes advances: "clock_advances env clk"
    and forward: "interface_forward vi clk" "transport_forward st clk"

sublocale clocked_engine \<subseteq> engine_calls env vi st "\<lambda>w w'. clk w \<le> clk w'" any_world any_config
proof unfold_locales
  show "env_related (\<lambda>w w'. clk w \<le> clk w') env"
    using advances unfolding clock_advances_def env_related_def by (meson le_trans less_imp_le)
qed (use forward in \<open>auto simp: interface_forward_def transport_forward_def\<close>)

context clocked_engine
begin

text \<open>The loop returns, with the objects it was given.\<close>

lemma loop_returns:
  "engine_fits any_config vi st e \<Longrightarrow> \<exists>e' w'. data_plane_loop env deadline n e w = Some (e', w') \<and> engine_fits any_config vi st e'"
proof (induction "deadline - clk w" arbitrary: e w rule: less_induct)
  case less
  obtain e1 w1 where p: "poll_signal env e w = (e1, w1)" by fastforce
  note q = poll_related [OF p less.prems]
  obtain t w2 where t: "env_now env w1 = (t, w2)" by fastforce
  have clock: "clk w1 \<le> t" "t < clk w2" using advances t unfolding clock_advances_def by (metis fst_conv snd_conv)+
  obtain c e2 w3 where i: "data_plane_iteration env n e1 w2 = (c, e2, w3)" by (metis prod_cases3)
  have f: "engine_fits any_config vi st e2 \<and> clk w2 \<le> clk w3" using data_plane_related [OF i] q by blast
  show ?case
  proof (cases "te_stop_requested e1 \<or> deadline \<le> t \<or> c = Break")
    case True
    with p t i q f show ?thesis by (subst data_plane_loop.simps) (auto split: loop_control.splits)
  next
    case False
    then have "t < deadline" by simp
    moreover have "clk w \<le> t" "t < clk w3" using q clock f by linarith+
    ultimately have "deadline - clk w3 < deadline - clk w" by linarith
    with less.hyps f obtain e' w' where "data_plane_loop env deadline n e2 w3 = Some (e', w') \<and> engine_fits any_config vi st e'" by blast
    moreover have "c = Continue" using False by (cases c) auto
    ultimately show ?thesis using False p t i by (subst data_plane_loop.simps) simp
  qed
qed

end

section \<open>Accounting\<close>

text \<open>One batch: what the counters record, and at most one error ends it.\<close>

definition batch_accounted :: "nat \<Rightarrow> nat \<Rightarrow> RelayStats \<Rightarrow> RelayStats \<Rightarrow> bool" where
  "batch_accounted limit processed before after \<longleftrightarrow>
     processed \<le> limit \<and>
     rs_inbound_packets after = rs_inbound_packets before + of_nat processed \<and>
     rs_outbound_packets after = rs_outbound_packets before \<and>
     rs_outbound_bytes after = rs_outbound_bytes before \<and>
     rs_relay_iterations after = rs_relay_iterations before \<and>
     rs_seal_errors after = rs_seal_errors before \<and>
     (rs_open_errors after, rs_transport_errors after) \<in>
       {(rs_open_errors before, rs_transport_errors before),
        (rs_open_errors before + 1, rs_transport_errors before),
        (rs_open_errors before, rs_transport_errors before + 1)} \<and>
     (processed = limit \<longrightarrow> rs_open_errors after = rs_open_errors before \<and>
        rs_transport_errors after = rs_transport_errors before)"

lemma inbound_loop_accounted:
  "inbound_loop env vi st n k inner e w = (m, e', w') \<Longrightarrow>
     k \<le> m \<and> batch_accounted n (m - k) (te_stats e) (te_stats e')"
proof (induction n arbitrary: k inner e w)
  case 0
  then show ?case by (auto simp: batch_accounted_def)
next
  case (Suc n)
  obtain rcv w1 where r: "st_try_receive_payload st w = (rcv, w1)" by fastforce
  show ?case
  proof (cases "\<exists>received opened inner'. rcv = Some received \<and> received \<noteq> [] \<and>
      inner_open (env_bcrypt env) received inner = (Some opened, inner') \<and> opened \<noteq> []")
    case False
    with Suc.prems r show ?thesis
      by (auto simp: Let_def batch_accounted_def split: prod.splits option.splits if_splits)
  next
    case True
    then obtain received opened inner' where o: "rcv = Some received" "received \<noteq> []"
      "inner_open (env_bcrypt env) received inner = (Some opened, inner')" "opened \<noteq> []" by blast
    obtain ok w2 where wr: "vi_write_packet vi opened w1 = (ok, w2)" by fastforce
    show ?thesis
    proof (cases ok)
      case False
      with Suc.prems r o wr show ?thesis by (auto simp: Let_def batch_accounted_def)
    next
      case ok: True
      let ?e = "e\<lparr>te_scratch_opened := buf_assign opened (buf_clear (te_scratch_opened e)),
        te_stats := (te_stats e)\<lparr>rs_inbound_packets := rs_inbound_packets (te_stats e) + 1,
          rs_inbound_bytes := rs_inbound_bytes (te_stats e) + of_nat (length opened)\<rparr>\<rparr>"
      have "inbound_loop env vi st n (k + 1) inner' ?e w2 = (m, e', w')"
        using Suc.prems(1) r o wr ok by (simp add: Let_def)
      from Suc.IH [OF this] have ih: "k + 1 \<le> m" "batch_accounted n (m - (k + 1)) (te_stats ?e) (te_stats e')"
        by auto
      obtain j where "m = k + 1 + j" using ih(1) le_iff_add by blast
      with ih(2) show ?thesis by (auto simp: batch_accounted_def algebra_simps)
    qed
  qed
qed

section \<open>Properties\<close>

text \<open>
  C13. The data plane returns: for every duration, whatever the interface and the transport
  answer and whatever signals arrive, \<open>run_data_plane_for\<close> returns, provided that each
  reading of the clock is later than the one before and no call turns the clock back.
\<close>

theorem data_plane_returns:
  assumes "clock_advances env clk" and "interface_forward vi clk" and "transport_forward st clk"
    and "te_interface e = Some vi" and "te_transport e = Some st"
  shows "\<exists>e' w'. run_data_plane_for env duration e w = Some (e', w')"
proof -
  have loc: "clocked_engine env vi st clk" by (rule clocked_engine.intro [OF assms(1-3)])
  have "engine_fits any_config vi st e" using assms(4,5) by (simp add: engine_fits_def)
  from clocked_engine.loop_returns [OF loc this] show ?thesis
    by (simp add: run_data_plane_for_def Let_def split: prod.splits) blast
qed

theorem data_plane_returns_witness:
  "\<forall>net. \<exists>e' w'. run_data_plane_for (ticking_env net) 5000 (logged_engine default_config) ([], 7) = Some (e', w')"
proof
  fix net :: "(call list \<times> nat) net_api"
  have "clock_advances (ticking_env net) snd" by (auto simp: clock_advances_def ticking_env_def)
  moreover have "interface_forward (log_interface accepting_interface) snd"
    by (simp add: forward_defs accepting_interface_def Let_def base_apply_client_routing_def
        base_clear_client_routing_def)
  moreover have "transport_forward (log_transport accepting_transport) snd"
    by (simp add: forward_defs accepting_transport_def Let_def base_open_data_channel_def)
  ultimately show "\<exists>e' w'. run_data_plane_for (ticking_env net) 5000 (logged_engine default_config) ([], 7) = Some (e', w')"
    by (rule data_plane_returns) (simp_all add: logged_engine_def new_engine_def)
qed


end
