(* ===== verification/Dev_Adapters.thy ===== *)
theory Dev_Adapters
  imports Engine
begin

text \<open>
  The in-process adapters of \<^verbatim>\<open>src/development_adapters.cpp\<close>: a virtual interface that holds one
  packet, and a transport whose two ends share a pair of queues found by port number.

  The links are heap objects owned by the map \<open>g_links\<close> alone: the shared pointer a transport
  obtains is dropped at once and only the raw address is kept. The heap is explicit, so
  that the use of a link after its removal from the map is visible: it sets \<open>dw_ub\<close>.
\<close>

section \<open>Objects\<close>

record DevelopmentTransportLink =
  lk_to_server :: "bytes list"
  lk_to_client :: "bytes list"

record DevelopmentVirtualInterface =
  dvi_opened :: bool
  dvi_packet :: bytes

record DevelopmentSecureTransport =
  dst_config :: TunnelConfig
  dst_connected :: bool
  dst_data_channel_open :: bool
  dst_link :: "nat option"

text \<open>
  The process: the live links by address, the next unused address, \<open>g_links\<close>, the adapter
  objects by number, whether a dead link was used, and the time.
\<close>

record dev_world =
  dw_heap :: "nat \<rightharpoonup> DevelopmentTransportLink"
  dw_next :: nat
  dw_g_links :: "u16 \<rightharpoonup> nat"
  dw_interfaces :: "nat \<Rightarrow> DevelopmentVirtualInterface"
  dw_transports :: "nat \<Rightarrow> DevelopmentSecureTransport"
  dw_ub :: bool
  dw_clock :: nat

definition new_dev_interface :: DevelopmentVirtualInterface where
  "new_dev_interface = \<lparr>dvi_opened = False, dvi_packet = []\<rparr>"

definition new_dev_transport :: DevelopmentSecureTransport where
  "new_dev_transport =
     \<lparr>dst_config = default_config, dst_connected = False, dst_data_channel_open = False, dst_link = None\<rparr>"

definition new_dev_world :: dev_world where
  "new_dev_world =
     \<lparr>dw_heap = Map.empty, dw_next = 0, dw_g_links = Map.empty, dw_interfaces = (\<lambda>_. new_dev_interface),
      dw_transports = (\<lambda>_. new_dev_transport), dw_ub = False, dw_clock = 0\<rparr>"

section \<open>Links\<close>

definition link_for_port :: "u16 \<Rightarrow> dev_world \<Rightarrow> nat \<times> dev_world" where
  "link_for_port port w =
     (case dw_g_links w port of
        Some a \<Rightarrow> (a, w)
      | None \<Rightarrow>
          (dw_next w,
           w\<lparr>dw_heap := (dw_heap w)(dw_next w \<mapsto> \<lparr>lk_to_server = [], lk_to_client = []\<rparr>),
             dw_g_links := (dw_g_links w)(port \<mapsto> dw_next w), dw_next := dw_next w + 1\<rparr>))"

text \<open>Erasing the map entry destroys the link.\<close>

definition reset_link_for_port :: "u16 \<Rightarrow> dev_world \<Rightarrow> dev_world" where
  "reset_link_for_port port w =
     (case dw_g_links w port of
        None \<Rightarrow> w
      | Some a \<Rightarrow> w\<lparr>dw_heap := (dw_heap w)(a := None), dw_g_links := (dw_g_links w)(port := None)\<rparr>)"

section \<open>The interface\<close>

definition dev_vi_open :: "nat \<Rightarrow> u16 \<Rightarrow> dev_world \<Rightarrow> bool \<times> dev_world" where
  "dev_vi_open i mtu w =
     (let opened = 1280 \<le> mtu \<and> mtu \<le> 1420
      in (opened, w\<lparr>dw_interfaces := (dw_interfaces w)(i := (dw_interfaces w i)\<lparr>dvi_opened := opened\<rparr>)\<rparr>))"

definition dev_vi_read_packet :: "nat \<Rightarrow> dev_world \<Rightarrow> bytes \<times> dev_world" where
  "dev_vi_read_packet i w =
     (let d = dw_interfaces w i in
      if \<not> dvi_opened d then ([], w)
      else (dvi_packet d, w\<lparr>dw_interfaces := (dw_interfaces w)(i := d\<lparr>dvi_packet := []\<rparr>)\<rparr>))"

definition dev_vi_write_packet :: "nat \<Rightarrow> bytes \<Rightarrow> dev_world \<Rightarrow> bool \<times> dev_world" where
  "dev_vi_write_packet i packet w =
     (let d = dw_interfaces w i in
      if \<not> dvi_opened d \<or> packet = [] then (False, w)
      else (True, w\<lparr>dw_interfaces := (dw_interfaces w)(i := d\<lparr>dvi_packet := packet\<rparr>)\<rparr>))"

definition dev_vi_close :: "nat \<Rightarrow> dev_world \<Rightarrow> dev_world" where
  "dev_vi_close i w = w\<lparr>dw_interfaces := (dw_interfaces w)(i := \<lparr>dvi_opened = False, dvi_packet = []\<rparr>)\<rparr>"

definition inject_inbound_packet :: "nat \<Rightarrow> bytes \<Rightarrow> dev_world \<Rightarrow> dev_world" where
  "inject_inbound_packet i packet w =
     w\<lparr>dw_interfaces := (dw_interfaces w)(i := (dw_interfaces w i)\<lparr>dvi_packet := packet\<rparr>)\<rparr>"

definition development_interface :: "platform \<Rightarrow> nat \<Rightarrow> dev_world VirtualInterface" where
  "development_interface plat i =
     \<lparr>vi_open = dev_vi_open i, vi_read_packet = dev_vi_read_packet i, vi_write_packet = dev_vi_write_packet i,
      vi_close = dev_vi_close i, vi_apply_client_routing = base_apply_client_routing plat,
      vi_clear_client_routing = base_clear_client_routing, vi_destroy = (\<lambda>w. w)\<rparr>"

section \<open>The transport\<close>

definition set_transport :: "nat \<Rightarrow> DevelopmentSecureTransport \<Rightarrow> dev_world \<Rightarrow> dev_world" where
  "set_transport i t w = w\<lparr>dw_transports := (dw_transports w)(i := t)\<rparr>"

definition dev_st_connect :: "nat \<Rightarrow> TunnelConfig \<Rightarrow> dev_world \<Rightarrow> bool \<times> dev_world" where
  "dev_st_connect i config w =
     (case link_for_port (tc_port config) w of (a, w1) \<Rightarrow>
        let ok = tc_endpoint config \<noteq> [] \<and> tc_port config \<noteq> 0
        in (ok, set_transport i \<lparr>dst_config = config, dst_connected = ok, dst_data_channel_open = ok,
                                 dst_link = Some a\<rparr> w1))"

definition dev_st_perform_handshake :: "nat \<Rightarrow> dev_world \<Rightarrow> bool \<times> dev_world" where
  "dev_st_perform_handshake i w = (dst_connected (dw_transports w i), w)"

definition dev_st_open_data_channel :: "nat \<Rightarrow> dev_world \<Rightarrow> bool \<times> dev_world" where
  "dev_st_open_data_channel i w = (dst_connected (dw_transports w i), w)"

definition dev_st_send_payload :: "nat \<Rightarrow> bytes \<Rightarrow> dev_world \<Rightarrow> bool \<times> dev_world" where
  "dev_st_send_payload i payload w =
     (let t = dw_transports w i in
      if \<not> dst_connected t \<or> dst_link t = None \<or> payload = [] then (False, w)
      else
        (case dw_heap w (the (dst_link t)) of
           None \<Rightarrow> (True, w\<lparr>dw_ub := True\<rparr>)
         | Some link \<Rightarrow>
             (True,
              w\<lparr>dw_heap := (dw_heap w)(the (dst_link t) \<mapsto>
                  (if tc_role (dst_config t) = Client
                   then link\<lparr>lk_to_server := lk_to_server link @ [payload]\<rparr>
                   else link\<lparr>lk_to_client := lk_to_client link @ [payload]\<rparr>))\<rparr>)))"

definition dev_st_try_receive_payload :: "nat \<Rightarrow> dev_world \<Rightarrow> bytes option \<times> dev_world" where
  "dev_st_try_receive_payload i w =
     (let t = dw_transports w i in
      if \<not> dst_connected t \<or> dst_link t = None then (None, w)
      else
        (case dw_heap w (the (dst_link t)) of
           None \<Rightarrow> (Some [], w\<lparr>dw_ub := True\<rparr>)
         | Some link \<Rightarrow>
             (let queue = (if tc_role (dst_config t) = Client then lk_to_client link else lk_to_server link) in
              case queue of
                [] \<Rightarrow> (Some [], w)
              | frame # rest \<Rightarrow>
                  (Some frame,
                   w\<lparr>dw_heap := (dw_heap w)(the (dst_link t) \<mapsto>
                       (if tc_role (dst_config t) = Client then link\<lparr>lk_to_client := rest\<rparr>
                        else link\<lparr>lk_to_server := rest\<rparr>))\<rparr>))))"

definition dev_st_close :: "nat \<Rightarrow> dev_world \<Rightarrow> dev_world" where
  "dev_st_close i w =
     (let t = dw_transports w i;
          w1 = (if dst_connected t then reset_link_for_port (tc_port (dst_config t)) w else w)
      in set_transport i (t\<lparr>dst_connected := False, dst_data_channel_open := False, dst_link := None\<rparr>) w1)"

definition development_transport :: "nat \<Rightarrow> dev_world SecureTransport" where
  "development_transport i =
     \<lparr>st_connect = dev_st_connect i, st_perform_handshake = dev_st_perform_handshake i,
      st_open_data_channel = dev_st_open_data_channel i, st_send_payload = dev_st_send_payload i,
      st_try_receive_payload = dev_st_try_receive_payload i, st_close = dev_st_close i,
      st_reset_for_next_client = None, st_destroy = dev_st_close i\<rparr>"

lemmas dev_vi_defs = dev_vi_open_def dev_vi_read_packet_def dev_vi_write_packet_def dev_vi_close_def
lemmas dev_st_defs = dev_st_connect_def dev_st_perform_handshake_def dev_st_open_data_channel_def
  dev_st_send_payload_def dev_st_try_receive_payload_def dev_st_close_def set_transport_def
lemmas dev_object_defs = development_interface_def development_transport_def
  base_apply_client_routing_def base_clear_client_routing_def

section \<open>Lemmas\<close>

definition connected_to :: "TunnelConfig \<Rightarrow> nat \<Rightarrow> DevelopmentSecureTransport" where
  "connected_to config a =
     \<lparr>dst_config = config, dst_connected = True, dst_data_channel_open = True, dst_link = Some a\<rparr>"

lemma dev_st_connect_True_iff:
  "dev_st_connect i config w = (True, w') \<longleftrightarrow>
     tc_endpoint config \<noteq> [] \<and> tc_port config \<noteq> 0 \<and>
     w' = set_transport i (connected_to config (fst (link_for_port (tc_port config) w)))
            (snd (link_for_port (tc_port config) w))"
  by (auto simp: dev_st_connect_def connected_to_def Let_def split: prod.splits)

lemma link_for_port_spec:
  "dw_g_links (snd (link_for_port port w)) port = Some (fst (link_for_port port w))"
  "dw_ub (snd (link_for_port port w)) = dw_ub w"
  "dw_interfaces (snd (link_for_port port w)) = dw_interfaces w"
  "dw_transports (snd (link_for_port port w)) = dw_transports w"
  "dw_clock (snd (link_for_port port w)) = dw_clock w"
  by (simp_all add: link_for_port_def split: option.splits)

lemma link_for_port_again: "dw_g_links w port = Some a \<Longrightarrow> link_for_port port w = (a, w)"
  by (simp add: link_for_port_def)

lemma set_transport_simps [simp]:
  "dw_transports (set_transport i t w) = (dw_transports w)(i := t)"
  "dw_heap (set_transport i t w) = dw_heap w" "dw_g_links (set_transport i t w) = dw_g_links w"
  "dw_interfaces (set_transport i t w) = dw_interfaces w" "dw_ub (set_transport i t w) = dw_ub w"
  "dw_next (set_transport i t w) = dw_next w" "dw_clock (set_transport i t w) = dw_clock w"
  by (simp_all add: set_transport_def)

section \<open>Properties\<close>

text \<open>
  C35. Closing one end of a development link leaves the other end with a dangling pointer:
  when two transports are connected to the same port and one is closed, the next payload
  the other sends is pushed into the destroyed link.
\<close>

theorem peer_close_leaves_dangling_link:
  assumes "i \<noteq> j" and "tc_port ci = tc_port cj"
    and "dev_st_connect i ci w = (True, w1)" and "dev_st_connect j cj w1 = (True, w2)" and "payload \<noteq> []"
  shows "dw_ub (snd (dev_st_send_payload i payload (dev_st_close j w2)))"
proof -
  let ?l = "link_for_port (tc_port ci) w"
  have w1: "w1 = set_transport i (connected_to ci (fst ?l)) (snd ?l)"
    using assms(3) by (simp add: dev_st_connect_True_iff)
  have "dw_g_links w1 (tc_port cj) = Some (fst ?l)" by (simp add: w1 link_for_port_spec flip: assms(2))
  note l2 = link_for_port_again [OF this]
  have w2: "w2 = set_transport j (connected_to cj (fst ?l)) w1"
    using assms(4) l2 by (simp add: dev_st_connect_True_iff)
  show ?thesis
    using assms(1,2,5) link_for_port_spec(1) [of "tc_port ci" w]
    by (simp add: w2 w1 dev_st_close_def dev_st_send_payload_def reset_link_for_port_def connected_to_def Let_def)
qed

theorem peer_close_leaves_dangling_link_witness:
  "\<exists>w1 w2. dev_st_connect 0 default_config new_dev_world = (True, w1) \<and>
     dev_st_connect 1 (default_config\<lparr>tc_role := Server\<rparr>) w1 = (True, w2) \<and>
     \<not> dw_ub w2 \<and> dw_ub (snd (dev_st_send_payload 0 [0x45] (dev_st_close 1 w2)))"
proof -
  have valid: "tc_endpoint default_config \<noteq> [] \<and> tc_port default_config \<noteq> 0" by (simp add: default_config_def)
  obtain w1 where w1: "dev_st_connect 0 default_config new_dev_world = (True, w1)" "\<not> dw_ub w1"
    using valid by (simp add: dev_st_connect_True_iff link_for_port_spec new_dev_world_def)
  obtain w2 where w2: "dev_st_connect 1 (default_config\<lparr>tc_role := Server\<rparr>) w1 = (True, w2)" "\<not> dw_ub w2"
    using valid w1(2) by (simp add: dev_st_connect_True_iff link_for_port_spec)
  have "dw_ub (snd (dev_st_send_payload 0 [0x45] (dev_st_close 1 w2)))"
    by (rule peer_close_leaves_dangling_link [OF _ _ w1(1) w2(1)]) simp_all
  with w1 w2 show ?thesis by blast
qed

end
