(* ===== verification/Relay_Path.thy ===== *)
theory Relay_Path
  imports Engine_Progress Dev_Adapters
begin

text \<open>
  The path of a packet through two engines. The locale \<open>one_way_link\<close> states what the engines
  rely on: an interface that yields the injected packet, a transport that carries frames in
  order, an interface that accepts the opened packet. Under it a packet offered to one
  engine is delivered unchanged by the other. The development adapters provide the laws, in
  both directions, and with them the result holds from the construction of both engines.
\<close>

section \<open>A link\<close>

locale one_way_link =
  fixes via :: "'w VirtualInterface" and sta :: "'w SecureTransport"
    and vib :: "'w VirtualInterface" and stb :: "'w SecureTransport"
    and inv :: "'w \<Rightarrow> bool" and source :: "'w \<Rightarrow> bytes" and sink :: "'w \<Rightarrow> bytes"
    and pending :: "'w \<Rightarrow> bytes list"
    and inject :: "bytes \<Rightarrow> 'w \<Rightarrow> 'w" and consume :: "'w \<Rightarrow> bytes \<times> 'w"
  assumes read_a: "inv w \<Longrightarrow> \<exists>w'. vi_read_packet via w = (source w, w') \<and> inv w' \<and>
      source w' = [] \<and> sink w' = sink w \<and> pending w' = pending w"
    and send_a: "inv w \<Longrightarrow> c \<noteq> [] \<Longrightarrow> length c \<le> 65536 \<Longrightarrow> \<exists>w'. st_send_payload sta c w = (True, w') \<and> inv w' \<and>
      source w' = source w \<and> sink w' = sink w \<and> pending w' = pending w @ [c]"
    and receive_a: "inv w \<Longrightarrow> \<exists>w'. st_try_receive_payload sta w = (Some [], w') \<and> inv w' \<and>
      source w' = source w \<and> sink w' = sink w \<and> pending w' = pending w"
    and read_b: "inv w \<Longrightarrow> sink w = [] \<Longrightarrow> \<exists>w'. vi_read_packet vib w = ([], w') \<and> inv w' \<and>
      source w' = source w \<and> sink w' = [] \<and> pending w' = pending w"
    and receive_b: "inv w \<Longrightarrow> \<exists>w'. st_try_receive_payload stb w =
      (Some (case pending w of [] \<Rightarrow> [] | c # _ \<Rightarrow> c), w') \<and> inv w' \<and>
      source w' = source w \<and> sink w' = sink w \<and> pending w' = tl (pending w)"
    and write_b: "inv w \<Longrightarrow> p \<noteq> [] \<Longrightarrow> \<exists>w'. vi_write_packet vib p w = (True, w') \<and> inv w' \<and>
      source w' = source w \<and> sink w' = p \<and> pending w' = pending w"
    and inject_a: "inv w \<Longrightarrow> inv (inject p w) \<and> source (inject p w) = p \<and> sink (inject p w) = sink w \<and>
      pending (inject p w) = pending w"
    and consume_b: "inv w \<Longrightarrow> \<exists>w'. consume w = (sink w, w') \<and> inv w' \<and>
      source w' = source w \<and> sink w' = [] \<and> pending w' = pending w"

text \<open>An engine on given objects, established, with a given inner session.\<close>

definition engine_at :: "'w VirtualInterface \<Rightarrow> 'w SecureTransport \<Rightarrow> inner_session \<Rightarrow> 'w TunnelEngine \<Rightarrow> bool" where
  "engine_at vi st inner e \<longleftrightarrow>
     te_interface e = Some vi \<and> te_transport e = Some st \<and> te_inner e = Some inner \<and> engine_state e = Established"

text \<open>Two engines in step: the sessions are linked and the receiver is not ahead.\<close>

definition engines_linked ::
  "bcrypt_api \<Rightarrow> 'w VirtualInterface \<Rightarrow> 'w SecureTransport \<Rightarrow> 'w VirtualInterface \<Rightarrow> 'w SecureTransport \<Rightarrow>
   nat \<Rightarrow> 'w TunnelEngine \<Rightarrow> 'w TunnelEngine \<Rightarrow> bool" where
  "engines_linked api via sta vib stb sent ea eb \<longleftrightarrow>
     (\<exists>ia ib. engine_at via sta ia ea \<and> engine_at vib stb ib eb \<and> sessions_linked api ia ib \<and>
        inner_recv_seq ib \<le> inner_send_seq ia \<and> unat (inner_send_seq ia) = sent)"

text \<open>Offer a packet to one engine, let both relay, take what the other delivered; repeat.\<close>

fun tunnel_rounds ::
  "'w engine_env \<Rightarrow> (bytes \<Rightarrow> 'w \<Rightarrow> 'w) \<Rightarrow> ('w \<Rightarrow> bytes \<times> 'w) \<Rightarrow> nat \<Rightarrow> nat \<Rightarrow> bytes list \<Rightarrow>
   'w TunnelEngine \<Rightarrow> 'w TunnelEngine \<Rightarrow> 'w \<Rightarrow> bytes list \<times> 'w TunnelEngine \<times> 'w TunnelEngine \<times> 'w" where
  "tunnel_rounds env inject consume n m [] ea eb w = ([], ea, eb, w)"
| "tunnel_rounds env inject consume n m (p # ps) ea eb w =
     (case relay_batch env n ea (inject p w) of (_, ea1, w1) \<Rightarrow>
        (case relay_batch env m eb w1 of (_, eb1, w2) \<Rightarrow>
           (case consume w2 of (q, w3) \<Rightarrow>
              (case tunnel_rounds env inject consume n m ps ea1 eb1 w3 of (qs, ea2, eb2, w4) \<Rightarrow>
                 (q # qs, ea2, eb2, w4)))))"

lemma inner_seal_nonempty: "inner_seal api p s = (Some c, s') \<Longrightarrow> c \<noteq> []"
  by (cases s) (auto simp: dev_seal_Some_iff bcrypt_seal_Some_iff split: prod.splits)

text \<open>A sealed packet has at most 2087 bytes, so every transport takes it.\<close>

lemma sealed_frame_fits:
  assumes "sessions_linked api a b" and "inner_seal api p a = (Some c, a')"
  shows "length c \<le> 65536"
proof (cases a)
  case (Development d)
  with assms(2) show ?thesis by (auto simp: dev_seal_Some_iff split: prod.splits)
next
  case (Bcrypt k)
  with assms(1) have "aead_correct api" "length (bc_key k) = 32" by (cases b; simp)+
  moreover obtain cipher tag where "length p \<le> 2048"
      "bc_encrypt api (bc_key k) (nonce_of (bc_send_seq k + 1)) (be_bytes 2 (of_nat (length p) :: u16) @ p) 2050 = Some (cipher, tag)"
      "c = 0x01 # be_bytes 8 (bc_send_seq k + 1) @ nonce_of (bc_send_seq k + 1) @ cipher @ tag"
    using assms(2) Bcrypt by (auto simp: bcrypt_seal_Some_iff split: prod.splits)
  ultimately show ?thesis
    using aead_correctE [of api "bc_key k" "nonce_of (bc_send_seq k + 1)" "be_bytes 2 (of_nat (length p) :: u16) @ p" 2050]
    by fastforce
qed

lemma relay_batch_established:
  "engine_state e = Established \<Longrightarrow> relay_batch env n e w = relay_established env n e w"
  by (simp add: relay_batch_def engine_state_def)

text \<open>The two halves of a relay on an established engine.\<close>

lemma forward_outbound_idle:
  assumes "engine_at vi st inner e" and "vi_read_packet vi w = ([], w1)"
  shows "forward_outbound env e w = (True, e, w1)"
  using assms by (simp add: engine_at_def engine_state_def forward_outbound_def)

lemma forward_outbound_sent:
  assumes "engine_at vi st inner e" and "vi_read_packet vi w = (p, w1)" and "p \<noteq> []"
    and "inner_seal (env_bcrypt env) p inner = (Some c, inner')" and "st_send_payload st c w1 = (True, w2)"
  shows "\<exists>e'. forward_outbound env e w = (True, e', w2) \<and> engine_at vi st inner' e' \<and>
    rs_outbound_packets (te_stats e') = rs_outbound_packets (te_stats e) + 1 \<and> te_config e' = te_config e"
  using assms by (simp add: engine_at_def engine_state_def forward_outbound_def Let_def)

lemma inbound_loop_idle:
  assumes "st_try_receive_payload st w = (Some [], w1)"
  shows "inbound_loop env vi st n k inner e w = (k, e\<lparr>te_inner := Some inner\<rparr>, if n = 0 then w else w1)"
  using assms by (cases n) simp_all

lemma inbound_loop_deliver:
  assumes "st_try_receive_payload st w = (Some c, w1)" and "c \<noteq> []"
    and "inner_open (env_bcrypt env) c inner = (Some p, inner')" and "p \<noteq> []"
    and "vi_write_packet vi p w1 = (True, w2)"
  shows "\<exists>e'. inbound_loop env vi st (Suc n) k inner e w = inbound_loop env vi st n (k + 1) inner' e' w2 \<and>
    te_interface e' = te_interface e \<and> te_transport e' = te_transport e \<and> te_session e' = te_session e \<and>
    rs_inbound_packets (te_stats e') = rs_inbound_packets (te_stats e) + 1"
  by (rule exI [of _ "e\<lparr>te_scratch_opened := buf_assign p (buf_clear (te_scratch_opened e)),
      te_stats := (te_stats e)\<lparr>rs_inbound_packets := rs_inbound_packets (te_stats e) + 1,
        rs_inbound_bytes := rs_inbound_bytes (te_stats e) + of_nat (length p)\<rparr>\<rparr>"])
    (use assms in \<open>simp add: Let_def\<close>)

context one_way_link
begin

lemma sender_relays:
  assumes at: "engine_at via sta ia ea" and w: "inv w" "source w = p" "p \<noteq> []"
    and seal: "inner_seal (env_bcrypt env) p ia = (Some c, ia')" and fits: "length c \<le> 65536"
  shows "\<exists>ea' w'. relay_batch env n ea w = (True, ea', w') \<and> engine_at via sta ia' ea' \<and> inv w' \<and>
    source w' = [] \<and> sink w' = sink w \<and> pending w' = pending w @ [c] \<and>
    rs_outbound_packets (te_stats ea') = rs_outbound_packets (te_stats ea) + 1"
proof -
  let ?e1 = "ea\<lparr>te_stats := (te_stats ea)\<lparr>rs_relay_iterations := rs_relay_iterations (te_stats ea) + 1\<rparr>\<rparr>"
  have at1: "engine_at via sta ia ?e1" using at by (simp add: engine_at_def engine_state_def)
  obtain w1 where w1: "vi_read_packet via w = (p, w1)" "inv w1" "source w1 = []" "sink w1 = sink w" "pending w1 = pending w"
    using read_a [OF w(1)] w(2) by blast
  obtain w2 where w2: "st_send_payload sta c w1 = (True, w2)" "inv w2" "source w2 = []" "sink w2 = sink w"
      "pending w2 = pending w @ [c]"
    using send_a [OF w1(2) inner_seal_nonempty [OF seal] fits] w1 by auto
  obtain e2 where e2: "forward_outbound env ?e1 w = (True, e2, w2)" "engine_at via sta ia' e2"
      "rs_outbound_packets (te_stats e2) = rs_outbound_packets (te_stats ea) + 1"
    using forward_outbound_sent [OF at1 w1(1) w(3) seal w2(1)] by auto
  obtain w3 where w3: "st_try_receive_payload sta w2 = (Some [], w3)" "inv w3" "source w3 = []" "sink w3 = sink w"
      "pending w3 = pending w @ [c]"
    using receive_a [OF w2(2)] w2 by auto
  have "forward_inbound_batch env (if 0 < n then n else 1) e2 w2 = (0, e2\<lparr>te_inner := Some ia'\<rparr>, w3)"
    using e2(2) w3(1) by (simp add: forward_inbound_batch_def engine_at_def engine_state_def inbound_loop_idle)
  with e2 w3 at show ?thesis
    by (simp add: relay_batch_established engine_at_def relay_established_def engine_state_def)
qed

lemma receiver_relays:
  assumes at: "engine_at vib stb ib eb" and w: "inv w" "sink w = []" "pending w = [c]" "c \<noteq> []"
    and op: "inner_open (env_bcrypt env) c ib = (Some p, ib')" and p: "p \<noteq> []"
  shows "\<exists>eb' w'. relay_batch env m eb w = (True, eb', w') \<and> engine_at vib stb ib' eb' \<and> inv w' \<and>
    source w' = source w \<and> sink w' = p \<and> pending w' = [] \<and>
    rs_inbound_packets (te_stats eb') = rs_inbound_packets (te_stats eb) + 1"
proof -
  let ?e1 = "eb\<lparr>te_stats := (te_stats eb)\<lparr>rs_relay_iterations := rs_relay_iterations (te_stats eb) + 1\<rparr>\<rparr>"
  have at1: "engine_at vib stb ib ?e1" using at by (simp add: engine_at_def engine_state_def)
  obtain w1 where w1: "vi_read_packet vib w = ([], w1)" "inv w1" "source w1 = source w" "sink w1 = []" "pending w1 = [c]"
    using read_b [OF w(1,2)] w(3) by auto
  note out = forward_outbound_idle [OF at1 w1(1)]
  obtain w2 where w2: "st_try_receive_payload stb w1 = (Some c, w2)" "inv w2" "source w2 = source w" "pending w2 = []"
    using receive_b [OF w1(2)] w1 by auto
  obtain w3 where w3: "vi_write_packet vib p w2 = (True, w3)" "inv w3" "source w3 = source w" "sink w3 = p" "pending w3 = []"
    using write_b [OF w2(2) p] w2 by auto
  obtain w4 where w4: "st_try_receive_payload stb w3 = (Some [], w4)" "inv w4" "source w4 = source w" "sink w4 = p"
      "pending w4 = []"
    using receive_b [OF w3(2)] w3 by auto
  obtain k where k: "(if 0 < m then m else 1) = Suc k" by (cases m) auto
  obtain e2 where e2: "inbound_loop env vib stb (Suc k) 0 ib ?e1 w1 = inbound_loop env vib stb k 1 ib' e2 w3"
      "te_interface e2 = Some vib" "te_transport e2 = Some stb" "engine_state e2 = Established"
      "rs_inbound_packets (te_stats e2) = rs_inbound_packets (te_stats eb) + 1"
    using inbound_loop_deliver [OF w2(1) w(4) op p w3(1), of k 0 ?e1] at1
    by (auto simp: engine_at_def engine_state_def)
  have "forward_inbound_batch env (Suc k) ?e1 w1 = (1, e2\<lparr>te_inner := Some ib'\<rparr>, if k = 0 then w3 else w4)"
    using at1 e2(1) inbound_loop_idle [OF w4(1)]
    by (simp add: forward_inbound_batch_def engine_at_def engine_state_def)
  with out k e2 w3 w4 at show ?thesis
    by (simp add: relay_batch_established engine_at_def relay_established_def engine_state_def)
qed

lemma packet_crosses:
  assumes linked: "engines_linked (env_bcrypt env) via sta vib stb sent ea eb" and room: "sent + 1 < 2 ^ 64"
    and w: "inv w" "source w = p" "sink w = []" "pending w = []" and p: "p \<noteq> []" "length p \<le> 2048"
  shows "\<exists>ea' eb' w1 w2. relay_batch env n ea w = (True, ea', w1) \<and> inv w1 \<and>
    relay_batch env m eb w1 = (True, eb', w2) \<and> engines_linked (env_bcrypt env) via sta vib stb (sent + 1) ea' eb' \<and>
    inv w2 \<and> source w2 = [] \<and> sink w2 = p \<and> pending w2 = [] \<and>
    rs_outbound_packets (te_stats ea') = rs_outbound_packets (te_stats ea) + 1 \<and>
    rs_inbound_packets (te_stats eb') = rs_inbound_packets (te_stats eb) + 1"
proof -
  let ?api = "env_bcrypt env"
  from linked obtain ia ib where at: "engine_at via sta ia ea" "engine_at vib stb ib eb"
    and link: "sessions_linked ?api ia ib" and seq: "inner_recv_seq ib \<le> inner_send_seq ia"
      "unat (inner_send_seq ia) = sent" by (auto simp: engines_linked_def)
  obtain c ia' where seal: "inner_seal ?api p ia = (Some c, ia')" using inner.seal_ok [OF link p(2)] by blast
  note s = inner.seal_Some [OF seal]
  have small: "unat (inner_send_seq ia) + 1 < 2 ^ LENGTH(64)" using seq(2) room by simp
  have lt: "inner_recv_seq ib < inner_send_seq ia'"
    using seq(1) s less_inc_no_wrap [OF small] by (simp add: le_less_trans)
  obtain ib' where op: "inner_open ?api c ib = (Some p, ib')" using inner.link_round_trip [OF link seal lt] by blast
  obtain ea' w1 where a: "relay_batch env n ea w = (True, ea', w1)" "engine_at via sta ia' ea'" "inv w1"
      "source w1 = []" "sink w1 = []" "pending w1 = [c]"
      "rs_outbound_packets (te_stats ea') = rs_outbound_packets (te_stats ea) + 1"
    using sender_relays [OF at(1) w(1,2) p(1) seal sealed_frame_fits [OF link seal], of n] w by auto
  obtain eb' w2 where b: "relay_batch env m eb w1 = (True, eb', w2)" "engine_at vib stb ib' eb'" "inv w2"
      "source w2 = []" "sink w2 = p" "pending w2 = []"
      "rs_inbound_packets (te_stats eb') = rs_inbound_packets (te_stats eb) + 1"
    using receiver_relays [OF at(2) a(3,5,6) inner_seal_nonempty [OF seal] op p(1), of m] a(4) by auto
  have "sessions_linked ?api ia' ib'" using inner.linked_open [OF inner.linked_seal [OF link seal] op] .
  moreover have "inner_recv_seq ib' \<le> inner_send_seq ia'" using inner.open_Some [OF op] s by simp
  moreover have "unat (inner_send_seq ia') = sent + 1" using s unat_inc_no_wrap [OF small] seq(2) by simp
  ultimately have "engines_linked ?api via sta vib stb (sent + 1) ea' eb'"
    using a(2) b(2) by (auto simp: engines_linked_def)
  with a b show ?thesis by auto
qed

lemma rounds_deliver:
  "engines_linked (env_bcrypt env) via sta vib stb sent ea eb \<Longrightarrow> sent + length ps < 2 ^ 64 \<Longrightarrow>
   inv w \<Longrightarrow> sink w = [] \<Longrightarrow> pending w = [] \<Longrightarrow> (\<forall>p \<in> set ps. p \<noteq> [] \<and> length p \<le> 2048) \<Longrightarrow>
     fst (tunnel_rounds env inject consume n m ps ea eb w) = ps"
proof (induction ps arbitrary: sent ea eb w)
  case Nil
  then show ?case by simp
next
  case (Cons p ps)
  note i = inject_a [OF Cons.prems(3), of p]
  have "sent + 1 < 2 ^ 64" "p \<noteq> []" "length p \<le> 2048" using Cons.prems(2,6) by auto
  then obtain ea' eb' w1 w2 where r: "relay_batch env n ea (inject p w) = (True, ea', w1)"
      "relay_batch env m eb w1 = (True, eb', w2)"
      "engines_linked (env_bcrypt env) via sta vib stb (sent + 1) ea' eb'" "inv w2" "sink w2 = p" "pending w2 = []"
    using packet_crosses [OF Cons.prems(1), of "inject p w" p n m] i Cons.prems(4,5) by auto
  obtain w3 where c: "consume w2 = (p, w3)" "inv w3" "sink w3 = []" "pending w3 = []"
    using consume_b [OF r(4)] r(5,6) by auto
  have "fst (tunnel_rounds env inject consume n m ps ea' eb' w3) = ps"
    using Cons.IH [OF r(3) _ c(2-4)] Cons.prems(2,6) by simp
  with r c show ?case by (cases "tunnel_rounds env inject consume n m ps ea' eb' w3") simp
qed

end

section \<open>The development adapters as a link\<close>

text \<open>The queue an end with the given role writes to.\<close>

definition sent_by :: "Role \<Rightarrow> DevelopmentTransportLink \<Rightarrow> bytes list" where
  "sent_by role l = (if role = Client then lk_to_server l else lk_to_client l)"

definition dev_link_inv :: "nat \<Rightarrow> nat \<Rightarrow> TunnelConfig \<Rightarrow> TunnelConfig \<Rightarrow> nat \<Rightarrow> dev_world \<Rightarrow> bool" where
  "dev_link_inv i j ci cj a w \<longleftrightarrow>
     dvi_opened (dw_interfaces w i) \<and> dvi_opened (dw_interfaces w j) \<and>
     dw_transports w i = connected_to ci a \<and> dw_transports w j = connected_to cj a \<and>
     (\<exists>l. dw_heap w a = Some l \<and> sent_by (tc_role cj) l = []) \<and> \<not> dw_ub w"

definition dev_packet :: "nat \<Rightarrow> dev_world \<Rightarrow> bytes" where
  "dev_packet i w = dvi_packet (dw_interfaces w i)"

definition dev_in_flight :: "TunnelConfig \<Rightarrow> nat \<Rightarrow> dev_world \<Rightarrow> bytes list" where
  "dev_in_flight ci a w = (case dw_heap w a of None \<Rightarrow> [] | Some l \<Rightarrow> sent_by (tc_role ci) l)"

lemmas dev_observe_defs = dev_link_inv_def dev_packet_def dev_in_flight_def sent_by_def connected_to_def
  development_interface_def development_transport_def Let_def

lemma dev_one_way_link:
  assumes "i \<noteq> j" and "tc_role ci \<noteq> tc_role cj"
  shows "one_way_link (development_interface plat i) (development_transport i) (development_interface plat j)
    (development_transport j) (dev_link_inv i j ci cj a) (dev_packet i) (dev_packet j) (dev_in_flight ci a)
    (inject_inbound_packet i) (dev_vi_read_packet j)"
proof (unfold_locales, goal_cases)
  case (1 w)
  then show ?case using assms by (auto simp: dev_observe_defs dev_vi_read_packet_def)
next
  case (2 w c)
  then show ?case using assms
    by (cases "tc_role ci"; cases "tc_role cj") (auto simp: dev_observe_defs dev_st_send_payload_def)
next
  case (3 w)
  then show ?case using assms
    by (cases "tc_role ci"; cases "tc_role cj") (auto simp: dev_observe_defs dev_st_try_receive_payload_def)
next
  case (4 w)
  then show ?case using assms by (auto simp: dev_observe_defs dev_vi_read_packet_def)
next
  case (5 w)
  then show ?case using assms
    by (cases "tc_role ci"; cases "tc_role cj")
      (auto simp: dev_observe_defs dev_st_try_receive_payload_def split: list.splits)
next
  case (6 w p)
  then show ?case using assms by (auto simp: dev_observe_defs dev_vi_write_packet_def)
next
  case (7 w p)
  then show ?case using assms by (auto simp: dev_observe_defs inject_inbound_packet_def)
next
  case (8 w)
  then show ?case using assms by (auto simp: dev_observe_defs dev_vi_read_packet_def)
qed

text \<open>Client to server, and server to client; object 0 is the client's, object 1 the server's.\<close>

interpretation dev_up: one_way_link
  "development_interface plat 0" "development_transport 0" "development_interface plat 1" "development_transport 1"
  "dev_link_inv 0 1 (cc\<lparr>tc_role := Client\<rparr>) (cs\<lparr>tc_role := Server\<rparr>) a" "dev_packet 0" "dev_packet 1"
  "dev_in_flight (cc\<lparr>tc_role := Client\<rparr>) a" "inject_inbound_packet 0" "dev_vi_read_packet 1"
  for plat cc cs a
  by (rule dev_one_way_link) simp_all

interpretation dev_down: one_way_link
  "development_interface plat 1" "development_transport 1" "development_interface plat 0" "development_transport 0"
  "dev_link_inv 1 0 (cs\<lparr>tc_role := Server\<rparr>) (cc\<lparr>tc_role := Client\<rparr>) a" "dev_packet 1" "dev_packet 0"
  "dev_in_flight (cs\<lparr>tc_role := Server\<rparr>) a" "inject_inbound_packet 1" "dev_vi_read_packet 0"
  for plat cc cs a
  by (rule dev_one_way_link) simp_all

section \<open>Starting both engines\<close>

lemma start_client_success:
  assumes "is_valid (env_platform env) (env_net env) c = None" and "tc_role c = Client"
    and "create_inner_session (env_platform env) (env_bcrypt env) (tc_inner c) = Some s" and "inner_is_ready s"
    and "vi_open vi (tc_mtu c) w = (True, w1)" and "st_connect st c w1 = (True, w2)"
    and "st_perform_handshake st w2 = (True, w3)" and "st_open_data_channel st w3 = (True, w4)"
    and "vi_apply_client_routing vi c w4 = (None, w5)"
  shows "\<exists>e. start env (new_engine c (Some vi) (Some st) None) w = (True, e, w5) \<and> engine_at vi st s e \<and> te_config e = c"
  using assms
  by (simp add: start_def new_engine_def start_inner_def start_buffers_def start_connect_def start_connected_def
      start_client_def engine_transition_def transition_to_eq new_session_def inner_ready_def engine_at_def
      engine_state_def split: prod.splits)

lemma start_server_success:
  assumes "is_valid (env_platform env) (env_net env) c = None" and "tc_role c = Server"
    and "create_inner_session (env_platform env) (env_bcrypt env) (tc_inner c) = Some s" and "inner_is_ready s"
    and "vi_open vi (tc_mtu c) w = (True, w1)" and "st_connect st c w1 = (True, w2)"
    and "st_perform_handshake st w2 = (True, w3)"
  shows "\<exists>e. start env (new_engine c (Some vi) (Some st) None) w = (True, e, w3) \<and> te_config e = c \<and>
     te_interface e = Some vi \<and> te_transport e = Some st \<and> te_inner e = Some s \<and> engine_state e = Handshaking"
  using assms
  by (simp add: start_def new_engine_def start_inner_def start_buffers_def start_connect_def start_connected_def
      start_server_def engine_transition_def transition_to_eq new_session_def inner_ready_def
      engine_state_def split: prod.splits)

text \<open>Conversely, a start that succeeds made these calls.\<close>

lemma start_client_calls:
  assumes "start env (new_engine c (Some vi) (Some st) None) w = (True, e, w')" and "tc_role c = Client"
  obtains s w1 w2 w3 w4 where "create_inner_session (env_platform env) (env_bcrypt env) (tc_inner c) = Some s"
    and "vi_open vi (tc_mtu c) w = (True, w1)" and "st_connect st c w1 = (True, w2)"
    and "st_perform_handshake st w2 = (True, w3)" and "st_open_data_channel st w3 = (True, w4)"
    and "vi_apply_client_routing vi c w4 = (None, w')" and "engine_at vi st s e"
proof -
  obtain a w1 where o: "vi_open vi (tc_mtu c) w = (a, w1)" by fastforce
  obtain b w2 where c: "st_connect st c w1 = (b, w2)" by fastforce
  obtain d w3 where h: "st_perform_handshake st w2 = (d, w3)" by fastforce
  obtain f w4 where q: "st_open_data_channel st w3 = (f, w4)" by fastforce
  obtain g w5 where r: "vi_apply_client_routing vi c w4 = (g, w5)" by fastforce
  note run = assms o c h q r
  have "\<exists>s. create_inner_session (env_platform env) (env_bcrypt env) (tc_inner c) = Some s \<and> a \<and> b \<and> d \<and> f \<and> g = None \<and> w' = w5 \<and>
      engine_at vi st s e"
    using run
    by (auto simp: start_def new_engine_def start_inner_def start_buffers_def start_connect_def start_connected_def
      start_client_def engine_transition_def engine_fail_def transition_to_eq new_session_def engine_at_def
      engine_state_def split: prod.splits if_splits option.splits)
  then obtain s where s: "create_inner_session (env_platform env) (env_bcrypt env) (tc_inner c) = Some s" "engine_at vi st s e"
    and ok: "a" "b" "d" "f" "g = None" "w' = w5" by blast
  show ?thesis by (rule that [of s w1 w2 w3 w4]) (use s ok o c h q r in simp_all)
qed

lemma start_server_calls:
  assumes "start env (new_engine c (Some vi) (Some st) None) w = (True, e, w')" and "tc_role c = Server"
  obtains s w1 w2 where "create_inner_session (env_platform env) (env_bcrypt env) (tc_inner c) = Some s"
    and "vi_open vi (tc_mtu c) w = (True, w1)" and "st_connect st c w1 = (True, w2)"
    and "st_perform_handshake st w2 = (True, w')" and "te_config e = c" and "te_interface e = Some vi"
    and "te_transport e = Some st" and "te_inner e = Some s" and "engine_state e = Handshaking"
proof -
  obtain a w1 where o: "vi_open vi (tc_mtu c) w = (a, w1)" by fastforce
  obtain b w2 where c: "st_connect st c w1 = (b, w2)" by fastforce
  obtain d w3 where h: "st_perform_handshake st w2 = (d, w3)" by fastforce
  note run = assms o c h
  have "\<exists>s. create_inner_session (env_platform env) (env_bcrypt env) (tc_inner c) = Some s \<and> a \<and> b \<and> d \<and> w' = w3 \<and>
      te_config e = c \<and> te_interface e = Some vi \<and> te_transport e = Some st \<and> te_inner e = Some s \<and> engine_state e = Handshaking"
    using run
    by (auto simp: start_def new_engine_def start_inner_def start_buffers_def start_connect_def start_connected_def
      start_server_def engine_transition_def engine_fail_def transition_to_eq new_session_def
      engine_state_def split: prod.splits if_splits option.splits)
  then obtain s where s: "create_inner_session (env_platform env) (env_bcrypt env) (tc_inner c) = Some s" "te_inner e = Some s"
    and ok: "a" "b" "d" "w' = w3" "te_config e = c" "te_interface e = Some vi" "te_transport e = Some st"
      "engine_state e = Handshaking" by blast
  show ?thesis by (rule that [of s w1 w2]) (use s ok o c h in simp_all)
qed

lemma ensure_session_ready_calls:
  assumes "ensure_session_ready e w = (True, e', w')" and "te_config e = c" and "tc_role c = Server"
    and "te_interface e = Some vi" and "te_transport e = Some st" and "te_inner e = Some s" and "engine_state e = Handshaking"
  obtains w1 where "st_open_data_channel st w = (True, w1)" and "vi_apply_client_routing vi c w1 = (None, w')"
    and "engine_at vi st s e'"
proof -
  obtain a w1 where o: "st_open_data_channel st w = (a, w1)" by fastforce
  obtain g w2 where r: "vi_apply_client_routing vi c w1 = (g, w2)" by fastforce
  have "a \<and> g = None \<and> w' = w2 \<and> engine_at vi st s e'"
    using assms o r
    by (auto simp: ensure_session_ready_def engine_state_def engine_transition_def engine_fail_def transition_to_eq
      engine_at_def split: if_splits)
  then show ?thesis by (intro that [of w1]) (use o r in simp_all)
qed

text \<open>The first relay of a waiting server whose channel opens at once continues as established.\<close>

lemma relay_batch_first:
  assumes "te_config e = c" and "tc_role c = Server" and "te_interface e = Some vi" and "te_transport e = Some st"
    and "te_inner e = Some s" and "engine_state e = Handshaking"
    and "st_open_data_channel st w = (True, w)" and "vi_apply_client_routing vi c w = (None, w)"
  shows "relay_batch env m e w = relay_batch env m (snd (engine_transition Established e)) w"
  using assms
  by (simp add: relay_batch_def ensure_session_ready_def engine_state_def engine_transition_def transition_to_eq)

lemma transition_engine_at:
  assumes "te_interface e = Some vi" and "te_transport e = Some st" and "te_inner e = Some s" and "engine_state e = Handshaking"
  shows "engine_at vi st s (snd (engine_transition Established e))"
  using assms by (simp add: engine_at_def engine_transition_def transition_to_eq engine_state_def)

lemma valid_config_facts:
  assumes "is_valid plat net c = None"
  shows "tc_endpoint c \<noteq> []" and "tc_port c \<noteq> 0" and "1280 \<le> tc_mtu c" and "tc_mtu c \<le> 1420"
    and "plat = Windows \<Longrightarrow> tc_role c = Server \<Longrightarrow> \<not> routing_active c"
  using assms by (auto simp: is_valid_None_iff config_policy_def routing_policy_def)

lemma base_routing_inactive:
  "plat = Windows \<longrightarrow> \<not> routing_active c \<Longrightarrow> base_apply_client_routing plat c w = (None, w)"
  by (auto simp: base_apply_client_routing_def routing_active_def)

lemma dev_client_world:
  assumes "tc_endpoint c \<noteq> []" and "tc_port c \<noteq> 0" and "1280 \<le> tc_mtu c" and "tc_mtu c \<le> 1420"
    and "dw_g_links w (tc_port c) = None" and "\<not> dw_ub w" and "dvi_packet (dw_interfaces w i) = []"
  obtains w1 w2 a where "vi_open (development_interface plat i) (tc_mtu c) w = (True, w1)"
    and "st_connect (development_transport i) c w1 = (True, w2)"
    and "dw_transports w2 = (dw_transports w)(i := connected_to c a)"
    and "dw_interfaces w2 = (dw_interfaces w)(i := \<lparr>dvi_opened = True, dvi_packet = []\<rparr>)"
    and "dw_g_links w2 (tc_port c) = Some a" and "dw_heap w2 a = Some \<lparr>lk_to_server = [], lk_to_client = []\<rparr>"
    and "\<not> dw_ub w2"
proof -
  let ?w1 = "w\<lparr>dw_interfaces := (dw_interfaces w)(i := (dw_interfaces w i)\<lparr>dvi_opened := True\<rparr>)\<rparr>"
  let ?l = "link_for_port (tc_port c) ?w1"
  have o: "vi_open (development_interface plat i) (tc_mtu c) w = (True, ?w1)"
    using assms(3,4) by (simp add: development_interface_def dev_vi_open_def)
  have c: "st_connect (development_transport i) c ?w1 = (True, set_transport i (connected_to c (fst ?l)) (snd ?l))"
    using assms(1,2) by (simp add: development_transport_def dev_st_connect_True_iff)
  have heap: "dw_heap (snd ?l) (fst ?l) = Some \<lparr>lk_to_server = [], lk_to_client = []\<rparr>"
    using assms(5) by (simp add: link_for_port_def)
  have packet: "(dw_interfaces w i)\<lparr>dvi_opened := True\<rparr> = \<lparr>dvi_opened = True, dvi_packet = []\<rparr>"
    using assms(7) by (cases "dw_interfaces w i") simp
  show ?thesis
    by (rule that [OF o c]) (use assms(6) heap packet in \<open>simp_all add: link_for_port_spec\<close>)
qed

lemma dev_server_world:
  assumes "tc_endpoint c \<noteq> []" and "tc_port c \<noteq> 0" and "1280 \<le> tc_mtu c" and "tc_mtu c \<le> 1420"
    and "dw_g_links w (tc_port c) = Some a" and "dvi_packet (dw_interfaces w j) = []"
  obtains w1 w2 where "vi_open (development_interface plat j) (tc_mtu c) w = (True, w1)"
    and "st_connect (development_transport j) c w1 = (True, w2)"
    and "dw_transports w2 = (dw_transports w)(j := connected_to c a)"
    and "dw_interfaces w2 = (dw_interfaces w)(j := \<lparr>dvi_opened = True, dvi_packet = []\<rparr>)"
    and "dw_heap w2 = dw_heap w" and "dw_ub w2 = dw_ub w"
proof -
  let ?w1 = "w\<lparr>dw_interfaces := (dw_interfaces w)(j := (dw_interfaces w j)\<lparr>dvi_opened := True\<rparr>)\<rparr>"
  have o: "vi_open (development_interface plat j) (tc_mtu c) w = (True, ?w1)"
    using assms(3,4) by (simp add: development_interface_def dev_vi_open_def)
  have "link_for_port (tc_port c) ?w1 = (a, ?w1)" using assms(5) by (simp add: link_for_port_again)
  then have c: "st_connect (development_transport j) c ?w1 = (True, set_transport j (connected_to c a) ?w1)"
    using assms(1,2) by (simp add: development_transport_def dev_st_connect_True_iff)
  have packet: "(dw_interfaces w j)\<lparr>dvi_opened := True\<rparr> = \<lparr>dvi_opened = True, dvi_packet = []\<rparr>"
    using assms(6) by (cases "dw_interfaces w j") simp
  show ?thesis by (rule that [OF o c]) (use packet in simp_all)
qed

text \<open>Both engines started on a fresh process are linked.\<close>

lemma dev_tunnel_started:
  assumes aead: "aead_correct (env_bcrypt env)"
    and valid: "is_valid (env_platform env) (env_net env) cc = None" "is_valid (env_platform env) (env_net env) cs = None"
    and role: "tc_role cc = Client" "tc_role cs = Server" and port: "tc_port cs = tc_port cc"
    and same: "tc_inner cs = tc_inner cc"
    and inner: "create_inner_session (env_platform env) (env_bcrypt env) (tc_inner cc) = Some s"
    and routing: "env_platform env = Windows \<longrightarrow> \<not> routing_active cc"
  shows "\<exists>ea eb w1 w2 a.
    start env (new_engine cc (Some (development_interface (env_platform env) 0)) (Some (development_transport 0)) None)
      new_dev_world = (True, ea, w1) \<and>
    start env (new_engine cs (Some (development_interface (env_platform env) 1)) (Some (development_transport 1)) None)
      w1 = (True, eb, w2) \<and>
    engines_linked (env_bcrypt env) (development_interface (env_platform env) 0) (development_transport 0)
      (development_interface (env_platform env) 1) (development_transport 1) 0 ea (snd (engine_transition Established eb)) \<and>
    dev_link_inv 0 1 cc cs a w2 \<and> dev_packet 1 w2 = [] \<and> dev_in_flight cc a w2 = [] \<and>
    te_config eb = cs \<and> te_interface eb = Some (development_interface (env_platform env) 1) \<and>
    te_transport eb = Some (development_transport 1) \<and> te_inner eb = Some s \<and> engine_state eb = Handshaking"
proof -
  let ?p = "env_platform env"
  note created = created_sessions_linked [OF aead inner]
  note vc = valid_config_facts [OF valid(1)] and vs = valid_config_facts [OF valid(2)]
  obtain w1 w2 a where w2: "vi_open (development_interface ?p 0) (tc_mtu cc) new_dev_world = (True, w1)"
      "st_connect (development_transport 0) cc w1 = (True, w2)"
      "dw_transports w2 = (dw_transports new_dev_world)(0 := connected_to cc a)"
      "dw_interfaces w2 = (dw_interfaces new_dev_world)(0 := \<lparr>dvi_opened = True, dvi_packet = []\<rparr>)"
      "dw_g_links w2 (tc_port cc) = Some a" "dw_heap w2 a = Some \<lparr>lk_to_server = [], lk_to_client = []\<rparr>" "\<not> dw_ub w2"
    by (rule dev_client_world [OF vc(1-4), of new_dev_world 0 ?p]) (simp_all add: new_dev_world_def new_dev_interface_def)
  obtain ea where ea: "start env (new_engine cc (Some (development_interface ?p 0)) (Some (development_transport 0)) None)
      new_dev_world = (True, ea, w2)" "engine_at (development_interface ?p 0) (development_transport 0) s ea"
    using start_client_success [OF valid(1) role(1) inner _ w2(1,2), of w2 w2 w2] created w2(3) routing
    by (auto simp: development_transport_def development_interface_def dev_st_perform_handshake_def
        dev_st_open_data_channel_def connected_to_def base_routing_inactive)
  obtain w3 w4 where w4: "vi_open (development_interface ?p 1) (tc_mtu cs) w2 = (True, w3)"
      "st_connect (development_transport 1) cs w3 = (True, w4)"
      "dw_transports w4 = (dw_transports w2)(1 := connected_to cs a)"
      "dw_interfaces w4 = (dw_interfaces w2)(1 := \<lparr>dvi_opened = True, dvi_packet = []\<rparr>)"
      "dw_heap w4 = dw_heap w2" "dw_ub w4 = dw_ub w2"
    by (rule dev_server_world [OF vs(1-4), of w2 a 1 ?p])
      (use w2(4,5) port in \<open>simp_all add: new_dev_world_def new_dev_interface_def\<close>)
  obtain eb where eb: "start env (new_engine cs (Some (development_interface ?p 1)) (Some (development_transport 1)) None)
      w2 = (True, eb, w4)" "te_config eb = cs" "te_interface eb = Some (development_interface ?p 1)"
      "te_transport eb = Some (development_transport 1)" "te_inner eb = Some s" "engine_state eb = Handshaking"
    using start_server_success [OF valid(2) role(2), of s, unfolded same, OF inner _ w4(1,2), of w4] created w4(3)
    by (auto simp: development_transport_def dev_st_perform_handshake_def connected_to_def)
  have "engines_linked (env_bcrypt env) (development_interface ?p 0) (development_transport 0)
      (development_interface ?p 1) (development_transport 1) 0 ea (snd (engine_transition Established eb))"
    unfolding engines_linked_def using ea(2) transition_engine_at [OF eb(3-6)] created
    by (intro exI [of _ s] conjI) simp_all
  moreover have "dev_link_inv 0 1 cc cs a w4" "dev_packet 1 w4 = []" "dev_in_flight cc a w4 = []"
    using w2 w4 role by (auto simp: dev_link_inv_def dev_packet_def dev_in_flight_def sent_by_def)
  ultimately show ?thesis using ea(1) eb by blast
qed

text \<open>An environment over the development world: its own clock, no signals.\<close>

definition dev_env :: "platform \<Rightarrow> dev_world net_api \<Rightarrow> bcrypt_api \<Rightarrow> dev_world engine_env" where
  "dev_env plat net api =
     \<lparr>env_platform = plat, env_net = net, env_bcrypt = api,
      env_now = (\<lambda>w. (dw_clock w, w\<lparr>dw_clock := dw_clock w + 1\<rparr>)),
      env_sleep = (\<lambda>n w. w\<lparr>dw_clock := dw_clock w + n\<rparr>), env_signal = (\<lambda>w. (No_Signal, w))\<rparr>"

lemma dev_clock_calls:
  "dw_clock (snd (dev_vi_open i mtu w)) = dw_clock w" "dw_clock (snd (dev_vi_read_packet i w)) = dw_clock w"
  "dw_clock (snd (dev_vi_write_packet i p w)) = dw_clock w" "dw_clock (dev_vi_close i w) = dw_clock w"
  "dw_clock (snd (dev_st_connect i c w)) = dw_clock w" "dw_clock (snd (dev_st_send_payload i p w)) = dw_clock w"
  "dw_clock (snd (dev_st_try_receive_payload i w)) = dw_clock w" "dw_clock (dev_st_close i w) = dw_clock w"
proof -
  show "dw_clock (snd (dev_st_connect i c w)) = dw_clock w"
    using link_for_port_spec(5) [of "tc_port c" w]
    by (cases "link_for_port (tc_port c) w") (simp add: dev_st_connect_def Let_def)
qed (simp_all add: dev_vi_defs dev_st_send_payload_def dev_st_try_receive_payload_def dev_st_close_def
      reset_link_for_port_def Let_def split: option.splits list.splits)

interpretation dev_clock: clocked_engine
  "dev_env plat net api" "development_interface plat i" "development_transport i" dw_clock
  for plat net api i
  by unfold_locales
    (simp_all add: clock_advances_def forward_defs dev_env_def dev_clock_calls
      development_interface_def development_transport_def base_apply_client_routing_def
      base_clear_client_routing_def dev_st_perform_handshake_def dev_st_open_data_channel_def)

text \<open>The data plane of an engine on the development adapters returns.\<close>

lemma dev_data_plane_returns:
  "te_interface e = Some (development_interface plat i) \<Longrightarrow> te_transport e = Some (development_transport i) \<Longrightarrow>
     \<exists>e' w'. data_plane_loop (dev_env plat net api) deadline n e w = Some (e', w')"
  using dev_clock.loop_returns [of plat i e net api deadline n w] by (simp add: engine_fits_def) blast

section \<open>Properties\<close>

text \<open>
  C4. Packets cross the tunnel unchanged and in order: a client and a server engine are
  constructed on the development adapters with valid configurations for the same port and
  the same inner key, and started; then every packet of 1 to 2048 bytes offered to the
  client's interface is on the server's interface after one relay of each engine, for any
  number of packets below \<open>2 ^ 64\<close>, any batch sizes, with or without AES-GCM, on both
  platforms.
\<close>

theorem dev_tunnel_delivers:
  assumes "aead_correct (env_bcrypt env)"
    and "is_valid (env_platform env) (env_net env) cc = None" and "is_valid (env_platform env) (env_net env) cs = None"
    and "tc_role cc = Client" and "tc_role cs = Server" and "tc_port cs = tc_port cc" and "tc_inner cs = tc_inner cc"
    and "create_inner_session (env_platform env) (env_bcrypt env) (tc_inner cc) = Some s"
    and "env_platform env = Windows \<longrightarrow> \<not> routing_active cc"
    and "length ps < 2 ^ 64" and "\<forall>p \<in> set ps. p \<noteq> [] \<and> length p \<le> 2048"
  shows "\<exists>ea eb w1 w2.
    start env (new_engine cc (Some (development_interface (env_platform env) 0)) (Some (development_transport 0)) None)
      new_dev_world = (True, ea, w1) \<and>
    start env (new_engine cs (Some (development_interface (env_platform env) 1)) (Some (development_transport 1)) None)
      w1 = (True, eb, w2) \<and>
    fst (tunnel_rounds env (inject_inbound_packet 0) (dev_vi_read_packet 1) n m ps ea eb w2) = ps"
proof -
  let ?p = "env_platform env"
  have cc: "cc\<lparr>tc_role := Client\<rparr> = cc" using assms(4) by (cases cc) simp
  have cs: "cs\<lparr>tc_role := Server\<rparr> = cs" using assms(5) by (cases cs) simp
  note deliver = dev_up.rounds_deliver [where cc = cc and cs = cs, unfolded cc cs]
  note cross = dev_up.packet_crosses [where cc = cc and cs = cs and n = n and m = m, unfolded cc cs]
  obtain ea eb w1 w2 a where st:
    "start env (new_engine cc (Some (development_interface ?p 0)) (Some (development_transport 0)) None)
      new_dev_world = (True, ea, w1)"
    "start env (new_engine cs (Some (development_interface ?p 1)) (Some (development_transport 1)) None)
      w1 = (True, eb, w2)"
    and link: "engines_linked (env_bcrypt env) (development_interface ?p 0) (development_transport 0)
      (development_interface ?p 1) (development_transport 1) 0 ea (snd (engine_transition Established eb))"
    and w2: "dev_link_inv 0 1 cc cs a w2" "dev_packet 1 w2 = []" "dev_in_flight cc a w2 = []"
    and eb: "te_config eb = cs" "te_interface eb = Some (development_interface ?p 1)"
      "te_transport eb = Some (development_transport 1)" "te_inner eb = Some s" "engine_state eb = Handshaking"
    using dev_tunnel_started [OF assms(1-9)] by blast
  let ?eb = "snd (engine_transition Established eb)"
  have all: "fst (tunnel_rounds env (inject_inbound_packet 0) (dev_vi_read_packet 1) n m ps ea ?eb w2) = ps"
    using deliver [OF link _ w2] assms(10,11) by simp
  have "tunnel_rounds env (inject_inbound_packet 0) (dev_vi_read_packet 1) n m ps ea eb w2
      = tunnel_rounds env (inject_inbound_packet 0) (dev_vi_read_packet 1) n m ps ea ?eb w2" if ne: "ps \<noteq> []"
  proof -
    obtain q qs where ps: "ps = q # qs" using ne by (cases ps) auto
    note i = dev_up.inject_a [where cc = cc and cs = cs, unfolded cc cs, OF w2(1), of q]
    have q: "q \<noteq> []" "length q \<le> 2048" using assms(11) ps by auto
    have w: "dev_link_inv 0 1 cc cs a (inject_inbound_packet 0 q w2)" "dev_packet 0 (inject_inbound_packet 0 q w2) = q"
      "dev_packet 1 (inject_inbound_packet 0 q w2) = []" "dev_in_flight cc a (inject_inbound_packet 0 q w2) = []"
      using i w2(2,3) by simp_all
    have room: "0 + 1 < (2 ^ 64 :: nat)" by simp
    from cross [OF link room w q] obtain ea1 w3
      where r: "relay_batch env n ea (inject_inbound_packet 0 q w2) = (True, ea1, w3)" "dev_link_inv 0 1 cc cs a w3"
      by blast
    have "relay_batch env m eb w3 = relay_batch env m ?eb w3"
    proof (rule relay_batch_first [OF eb(1) assms(5) eb(2-5)])
      show "st_open_data_channel (development_transport 1) w3 = (True, w3)"
        using r(2) by (simp add: development_transport_def dev_st_open_data_channel_def dev_link_inv_def connected_to_def)
      show "vi_apply_client_routing (development_interface ?p 1) cs w3 = (None, w3)"
        using valid_config_facts(5) [OF assms(3)] assms(5) by (simp add: development_interface_def base_routing_inactive)
    qed
    with r show ?thesis by (simp add: ps)
  qed
  with all st show ?thesis by (cases "ps = []") auto
qed

theorem dev_tunnel_delivers_witness:
  "\<forall>net. \<exists>ea eb w1 w2.
    start (dev_env Posix net identity_aead)
      (new_engine default_config (Some (development_interface Posix 0)) (Some (development_transport 0)) None)
      new_dev_world = (True, ea, w1) \<and>
    start (dev_env Posix net identity_aead)
      (new_engine (default_config\<lparr>tc_role := Server\<rparr>) (Some (development_interface Posix 1))
        (Some (development_transport 1)) None) w1 = (True, eb, w2) \<and>
    fst (tunnel_rounds (dev_env Posix net identity_aead) (inject_inbound_packet 0) (dev_vi_read_packet 1) 8 1
      [[0x45, 0, 0, 0x2A], [0x60, 1]] ea eb w2) = [[0x45, 0, 0, 0x2A], [0x60, 1]]"
proof
  fix net
  let ?env = "dev_env Posix net identity_aead"
  have env: "env_platform ?env = Posix" "env_bcrypt ?env = identity_aead" "env_net ?env = net"
    by (simp_all add: dev_env_def)
  have "\<exists>ea eb w1 w2.
    start ?env (new_engine default_config (Some (development_interface (env_platform ?env) 0)) (Some (development_transport 0)) None)
      new_dev_world = (True, ea, w1) \<and>
    start ?env (new_engine (default_config\<lparr>tc_role := Server\<rparr>) (Some (development_interface (env_platform ?env) 1))
        (Some (development_transport 1)) None) w1 = (True, eb, w2) \<and>
    fst (tunnel_rounds ?env (inject_inbound_packet 0) (dev_vi_read_packet 1) 8 1
      [[0x45, 0, 0, 0x2A], [0x60, 1]] ea eb w2) = [[0x45, 0, 0, 0x2A], [0x60, 1]]"
    by (rule dev_tunnel_delivers [where s = "Development new_dev_session"])
      (simp_all add: env identity_aead_correct is_valid_def default_config_def create_inner_session_def)
  then show "\<exists>ea eb w1 w2.
    start ?env (new_engine default_config (Some (development_interface Posix 0)) (Some (development_transport 0)) None)
      new_dev_world = (True, ea, w1) \<and>
    start ?env (new_engine (default_config\<lparr>tc_role := Server\<rparr>) (Some (development_interface Posix 1))
        (Some (development_transport 1)) None) w1 = (True, eb, w2) \<and>
    fst (tunnel_rounds ?env (inject_inbound_packet 0) (dev_vi_read_packet 1) 8 1
      [[0x45, 0, 0, 0x2A], [0x60, 1]] ea eb w2) = [[0x45, 0, 0, 0x2A], [0x60, 1]]"
    by (simp only: env)
qed

end
