(* ===== verification/Quic_Framing.thy ===== *)
theory Quic_Framing
  imports Prelude
begin

text \<open>
  The framing of payloads on a QUIC stream in \<^verbatim>\<open>src/quic_secure_transport.cpp\<close>: the length prefix
  that \<open>send_payload\<close> writes, the reassembly of \<open>append_received_bytes\<close>, and the hexadecimal
  decoder of certificate fingerprints. QUIC delivers the bytes of a stream in order but cut
  anywhere; reassembly is proved to be independent of the cuts.
\<close>

section \<open>The stream channel\<close>

text \<open>\<open>ch_stream\<close> is the stream handle; \<open>ch_msquic\<close> whether the API pointer is set.\<close>

record StreamChannel =
  ch_frames :: "bytes list"
  ch_reassembly :: bytes
  ch_ready :: bool
  ch_send_complete :: bool
  ch_stream :: "nat option"
  ch_msquic :: bool

definition new_stream_channel :: StreamChannel where
  "new_stream_channel =
     \<lparr>ch_frames = [], ch_reassembly = [], ch_ready = False, ch_send_complete = True,
      ch_stream = None, ch_msquic = False\<rparr>"

text \<open>The buffer \<open>send_payload\<close> builds: four bytes of length, most significant first, and the payload.\<close>

definition frame_payload :: "bytes \<Rightarrow> bytes" where
  "frame_payload payload =
     (let size = (of_nat (length payload) :: u32) in
      [ucast (drop_bit 24 size AND 0xFF), ucast (drop_bit 16 size AND 0xFF),
       ucast (drop_bit 8 size AND 0xFF), ucast (size AND 0xFF)] @ payload)"

definition frame_size :: "bytes \<Rightarrow> u32" where
  "frame_size r =
     push_bit 24 (ucast (r ! 0)) OR push_bit 16 (ucast (r ! 1)) OR push_bit 8 (ucast (r ! 2)) OR ucast (r ! 3)"

text \<open>The loop of \<open>append_received_bytes\<close>: complete frames leave the reassembly buffer.\<close>

function extract_frames :: "bytes list \<Rightarrow> bytes \<Rightarrow> bytes list \<times> bytes" where
  "extract_frames frames r =
     (if 4 \<le> length r
      then
        (if frame_size r = 0 \<or> 65536 < frame_size r then (frames, [])
         else if length r < 4 + unat (frame_size r) then (frames, r)
         else extract_frames (frames @ [take (unat (frame_size r)) (drop 4 r)]) (drop (4 + unat (frame_size r)) r))
      else (frames, r))"
  by pat_completeness auto
termination by (relation "measure (\<lambda>(_, r). length r)") auto

declare extract_frames.simps [simp del]

definition append_received_bytes :: "bytes list \<Rightarrow> StreamChannel \<Rightarrow> StreamChannel" where
  "append_received_bytes buffers ch =
     (case extract_frames (ch_frames ch) (ch_reassembly ch @ concat buffers) of
        (frames, r) \<Rightarrow> ch\<lparr>ch_frames := frames, ch_reassembly := r\<rparr>)"

section \<open>Fingerprints\<close>

definition decode_hex_nibble :: "char \<Rightarrow> u8" where
  "decode_hex_nibble c =
     (let n = (of_char c :: nat) in
      if 48 \<le> n \<and> n \<le> 57 then of_nat (n - 48)
      else if 97 \<le> n \<and> n \<le> 102 then of_nat (10 + n - 97)
      else if 65 \<le> n \<and> n \<le> 70 then of_nat (10 + n - 65)
      else 0)"

fun decode_hex_bytes :: "string \<Rightarrow> bytes" where
  "decode_hex_bytes (h # l # rest) =
     (push_bit 4 (decode_hex_nibble h) OR decode_hex_nibble l) # decode_hex_bytes rest"
| "decode_hex_bytes _ = []"

text \<open>The bytes written, or \<open>None\<close> when the text does not fit into \<open>cap\<close> bytes.\<close>

definition decode_hex_buffer :: "string \<Rightarrow> nat \<Rightarrow> bytes option" where
  "decode_hex_buffer hex cap =
     (if length hex mod 2 \<noteq> 0 \<or> cap < length hex div 2 then None else Some (decode_hex_bytes hex))"

section \<open>Reading a frame back\<close>

lemma frame_payload_eq: "frame_payload p = be_bytes 4 (of_nat (length p) :: u32) @ p"
  by (simp add: frame_payload_def numeral_eq_Suc Let_def)

lemma length_frame_payload [simp]: "length (frame_payload p) = 4 + length p"
  by (simp add: frame_payload_eq)

lemma be_value_4:
  "be_value 0 [a, b, c, d] = (push_bit 24 (ucast a) OR push_bit 16 (ucast b) OR push_bit 8 (ucast c) OR ucast d :: u32)"
  by (rule bit_word_eqI) (auto simp: bit_or_iff bit_push_bit_iff)

lemma frame_size_eq:
  assumes "4 \<le> length r"
  shows "frame_size r = be_value 0 (take 4 r)"
proof -
  from assms obtain a b c d s where "r = a # b # c # d # s"
    by (auto simp: numeral_eq_Suc Suc_le_length_iff)
  then have n: "r ! 0 = a" "r ! 1 = b" "r ! 2 = c" "r ! 3 = d" "take 4 r = [a, b, c, d]"
    by (simp_all add: numeral_eq_Suc)
  show ?thesis unfolding frame_size_def n be_value_4 ..
qed

lemma frame_size_written:
  assumes "length p < 2 ^ 32"
  shows "frame_size (frame_payload p @ s) = of_nat (length p)" and "unat (frame_size (frame_payload p @ s)) = length p"
proof -
  show "frame_size (frame_payload p @ s) = of_nat (length p)"
    by (simp add: frame_size_eq frame_payload_eq be_value_be_bytes)
  then show "unat (frame_size (frame_payload p @ s)) = length p"
    using assms by (simp add: unat_of_nat take_bit_nat_eq_self_iff)
qed

definition payload_ok :: "bytes \<Rightarrow> bool" where
  "payload_ok p \<longleftrightarrow> p \<noteq> [] \<and> length p \<le> 65536"

lemma payload_size_ok:
  assumes "payload_ok p"
  shows "unat (frame_size (frame_payload p @ s)) = length p"
    and "\<not> (frame_size (frame_payload p @ s) = 0 \<or> 65536 < frame_size (frame_payload p @ s))"
proof -
  show u: "unat (frame_size (frame_payload p @ s)) = length p"
    using frame_size_written(2) [of p s] assms by (simp add: payload_ok_def)
  show "\<not> (frame_size (frame_payload p @ s) = 0 \<or> 65536 < frame_size (frame_payload p @ s))"
    using u assms by (auto simp: payload_ok_def word_less_nat_alt)
qed

text \<open>A complete frame is extracted; an incomplete one waits.\<close>

lemma extract_complete:
  assumes "payload_ok p"
  shows "extract_frames frames (frame_payload p @ s) = extract_frames (frames @ [p]) s"
proof -
  have "drop (4 + length p) (frame_payload p @ s) = s" by (rule drop_exact) simp
  moreover have "take (length p) (drop 4 (frame_payload p @ s)) = p" by (simp add: frame_payload_eq)
  ultimately show ?thesis
    using payload_size_ok [OF assms, of s] by (subst extract_frames.simps) simp
qed

lemma extract_short: "length r < 4 \<Longrightarrow> extract_frames frames r = (frames, r)"
  by (subst extract_frames.simps) simp

lemma extract_incomplete:
  assumes "payload_ok p" and "r @ t = frame_payload p" and "t \<noteq> []"
  shows "extract_frames frames r = (frames, r)"
proof (cases "4 \<le> length r")
  case False
  then show ?thesis by (simp add: extract_short)
next
  case True
  have len: "length r < 4 + length p"
    using assms(2,3) by (metis length_append length_frame_payload length_greater_0_conv less_add_same_cancel1)
  have "take 4 r = take 4 (frame_payload p)" using True by (simp flip: assms(2))
  then have "frame_size r = frame_size (frame_payload p)" using True by (simp add: frame_size_eq)
  with payload_size_ok [OF assms(1), of "[]"] len True show ?thesis by (subst extract_frames.simps) simp
qed

text \<open>The frames of a stream of well-formed payloads, whatever part of it has arrived.\<close>

lemma extract_prefix:
  "(\<forall>p \<in> set ps. payload_ok p) \<Longrightarrow> r @ t = concat (map frame_payload ps) \<Longrightarrow>
     \<exists>qs qs' u. ps = qs @ qs' \<and> extract_frames frames r = (frames @ qs, u) \<and>
        u @ t = concat (map frame_payload qs') \<and>
        (\<forall>p rest. qs' = p # rest \<longrightarrow> length u < length (frame_payload p))"
proof (induction ps arbitrary: r frames)
  case Nil
  then show ?case by (intro exI [of _ "[]"]) (simp add: extract_short)
next
  case (Cons p ps)
  have ok: "payload_ok p" using Cons.prems(1) by simp
  show ?case
  proof (cases "length (frame_payload p) \<le> length r")
    case True
    let ?s = "drop (length (frame_payload p)) r"
    have "take (length (frame_payload p)) (r @ t) = frame_payload p" using Cons.prems(2) by simp
    then have r: "r = frame_payload p @ ?s" using True by (metis append_take_drop_id take_append diff_is_0_eq' take0 append_Nil2)
    then have "?s @ t = concat (map frame_payload ps)" using Cons.prems(2) by (metis append.assoc concat.simps(2) list.simps(9) same_append_eq)
    then obtain qs qs' u where ih: "ps = qs @ qs'" "extract_frames (frames @ [p]) ?s = (frames @ [p] @ qs, u)"
        "u @ t = concat (map frame_payload qs')" "\<forall>p rest. qs' = p # rest \<longrightarrow> length u < length (frame_payload p)"
      using Cons.IH [of ?s "frames @ [p]"] Cons.prems(1) by auto
    have "extract_frames frames r = (frames @ (p # qs), u)"
      using extract_complete [OF ok, of frames ?s] r ih(2) by simp
    with ih show ?thesis by (intro exI [of _ "p # qs"] exI [of _ qs'] exI [of _ u]) simp
  next
    case False
    let ?m = "drop (length r) (frame_payload p)"
    have "take (length r) (r @ t) = take (length r) (frame_payload p)" using Cons.prems(2) False by simp
    then have "r @ ?m = frame_payload p" by (metis append_eq_conv_conj append_take_drop_id)
    moreover have "?m \<noteq> []" using False by simp
    ultimately have "extract_frames frames r = (frames, r)" by (rule extract_incomplete [OF ok])
    with Cons.prems(2) False show ?thesis by (intro exI [of _ "[]"] exI [of _ "p # ps"] exI [of _ r]) simp
  qed
qed

section \<open>Reassembly\<close>

text \<open>A sequence of receive events, each a list of buffers.\<close>

definition receive_all :: "bytes list list \<Rightarrow> StreamChannel \<Rightarrow> StreamChannel" where
  "receive_all events ch = fold append_received_bytes events ch"

text \<open>The channel after part of a stream: the frames that are complete, the rest waiting.\<close>

definition channel_at :: "bytes list \<Rightarrow> bytes list \<Rightarrow> bytes \<Rightarrow> StreamChannel \<Rightarrow> bool" where
  "channel_at delivered waiting t ch \<longleftrightarrow>
     ch_frames ch = delivered \<and> ch_reassembly ch @ t = concat (map frame_payload waiting) \<and>
     (\<forall>p rest. waiting = p # rest \<longrightarrow> length (ch_reassembly ch) < length (frame_payload p))"

lemma append_received_step:
  assumes ok: "\<forall>p \<in> set waiting. payload_ok p" and at: "channel_at delivered waiting (concat buffers @ t) ch"
  obtains qs qs' where "waiting = qs @ qs'" and "channel_at (delivered @ qs) qs' t (append_received_bytes buffers ch)"
proof -
  have "(ch_reassembly ch @ concat buffers) @ t = concat (map frame_payload waiting)"
    using at by (simp add: channel_at_def)
  from extract_prefix [OF ok this, of "ch_frames ch"] obtain qs qs' u where
    e: "waiting = qs @ qs'" "extract_frames (ch_frames ch) (ch_reassembly ch @ concat buffers) = (ch_frames ch @ qs, u)"
      "u @ t = concat (map frame_payload qs')" "\<forall>p rest. qs' = p # rest \<longrightarrow> length u < length (frame_payload p)" by blast
  show ?thesis
    by (rule that [OF e(1)]) (use at e(2-4) in \<open>simp add: channel_at_def append_received_bytes_def\<close>)
qed

lemma receive_all_stream:
  "(\<forall>p \<in> set waiting. payload_ok p) \<Longrightarrow> channel_at delivered waiting (concat (map concat events) @ t) ch \<Longrightarrow>
     \<exists>qs qs'. waiting = qs @ qs' \<and> channel_at (delivered @ qs) qs' t (receive_all events ch)"
proof (induction events arbitrary: delivered waiting ch)
  case Nil
  then show ?case by (intro exI [of _ "[]"] exI [of _ waiting]) (simp add: receive_all_def)
next
  case (Cons ev events)
  then have "channel_at delivered waiting (concat ev @ concat (map concat events) @ t) ch" by simp
  from append_received_step [OF Cons.prems(1) this] obtain qs qs' where
    e: "waiting = qs @ qs'" "channel_at (delivered @ qs) qs' (concat (map concat events) @ t) (append_received_bytes ev ch)" .
  with Cons.prems(1) have "\<forall>p \<in> set qs'. payload_ok p" by simp
  from Cons.IH [OF this e(2)] obtain rs rs' where
    "qs' = rs @ rs'" "channel_at ((delivered @ qs) @ rs) rs' t (receive_all events (append_received_bytes ev ch))" by blast
  with e(1) show ?case by (intro exI [of _ "qs @ rs"] exI [of _ rs']) (simp add: receive_all_def)
qed

lemma receive_all_frame [simp]:
  "ch_ready (receive_all events ch) = ch_ready ch" "ch_stream (receive_all events ch) = ch_stream ch"
  "ch_send_complete (receive_all events ch) = ch_send_complete ch" "ch_msquic (receive_all events ch) = ch_msquic ch"
  by (induction events arbitrary: ch) (simp_all add: receive_all_def append_received_bytes_def split: prod.splits)

lemma length_decode_hex_bytes: "length (decode_hex_bytes hex) = length hex div 2"
  by (induction hex rule: decode_hex_bytes.induct) auto

text \<open>Every text of 40 characters is accepted as a fingerprint, also with characters that are not
  hexadecimal digits.\<close>

lemma fingerprint_digits_unchecked:
  assumes "length hex = 40"
  shows "\<exists>bs. decode_hex_buffer hex 20 = Some bs \<and> length bs = 20"
  using assms by (simp add: decode_hex_buffer_def length_decode_hex_bytes)

section \<open>Properties\<close>

text \<open>
  C8. The stream framing is independent of how QUIC cuts the stream: if the bytes of the
  receive events, together, are the frames of payloads of 1 to 65536 bytes, then however
  they are cut into events and buffers, the channel delivers exactly those payloads, in
  order, and keeps nothing back.
\<close>

theorem stream_reassembly_round_trip:
  assumes "\<forall>p \<in> set ps. p \<noteq> [] \<and> length p \<le> 65536"
    and "concat (map concat events) = concat (map frame_payload ps)"
    and "ch_reassembly ch = []"
  shows "ch_frames (receive_all events ch) = ch_frames ch @ ps \<and> ch_reassembly (receive_all events ch) = []"
proof -
  have ok: "\<forall>p \<in> set ps. payload_ok p" using assms(1) by (simp add: payload_ok_def)
  have "channel_at (ch_frames ch) ps (concat (map concat events) @ []) ch"
    using assms(2,3) by (simp add: channel_at_def)
  from receive_all_stream [OF ok this] obtain qs qs' where
    q: "ps = qs @ qs'" "channel_at (ch_frames ch @ qs) qs' [] (receive_all events ch)" by blast
  then have "qs' = []" by (cases qs') (auto simp: channel_at_def)
  with q show ?thesis by (simp add: channel_at_def)
qed

theorem stream_reassembly_round_trip_witness:
  "ch_frames (receive_all [[[0, 0]], [[0], [3, 7]], [[8, 9, 0, 0, 0], [1]], [[255]]] new_stream_channel)
     = [[7, 8, 9], [255]] \<and>
   ch_reassembly (receive_all [[[0, 0]], [[0], [3, 7]], [[8, 9, 0, 0, 0], [1]], [[255]]] new_stream_channel) = []"
proof -
  have "frame_payload [7, 8, 9] = [0, 0, 0, 3, 7, 8, 9]" "frame_payload [255] = [0, 0, 0, 1, 255]"
    by code_simp+
  with stream_reassembly_round_trip [of "[[7, 8, 9], [255]]"
      "[[[0, 0]], [[0], [3, 7]], [[8, 9, 0, 0, 0], [1]], [[255]]]" new_stream_channel]
  show ?thesis by (simp add: new_stream_channel_def)
qed

end
