(* ===== verification/Msquic_Api.thy ===== *)
theory Msquic_Api
  imports Prelude
begin

text \<open>
  The process-wide MsQuic loader of \<^verbatim>\<open>src/msquic_api.cpp\<close>: a reference count over
  \<open>MsQuicOpen2\<close> and \<open>MsQuicClose\<close>, which are parameters acting on the world. The mutex makes
  the two operations atomic.
\<close>

record MsQuicGlobals =
  mg_api :: bool
  mg_ref_count :: int

definition new_msquic_globals :: MsQuicGlobals where
  "new_msquic_globals = \<lparr>mg_api = False, mg_ref_count = 0\<rparr>"

definition msquic_acquire ::
  "('w \<Rightarrow> bool \<times> 'w) \<Rightarrow> MsQuicGlobals \<Rightarrow> 'w \<Rightarrow> bool \<times> MsQuicGlobals \<times> 'w" where
  "msquic_acquire open2 g w =
     (if \<not> mg_api g
      then
        (case open2 w of (ok, w1) \<Rightarrow>
           if \<not> ok then (False, g, w1)
           else (True, g\<lparr>mg_api := True, mg_ref_count := mg_ref_count g + 1\<rparr>, w1))
      else (True, g\<lparr>mg_ref_count := mg_ref_count g + 1\<rparr>, w))"

definition msquic_release :: "('w \<Rightarrow> 'w) \<Rightarrow> MsQuicGlobals \<Rightarrow> 'w \<Rightarrow> MsQuicGlobals \<times> 'w" where
  "msquic_release close_api g w =
     (if mg_ref_count g \<le> 0 then (g, w)
      else
        (let g1 = g\<lparr>mg_ref_count := mg_ref_count g - 1\<rparr> in
         if mg_ref_count g1 = 0 \<and> mg_api g1 then (g1\<lparr>mg_api := False\<rparr>, close_api w) else (g1, w)))"

section \<open>Sequences\<close>

text \<open>
  The world of the sequences is the list of the library calls that took effect. An
  acquisition carries what \<open>MsQuicOpen2\<close> answers if it is called.
\<close>

datatype msquic_call = Api_Opened | Api_Closed

datatype msquic_request = Acquire bool | Release

fun msquic_step :: "msquic_request \<Rightarrow> MsQuicGlobals \<times> msquic_call list \<Rightarrow> MsQuicGlobals \<times> msquic_call list" where
  "msquic_step (Acquire answer) (g, w) =
     snd (msquic_acquire (\<lambda>w. (answer, if answer then w @ [Api_Opened] else w)) g w)"
| "msquic_step Release (g, w) = msquic_release (\<lambda>w. w @ [Api_Closed]) g w"

definition msquic_run :: "msquic_request list \<Rightarrow> MsQuicGlobals \<times> msquic_call list" where
  "msquic_run rs = foldl (\<lambda>s r. msquic_step r s) (new_msquic_globals, []) rs"

text \<open>The specification: how many holders there are after a sequence of requests.\<close>

fun holders :: "msquic_request list \<Rightarrow> nat \<Rightarrow> nat" where
  "holders [] n = n"
| "holders (Acquire ok # rs) n = holders rs (if n = 0 \<and> \<not> ok then 0 else n + 1)"
| "holders (Release # rs) n = holders rs (n - 1)"

lemma holders_append: "holders (rs @ ss) n = holders ss (holders rs n)"
  by (induction rs n rule: holders.induct) auto

fun alternating :: "bool \<Rightarrow> msquic_call list \<Rightarrow> bool" where
  "alternating loaded [] = True"
| "alternating loaded (Api_Opened # cs) = (\<not> loaded \<and> alternating True cs)"
| "alternating loaded (Api_Closed # cs) = (loaded \<and> alternating False cs)"

fun loaded_after :: "bool \<Rightarrow> msquic_call list \<Rightarrow> bool" where
  "loaded_after loaded [] = loaded"
| "loaded_after loaded (c # cs) = loaded_after (c = Api_Opened) cs"

lemma alternating_snoc:
  "alternating b (cs @ [c]) \<longleftrightarrow> alternating b cs \<and> loaded_after b cs = (c = Api_Closed)"
  by (induction b cs rule: alternating.induct) (cases c; simp)+

lemma loaded_after_snoc: "loaded_after b (cs @ [c]) = (c = Api_Opened)"
  by (induction cs arbitrary: b) auto

lemma msquic_run_snoc: "msquic_run (rs @ [r]) = msquic_step r (msquic_run rs)"
  by (simp add: msquic_run_def)

lemma msquic_run_invariant:
  "msquic_run rs = (g, calls) \<Longrightarrow>
     mg_ref_count g = int (holders rs 0) \<and> mg_api g = (0 < holders rs 0) \<and>
     alternating False calls \<and> loaded_after False calls = mg_api g"
proof (induction rs arbitrary: g calls rule: rev_induct)
  case Nil
  then show ?case by (auto simp: msquic_run_def new_msquic_globals_def)
next
  case (snoc r rs)
  obtain g0 c0 where r0: "msquic_run rs = (g0, c0)" by fastforce
  note ih = snoc.IH [OF r0]
  show ?case
  proof (cases r)
    case (Acquire ok)
    with snoc.prems r0 ih show ?thesis
      by (auto simp: msquic_run_snoc msquic_acquire_def holders_append alternating_snoc loaded_after_snoc
          split: if_splits)
  next
    case Release
    with snoc.prems r0 ih show ?thesis
      by (auto simp: msquic_run_snoc msquic_release_def holders_append alternating_snoc loaded_after_snoc Let_def
          split: if_splits)
  qed
qed

section \<open>Properties\<close>

text \<open>
  C25. The library is loaded exactly while it is held: after any sequence of acquisitions and
  releases, also failed and superfluous ones, the reference count is the number of
  holders, the API table is present exactly when there is one, and the calls of
  \<open>MsQuicOpen2\<close> that succeeded and of \<open>MsQuicClose\<close> alternate, beginning with an open.
\<close>

theorem msquic_loaded_while_held:
  "(case msquic_run rs of (g, calls) \<Rightarrow>
      mg_ref_count g = int (holders rs 0) \<and> (mg_api g \<longleftrightarrow> 0 < holders rs 0) \<and>
      alternating False calls \<and> (loaded_after False calls \<longleftrightarrow> mg_api g))"
  using msquic_run_invariant [of rs] by (auto split: prod.splits)

end
