(* ===== verification/Quic_Transport.thy ===== *)
theory Quic_Transport
  imports Quic_Framing Msquic_Api Engine
begin

text \<open>
  The QUIC transport of \<^verbatim>\<open>src/quic_secure_transport.cpp\<close>: connecting, listening, the three MsQuic
  callbacks, the handshake and stream waits, sending, receiving, the reset for the next
  client and closing.

  MsQuic is a parameter: \<open>quic_api\<close> holds its calls, which act on a world of type \<open>'w\<close> and
  give \<open>None\<close> or \<open>False\<close> for a failed status. What MsQuic does on its own threads is the
  delivery of events to the callbacks; a wait on a condition variable yields the events
  delivered while it waits, and the receive operation first takes the events that have
  arrived. Between these points the operations are atomic. A pointer from a callback
  context to another object of the transport is a flag: set, or null.
\<close>

section \<open>Data\<close>

record HandshakeState =
  hs_connected :: bool
  hs_failed :: bool
  hs_shutdown_complete :: bool
  hs_status :: u32

definition new_handshake_state :: HandshakeState where
  "new_handshake_state =
     \<lparr>hs_connected = False, hs_failed = False, hs_shutdown_complete = False, hs_status = 0\<rparr>"

record ConnectionContext =
  cx_handshake :: bool
  cx_stream :: bool
  cx_role :: Role
  cx_msquic :: bool

record ServerContext =
  sc_handshake :: bool
  sc_stream :: bool
  sc_msquic :: bool
  sc_configuration :: "nat option"
  sc_connection_context :: bool

text \<open>The credential that is loaded: the filled-in part of \<open>StoredCredentials\<close>.\<close>

datatype StoredCredentials =
    Cred_Unset
  | Cred_Client (no_certificate_validation: bool)
  | Cred_Hash_Store bytes
  | Cred_File string string

record quic_settings =
  set_idle_timeout_ms :: u64
  set_peer_bidi_stream_count :: nat
  set_no_resume :: bool

datatype quic_failure =
    Api_Open_Failed
  | Registration_Failed
  | Registration_Missing
  | Configuration_Failed
  | Fingerprint_Invalid
  | Credential_Failed
  | Connection_Open_Failed
  | Listener_Open_Failed
  | Listener_Start_Failed
  | Handshake_Not_Initialised
  | Handshake_Timeout
  | Handshake_Failed u32
  | Quic_Not_Preferred
  | Not_Connected
  | Connection_Missing
  | Connection_Start_Failed
  | Listener_Not_Started
  | Stream_Not_Initialised
  | Stream_Ready_Timeout
  | Channel_Not_Open
  | Stream_Unavailable
  | Payload_Length_Invalid
  | Send_Blocked
  | Stream_Send_Failed
  | Send_Completion_Timeout

datatype quic_event =
    Ev_Stream_Receive "bytes list"
  | Ev_Stream_Send_Complete
  | Ev_Stream_Other
  | Ev_Connected nat
  | Ev_Peer_Stream_Started nat
  | Ev_Shutdown_By_Transport u32
  | Ev_Shutdown_Complete
  | Ev_Connection_Other
  | Ev_New_Connection nat
  | Ev_Listener_Other

text \<open>Handles are numbers. \<open>mq_wait\<close> and \<open>mq_poll\<close> give the events delivered meanwhile.\<close>

record 'w quic_api =
  mq_open2 :: "'w \<Rightarrow> bool \<times> 'w"
  mq_close :: "'w \<Rightarrow> 'w"
  mq_registration_open :: "'w \<Rightarrow> nat option \<times> 'w"
  mq_registration_close :: "nat \<Rightarrow> 'w \<Rightarrow> 'w"
  mq_configuration_open :: "nat \<Rightarrow> string \<Rightarrow> quic_settings \<Rightarrow> 'w \<Rightarrow> nat option \<times> 'w"
  mq_load_credential :: "nat \<Rightarrow> StoredCredentials \<Rightarrow> 'w \<Rightarrow> bool \<times> 'w"
  mq_configuration_close :: "nat \<Rightarrow> 'w \<Rightarrow> 'w"
  mq_connection_open :: "nat \<Rightarrow> 'w \<Rightarrow> nat option \<times> 'w"
  mq_connection_start :: "nat \<Rightarrow> nat \<Rightarrow> string \<Rightarrow> u16 \<Rightarrow> 'w \<Rightarrow> bool \<times> 'w"
  mq_connection_set_configuration :: "nat \<Rightarrow> nat option \<Rightarrow> 'w \<Rightarrow> bool \<times> 'w"
  mq_connection_shutdown :: "nat \<Rightarrow> 'w \<Rightarrow> 'w"
  mq_connection_close :: "nat \<Rightarrow> 'w \<Rightarrow> 'w"
  mq_listener_open :: "nat \<Rightarrow> 'w \<Rightarrow> nat option \<times> 'w"
  mq_listener_start :: "nat \<Rightarrow> string \<Rightarrow> u16 \<Rightarrow> 'w \<Rightarrow> bool \<times> 'w"
  mq_listener_close :: "nat \<Rightarrow> 'w \<Rightarrow> 'w"
  mq_stream_open :: "nat \<Rightarrow> 'w \<Rightarrow> nat option \<times> 'w"
  mq_stream_start :: "nat \<Rightarrow> 'w \<Rightarrow> bool \<times> 'w"
  mq_stream_send :: "nat \<Rightarrow> bytes \<Rightarrow> 'w \<Rightarrow> bool \<times> 'w"
  mq_stream_close :: "nat \<Rightarrow> 'w \<Rightarrow> 'w"
  mq_set_callback :: "nat \<Rightarrow> bool \<Rightarrow> 'w \<Rightarrow> 'w"
  mq_wait :: "nat \<Rightarrow> 'w \<Rightarrow> quic_event list \<times> 'w"
  mq_poll :: "'w \<Rightarrow> quic_event list \<times> 'w"

text \<open>The members of the class; a null pointer or handle is \<open>None\<close>, \<open>qt_msquic\<close> the API pointer.\<close>

record QuicSecureTransport =
  qt_config :: TunnelConfig
  qt_last_error :: "quic_failure option"
  qt_msquic :: bool
  qt_registration :: "nat option"
  qt_configuration :: "nat option"
  qt_connection :: "nat option"
  qt_listener :: "nat option"
  qt_handshake_state :: "HandshakeState option"
  qt_server_context :: "ServerContext option"
  qt_stream_channel :: "StreamChannel option"
  qt_connection_context :: "ConnectionContext option"
  qt_stored_credentials :: "StoredCredentials option"
  qt_api_open :: bool
  qt_listener_started :: bool
  qt_data_channel_open :: bool
  qt_closed :: bool

definition new_quic_transport :: QuicSecureTransport where
  "new_quic_transport =
     \<lparr>qt_config = default_config, qt_last_error = None, qt_msquic = False, qt_registration = None,
      qt_configuration = None, qt_connection = None, qt_listener = None, qt_handshake_state = None,
      qt_server_context = None, qt_stream_channel = None, qt_connection_context = None,
      qt_stored_credentials = None, qt_api_open = False, qt_listener_started = False,
      qt_data_channel_open = False, qt_closed = False\<rparr>"

text \<open>The process: the loader's globals and the world MsQuic acts on.\<close>

record 'w quic_proc =
  qp_msquic :: MsQuicGlobals
  qp_world :: 'w

definition qcall :: "('w \<Rightarrow> 'r \<times> 'w) \<Rightarrow> 'w quic_proc \<Rightarrow> 'r \<times> 'w quic_proc" where
  "qcall f p = (case f (qp_world p) of (r, w) \<Rightarrow> (r, p\<lparr>qp_world := w\<rparr>))"

definition qdo :: "('w \<Rightarrow> 'w) \<Rightarrow> 'w quic_proc \<Rightarrow> 'w quic_proc" where
  "qdo f p = p\<lparr>qp_world := f (qp_world p)\<rparr>"

definition quic_set_error :: "quic_failure \<Rightarrow> QuicSecureTransport \<Rightarrow> QuicSecureTransport" where
  "quic_set_error e t = t\<lparr>qt_last_error := Some e\<rparr>"

section \<open>Callbacks\<close>

definition open_client_stream ::
  "'w quic_api \<Rightarrow> nat \<Rightarrow> QuicSecureTransport \<Rightarrow> 'w quic_proc \<Rightarrow> bool \<times> QuicSecureTransport \<times> 'w quic_proc" where
  "open_client_stream api connection t p =
     (case (qt_connection_context t, qt_stream_channel t) of
        (Some cx, Some ch) \<Rightarrow>
          if \<not> cx_stream cx \<or> \<not> cx_msquic cx then (False, t, p)
          else
            (case qcall (mq_stream_open api connection) p of
               (None, p1) \<Rightarrow> (False, t, p1)
             | (Some stream, p1) \<Rightarrow>
                 (let ch1 = ch\<lparr>ch_stream := Some stream, ch_msquic := True\<rparr> in
                  case qcall (mq_stream_start api stream) p1 of (ok, p2) \<Rightarrow>
                    if \<not> ok
                    then (False, t\<lparr>qt_stream_channel := Some (ch1\<lparr>ch_stream := None\<rparr>)\<rparr>,
                          qdo (mq_stream_close api stream) p2)
                    else (True, t\<lparr>qt_stream_channel := Some (ch1\<lparr>ch_ready := True\<rparr>)\<rparr>, p2)))
      | _ \<Rightarrow> (False, t, p))"

fun stream_callback :: "quic_event \<Rightarrow> StreamChannel \<Rightarrow> StreamChannel" where
  "stream_callback (Ev_Stream_Receive buffers) ch = append_received_bytes buffers ch"
| "stream_callback Ev_Stream_Send_Complete ch = ch\<lparr>ch_send_complete := True\<rparr>"
| "stream_callback _ ch = ch"

definition connection_callback ::
  "'w quic_api \<Rightarrow> quic_event \<Rightarrow> QuicSecureTransport \<Rightarrow> 'w quic_proc \<Rightarrow> QuicSecureTransport \<times> 'w quic_proc" where
  "connection_callback api ev t p =
     (case (qt_connection_context t, qt_handshake_state t) of
        (Some cx, Some hs) \<Rightarrow>
          if \<not> cx_handshake cx then (t, p)
          else
            (case ev of
               Ev_Connected connection \<Rightarrow>
                 (let t1 = t\<lparr>qt_handshake_state := Some (hs\<lparr>hs_connected := True\<rparr>)\<rparr> in
                  if cx_role cx = Client then snd (open_client_stream api connection t1 p) else (t1, p))
             | Ev_Peer_Stream_Started stream \<Rightarrow>
                 (case qt_stream_channel t of
                    Some ch \<Rightarrow>
                      if cx_stream cx \<and> cx_msquic cx
                      then (t\<lparr>qt_stream_channel :=
                                Some (ch\<lparr>ch_stream := Some stream, ch_msquic := True, ch_ready := True\<rparr>)\<rparr>,
                            qdo (mq_set_callback api stream True) p)
                      else (t, p)
                  | None \<Rightarrow> (t, p))
             | Ev_Shutdown_By_Transport status \<Rightarrow>
                 if \<not> hs_connected hs
                 then (t\<lparr>qt_handshake_state := Some (hs\<lparr>hs_status := status, hs_failed := True\<rparr>)\<rparr>, p)
                 else (t, p)
             | Ev_Shutdown_Complete \<Rightarrow>
                 (t\<lparr>qt_handshake_state := Some (hs\<lparr>hs_shutdown_complete := True\<rparr>)\<rparr>, p)
             | _ \<Rightarrow> (t, p))
      | _ \<Rightarrow> (t, p))"

text \<open>The result is the status returned to MsQuic.\<close>

definition listener_callback ::
  "'w quic_api \<Rightarrow> quic_event \<Rightarrow> QuicSecureTransport \<Rightarrow> 'w quic_proc \<Rightarrow> bool \<times> QuicSecureTransport \<times> 'w quic_proc" where
  "listener_callback api ev t p =
     (case qt_server_context t of
        None \<Rightarrow> (False, t, p)
      | Some sc \<Rightarrow>
          (case ev of
             Ev_New_Connection connection \<Rightarrow>
               (let t1 = t\<lparr>qt_connection := Some connection\<rparr>;
                    p1 = qdo (mq_set_callback api connection True) p
                in case qcall (mq_connection_set_configuration api connection (sc_configuration sc)) p1 of
                     (ok, p2) \<Rightarrow> (ok, t1, p2))
           | _ \<Rightarrow> (True, t, p)))"

text \<open>An event reaches the callback of a live stream, connection or listener.\<close>

fun deliver ::
  "'w quic_api \<Rightarrow> quic_event \<Rightarrow> QuicSecureTransport \<times> 'w quic_proc \<Rightarrow> QuicSecureTransport \<times> 'w quic_proc" where
  "deliver api ev (t, p) =
     (case ev of
        Ev_New_Connection _ \<Rightarrow> if qt_listener t = None then (t, p) else snd (listener_callback api ev t p)
      | Ev_Listener_Other \<Rightarrow> if qt_listener t = None then (t, p) else snd (listener_callback api ev t p)
      | Ev_Stream_Receive _ \<Rightarrow>
          (case qt_stream_channel t of
             Some ch \<Rightarrow> if ch_stream ch = None then (t, p)
                        else (t\<lparr>qt_stream_channel := Some (stream_callback ev ch)\<rparr>, p)
           | None \<Rightarrow> (t, p))
      | Ev_Stream_Send_Complete \<Rightarrow>
          (case qt_stream_channel t of
             Some ch \<Rightarrow> if ch_stream ch = None then (t, p)
                        else (t\<lparr>qt_stream_channel := Some (stream_callback ev ch)\<rparr>, p)
           | None \<Rightarrow> (t, p))
      | Ev_Stream_Other \<Rightarrow> (t, p)
      | _ \<Rightarrow> if qt_connection t = None then (t, p) else connection_callback api ev t p)"

definition deliver_all ::
  "'w quic_api \<Rightarrow> quic_event list \<Rightarrow> QuicSecureTransport \<Rightarrow> 'w quic_proc \<Rightarrow> QuicSecureTransport \<times> 'w quic_proc" where
  "deliver_all api evs t p = fold (deliver api) evs (t, p)"

text \<open>\<open>cv.wait_for\<close> with a predicate: no wait when it holds, else it is tested at the end.\<close>

definition quic_wait ::
  "'w quic_api \<Rightarrow> nat \<Rightarrow> (QuicSecureTransport \<Rightarrow> bool) \<Rightarrow> QuicSecureTransport \<Rightarrow> 'w quic_proc \<Rightarrow>
   bool \<times> QuicSecureTransport \<times> 'w quic_proc" where
  "quic_wait api timeout cond t p =
     (if cond t then (True, t, p)
      else
        (case qcall (mq_wait api timeout) p of (evs, p1) \<Rightarrow>
           (case deliver_all api evs t p1 of (t2, p2) \<Rightarrow> (cond t2, t2, p2))))"

section \<open>Connecting\<close>

definition ensure_api_open ::
  "'w quic_api \<Rightarrow> QuicSecureTransport \<Rightarrow> 'w quic_proc \<Rightarrow> bool \<times> QuicSecureTransport \<times> 'w quic_proc" where
  "ensure_api_open api t p =
     (if qt_api_open t then (True, t, p)
      else
        (case msquic_acquire (mq_open2 api) (qp_msquic p) (qp_world p) of (ok, g, w) \<Rightarrow>
           let p1 = \<lparr>qp_msquic = g, qp_world = w\<rparr> in
           if \<not> ok then (False, quic_set_error Api_Open_Failed t, p1)
           else (True, t\<lparr>qt_msquic := True, qt_api_open := True\<rparr>, p1)))"

definition open_registration ::
  "'w quic_api \<Rightarrow> QuicSecureTransport \<Rightarrow> 'w quic_proc \<Rightarrow> bool \<times> QuicSecureTransport \<times> 'w quic_proc" where
  "open_registration api t p =
     (case ensure_api_open api t p of (ok, t1, p1) \<Rightarrow>
        if \<not> ok then (False, t1, p1)
        else
          (case qcall (mq_registration_open api) p1 of
             (None, p2) \<Rightarrow> (False, quic_set_error Registration_Failed t1, p2)
           | (Some r, p2) \<Rightarrow> (True, t1\<lparr>qt_registration := Some r\<rparr>, p2)))"

text \<open>The credential chosen for the role; \<open>None\<close> for a malformed fingerprint.\<close>

definition choose_credential :: "TunnelConfig \<Rightarrow> StoredCredentials option" where
  "choose_credential c =
     (if tc_role c = Client then Some (Cred_Client (qc_insecure (tc_quic c)))
      else if qc_cert_hash (tc_quic c) \<noteq> []
      then
        (case decode_hex_buffer (qc_cert_hash (tc_quic c)) 20 of
           None \<Rightarrow> None
         | Some bs \<Rightarrow> if length bs \<noteq> 20 then None else Some (Cred_Hash_Store bs))
      else Some (Cred_File (qc_cert_file (tc_quic c)) (qc_key_file (tc_quic c))))"

definition quic_settings_for :: "TunnelConfig \<Rightarrow> quic_settings" where
  "quic_settings_for c =
     \<lparr>set_idle_timeout_ms = qc_idle_timeout_ms (tc_quic c), set_peer_bidi_stream_count = 1,
      set_no_resume = (tc_role c = Server)\<rparr>"

definition load_configuration ::
  "'w quic_api \<Rightarrow> QuicSecureTransport \<Rightarrow> 'w quic_proc \<Rightarrow> bool \<times> QuicSecureTransport \<times> 'w quic_proc" where
  "load_configuration api t p =
     (case qt_registration t of
        None \<Rightarrow> (False, quic_set_error Registration_Missing t, p)
      | Some r \<Rightarrow>
          (case qcall (mq_configuration_open api r (qc_alpn (tc_quic (qt_config t))) (quic_settings_for (qt_config t))) p of
             (None, p1) \<Rightarrow> (False, quic_set_error Configuration_Failed t, p1)
           | (Some configuration, p1) \<Rightarrow>
               (case choose_credential (qt_config t) of
                  None \<Rightarrow> (False, quic_set_error Fingerprint_Invalid (t\<lparr>qt_stored_credentials := Some Cred_Unset\<rparr>), p1)
                | Some cred \<Rightarrow>
                    (let t1 = t\<lparr>qt_stored_credentials := Some cred\<rparr> in
                     case qcall (mq_load_credential api configuration cred) p1 of (ok, p2) \<Rightarrow>
                       if \<not> ok then (False, quic_set_error Credential_Failed t1, p2)
                       else (True, t1\<lparr>qt_configuration := Some configuration\<rparr>, p2)))))"

definition start_contexts :: "Role \<Rightarrow> QuicSecureTransport \<Rightarrow> QuicSecureTransport" where
  "start_contexts role t =
     t\<lparr>qt_handshake_state := Some new_handshake_state, qt_stream_channel := Some new_stream_channel,
       qt_connection_context :=
         Some \<lparr>cx_handshake = True, cx_stream = True, cx_role = role, cx_msquic = qt_msquic t\<rparr>\<rparr>"

definition quic_start_client ::
  "'w quic_api \<Rightarrow> QuicSecureTransport \<Rightarrow> 'w quic_proc \<Rightarrow> bool \<times> QuicSecureTransport \<times> 'w quic_proc" where
  "quic_start_client api t p =
     (let t1 = start_contexts Client t in
      case qcall (mq_connection_open api (the (qt_registration t1))) p of
        (None, p1) \<Rightarrow> (False, quic_set_error Connection_Open_Failed t1, p1)
      | (Some connection, p1) \<Rightarrow> (True, t1\<lparr>qt_connection := Some connection\<rparr>, p1))"

definition start_server_listener ::
  "'w quic_api \<Rightarrow> QuicSecureTransport \<Rightarrow> 'w quic_proc \<Rightarrow> bool \<times> QuicSecureTransport \<times> 'w quic_proc" where
  "start_server_listener api t p =
     (let t1 = (start_contexts Server t)\<lparr>qt_server_context :=
            Some \<lparr>sc_handshake = True, sc_stream = True, sc_msquic = qt_msquic t,
                  sc_configuration = qt_configuration t, sc_connection_context = True\<rparr>\<rparr> in
      case qcall (mq_listener_open api (the (qt_registration t1))) p of
        (None, p1) \<Rightarrow> (False, quic_set_error Listener_Open_Failed t1, p1)
      | (Some listener, p1) \<Rightarrow>
          (case qcall (mq_listener_start api listener (qc_alpn (tc_quic (qt_config t1))) (tc_port (qt_config t1))) p1 of
             (ok, p2) \<Rightarrow>
               if \<not> ok
               then (False, quic_set_error Listener_Start_Failed t1, qdo (mq_listener_close api listener) p2)
               else (True, t1\<lparr>qt_listener := Some listener, qt_listener_started := True\<rparr>, p2)))"

section \<open>Closing and resetting\<close>

text \<open>The close of the stream handle, shared by \<open>reset_for_next_client\<close> and \<open>close\<close>.\<close>

definition close_stream ::
  "'w quic_api \<Rightarrow> StreamChannel \<Rightarrow> 'w quic_proc \<Rightarrow> StreamChannel \<times> 'w quic_proc" where
  "close_stream api ch p =
     (case ch_stream ch of
        None \<Rightarrow> (ch, p)
      | Some stream \<Rightarrow>
          (ch\<lparr>ch_stream := None, ch_msquic := False\<rparr>,
           qdo (\<lambda>w. mq_stream_close api stream (mq_set_callback api stream False w)) p))"

definition reset_for_next_client ::
  "'w quic_api \<Rightarrow> QuicSecureTransport \<Rightarrow> 'w quic_proc \<Rightarrow> QuicSecureTransport \<times> 'w quic_proc" where
  "reset_for_next_client api t p =
     (if qt_closed t \<or> tc_role (qt_config t) \<noteq> Server \<or> \<not> qt_listener_started t then (t, p)
      else
        (let t1 = t\<lparr>qt_data_channel_open := False\<rparr>;
             (t2, p2) =
               (case qt_stream_channel t1 of
                  Some ch \<Rightarrow>
                    if qt_msquic t1
                    then (case close_stream api ch p of (ch1, p1) \<Rightarrow>
                            (t1\<lparr>qt_stream_channel :=
                               Some (ch1\<lparr>ch_frames := [], ch_ready := False, ch_send_complete := True\<rparr>)\<rparr>, p1))
                    else (t1, p)
                | None \<Rightarrow> (t1, p));
             (t3, p3) =
               (case qt_connection t2 of
                  Some connection \<Rightarrow>
                    if qt_msquic t2
                    then (t2\<lparr>qt_connection := None\<rparr>,
                          qdo (\<lambda>w. mq_connection_close api connection (mq_set_callback api connection False w)) p2)
                    else (t2, p2)
                | None \<Rightarrow> (t2, p2));
             t4 = t3\<lparr>qt_handshake_state := map_option (\<lambda>_. new_handshake_state) (qt_handshake_state t3)\<rparr>;
             t5 = t4\<lparr>qt_connection_context :=
                    map_option (\<lambda>cx. cx\<lparr>cx_msquic := qt_msquic t4, cx_stream := qt_stream_channel t4 \<noteq> None\<rparr>)
                      (qt_connection_context t4)\<rparr>;
             t6 = t5\<lparr>qt_server_context :=
                    map_option (\<lambda>sc. sc\<lparr>sc_msquic := qt_msquic t5, sc_stream := qt_stream_channel t5 \<noteq> None,
                        sc_connection_context := qt_connection_context t5 \<noteq> None\<rparr>) (qt_server_context t5)\<rparr>
         in (t6, p3)))"

text \<open>
  The body of \<open>close\<close> after its guard. The handler of the connection is cleared before the
  wait for its shutdown, so no event of it arrives; the wait passes.
\<close>

definition close_connection ::
  "'w quic_api \<Rightarrow> QuicSecureTransport \<Rightarrow> 'w quic_proc \<Rightarrow> QuicSecureTransport \<times> 'w quic_proc" where
  "close_connection api t p =
     (case qt_connection t of
        None \<Rightarrow> (t, p)
      | Some connection \<Rightarrow>
          if \<not> qt_msquic t then (t, p)
          else
            (let p1 = qdo (mq_set_callback api connection False) p;
                 p2 = (if qt_handshake_state t \<noteq> None
                       then qdo (\<lambda>w. snd (mq_wait api 2000 (mq_connection_shutdown api connection w))) p1
                       else p1)
             in (t\<lparr>qt_connection := None\<rparr>, qdo (mq_connection_close api connection) p2)))"

definition close_handles ::
  "'w quic_api \<Rightarrow> QuicSecureTransport \<Rightarrow> 'w quic_proc \<Rightarrow> QuicSecureTransport \<times> 'w quic_proc" where
  "close_handles api t p =
     (if \<not> qt_msquic t then (t, p)
      else
        (let (t1, p1) =
               (case qt_listener t of
                  None \<Rightarrow> (t, p)
                | Some l \<Rightarrow> (t\<lparr>qt_listener := None, qt_listener_started := False\<rparr>,
                              if qt_listener_started t then qdo (mq_listener_close api l) p else p));
             (t2, p2) =
               (case qt_configuration t1 of
                  None \<Rightarrow> (t1, p1)
                | Some c \<Rightarrow> (t1\<lparr>qt_configuration := None\<rparr>, qdo (mq_configuration_close api c) p1))
         in case qt_registration t2 of
              None \<Rightarrow> (t2, p2)
            | Some r \<Rightarrow> (t2\<lparr>qt_registration := None\<rparr>, qdo (mq_registration_close api r) p2)))"

definition quic_close ::
  "'w quic_api \<Rightarrow> QuicSecureTransport \<Rightarrow> 'w quic_proc \<Rightarrow> QuicSecureTransport \<times> 'w quic_proc" where
  "quic_close api t p =
     (if qt_closed t then (t, p)
      else
        (let t1 = t\<lparr>qt_closed := True, qt_data_channel_open := False,
                   qt_connection_context :=
                     map_option (\<lambda>cx. cx\<lparr>cx_handshake := False, cx_stream := False, cx_msquic := False\<rparr>)
                       (qt_connection_context t),
                   qt_server_context :=
                     map_option (\<lambda>sc. sc\<lparr>sc_handshake := False, sc_stream := False, sc_msquic := False,
                         sc_connection_context := False\<rparr>) (qt_server_context t)\<rparr>;
             (t2, p2) =
               (case qt_stream_channel t1 of
                  Some ch \<Rightarrow>
                    if qt_msquic t1
                    then (case close_stream api ch p of (ch1, p1) \<Rightarrow> (t1\<lparr>qt_stream_channel := Some ch1\<rparr>, p1))
                    else (t1, p)
                | None \<Rightarrow> (t1, p));
             (t3, p3) = close_connection api t2 p2;
             (t4, p4) = close_handles api t3 p3;
             t5 = t4\<lparr>qt_handshake_state := None, qt_server_context := None, qt_connection_context := None,
                    qt_stream_channel := None, qt_stored_credentials := None\<rparr>;
             (t6, p6) =
               (if qt_api_open t5
                then (t5\<lparr>qt_msquic := False, qt_api_open := False\<rparr>,
                      (case msquic_release (mq_close api) (qp_msquic p4) (qp_world p4) of
                         (g, w) \<Rightarrow> \<lparr>qp_msquic = g, qp_world = w\<rparr>))
                else (t5, p4))
         in (t6\<lparr>qt_last_error := None\<rparr>, p6)))"

section \<open>The interface\<close>

definition quic_fail ::
  "'w quic_api \<Rightarrow> QuicSecureTransport \<Rightarrow> 'w quic_proc \<Rightarrow> bool \<times> QuicSecureTransport \<times> 'w quic_proc" where
  "quic_fail api t p = (case quic_close api t p of (t', p') \<Rightarrow> (False, t', p'))"

definition quic_connect ::
  "'w quic_api \<Rightarrow> TunnelConfig \<Rightarrow> QuicSecureTransport \<Rightarrow> 'w quic_proc \<Rightarrow> bool \<times> QuicSecureTransport \<times> 'w quic_proc" where
  "quic_connect api config t p =
     (case quic_close api t p of (t0, p0) \<Rightarrow>
        let t1 = t0\<lparr>qt_config := config\<rparr> in
        if \<not> tc_prefer_quic (qt_config t1) then (False, quic_set_error Quic_Not_Preferred t1, p0)
        else
          (case open_registration api t1 p0 of (ok, t2, p2) \<Rightarrow>
             if \<not> ok then quic_fail api t2 p2
             else
               (case load_configuration api t2 p2 of (ok, t3, p3) \<Rightarrow>
                  if \<not> ok then quic_fail api t3 p3
                  else
                    (case (if tc_role (qt_config t3) = Client then quic_start_client api t3 p3
                           else start_server_listener api t3 p3) of
                       (ok, t4, p4) \<Rightarrow> if \<not> ok then quic_fail api t4 p4 else (True, t4, p4)))))"

definition handshake_done :: "QuicSecureTransport \<Rightarrow> bool" where
  "handshake_done t = (case qt_handshake_state t of None \<Rightarrow> False | Some hs \<Rightarrow> hs_connected hs \<or> hs_failed hs)"

definition wait_for_handshake ::
  "'w quic_api \<Rightarrow> nat \<Rightarrow> QuicSecureTransport \<Rightarrow> 'w quic_proc \<Rightarrow> bool \<times> QuicSecureTransport \<times> 'w quic_proc" where
  "wait_for_handshake api timeout t p =
     (case qt_handshake_state t of
        None \<Rightarrow> (False, quic_set_error Handshake_Not_Initialised t, p)
      | Some _ \<Rightarrow>
          (case quic_wait api timeout handshake_done t p of (done, t1, p1) \<Rightarrow>
             if \<not> done then (False, quic_set_error Handshake_Timeout t1, p1)
             else
               (case qt_handshake_state t1 of
                  None \<Rightarrow> (False, t1, p1)
                | Some hs \<Rightarrow>
                    if hs_failed hs then (False, quic_set_error (Handshake_Failed (hs_status hs)) t1, p1)
                    else (hs_connected hs, t1, p1))))"

abbreviation (input) kHandshakeTimeout :: nat where "kHandshakeTimeout \<equiv> 15000"
abbreviation (input) kStreamReadyTimeout :: nat where "kStreamReadyTimeout \<equiv> 10000"

definition quic_perform_handshake ::
  "'w quic_api \<Rightarrow> QuicSecureTransport \<Rightarrow> 'w quic_proc \<Rightarrow> bool \<times> QuicSecureTransport \<times> 'w quic_proc" where
  "quic_perform_handshake api t p =
     (case (qt_registration t, qt_configuration t) of
        (Some _, Some configuration) \<Rightarrow>
          if tc_role (qt_config t) = Client
          then
            (case qt_connection t of
               None \<Rightarrow> (False, quic_set_error Connection_Missing t, p)
             | Some connection \<Rightarrow>
                 (case qcall (mq_connection_start api connection configuration (tc_endpoint (qt_config t))
                               (tc_port (qt_config t))) p of (ok, p1) \<Rightarrow>
                    if \<not> ok then (False, quic_set_error Connection_Start_Failed t, p1)
                    else wait_for_handshake api kHandshakeTimeout t p1))
          else if \<not> qt_listener_started t then (False, quic_set_error Listener_Not_Started t, p)
          else (True, t, p)
      | _ \<Rightarrow> (False, quic_set_error Not_Connected t, p))"

definition channel_ready :: "QuicSecureTransport \<Rightarrow> bool" where
  "channel_ready t = (case qt_stream_channel t of None \<Rightarrow> False | Some ch \<Rightarrow> ch_ready ch)"

definition wait_for_stream_ready ::
  "'w quic_api \<Rightarrow> nat \<Rightarrow> QuicSecureTransport \<Rightarrow> 'w quic_proc \<Rightarrow> bool \<times> QuicSecureTransport \<times> 'w quic_proc" where
  "wait_for_stream_ready api timeout t p =
     (case qt_stream_channel t of
        None \<Rightarrow> (False, quic_set_error Stream_Not_Initialised t, p)
      | Some _ \<Rightarrow>
          (case quic_wait api timeout channel_ready t p of (ready, t1, p1) \<Rightarrow>
             if \<not> ready then (False, quic_set_error Stream_Ready_Timeout t1, p1) else (True, t1, p1)))"

definition quic_open_data_channel ::
  "'w quic_api \<Rightarrow> QuicSecureTransport \<Rightarrow> 'w quic_proc \<Rightarrow> bool \<times> QuicSecureTransport \<times> 'w quic_proc" where
  "quic_open_data_channel api t p =
     (if qt_data_channel_open t then (True, t, p)
      else
        (case (if tc_role (qt_config t) = Server then wait_for_handshake api kHandshakeTimeout t p else (True, t, p)) of
           (ok, t1, p1) \<Rightarrow>
             if \<not> ok then (False, t1\<lparr>qt_last_error := None\<rparr>, p1)
             else
               (case wait_for_stream_ready api kStreamReadyTimeout t1 p1 of (ok, t2, p2) \<Rightarrow>
                  if \<not> ok
                  then (False, if tc_role (qt_config t2) = Server then t2\<lparr>qt_last_error := None\<rparr> else t2, p2)
                  else (True, t2\<lparr>qt_data_channel_open := True\<rparr>, p2))))"

definition send_completed :: "QuicSecureTransport \<Rightarrow> bool" where
  "send_completed t = (case qt_stream_channel t of None \<Rightarrow> False | Some ch \<Rightarrow> ch_send_complete ch)"

definition set_send_complete :: "bool \<Rightarrow> QuicSecureTransport \<Rightarrow> QuicSecureTransport" where
  "set_send_complete b t =
     t\<lparr>qt_stream_channel := map_option (\<lambda>ch. ch\<lparr>ch_send_complete := b\<rparr>) (qt_stream_channel t)\<rparr>"

text \<open>\<open>channel->stream\<close>.\<close>

definition current_stream :: "QuicSecureTransport \<Rightarrow> nat option" where
  "current_stream t = (case qt_stream_channel t of None \<Rightarrow> None | Some ch \<Rightarrow> ch_stream ch)"

definition quic_send_payload ::
  "'w quic_api \<Rightarrow> bytes \<Rightarrow> QuicSecureTransport \<Rightarrow> 'w quic_proc \<Rightarrow> bool \<times> QuicSecureTransport \<times> 'w quic_proc" where
  "quic_send_payload api payload t p =
     (if \<not> qt_data_channel_open t then (False, quic_set_error Channel_Not_Open t, p)
      else
        (case qt_stream_channel t of
           None \<Rightarrow> (False, quic_set_error Stream_Unavailable t, p)
         | Some ch \<Rightarrow>
             if ch_stream ch = None \<or> \<not> ch_msquic ch then (False, quic_set_error Stream_Unavailable t, p)
             else if payload = [] \<or> 65536 < length payload then (False, quic_set_error Payload_Length_Invalid t, p)
             else
               (case quic_wait api kStreamReadyTimeout send_completed t p of (ok, t1, p1) \<Rightarrow>
                  if \<not> ok then (False, quic_set_error Send_Blocked t1, p1)
                  else
                    (let t2 = set_send_complete False t1
                     in case qcall (mq_stream_send api (the (current_stream t1)) (frame_payload payload)) p1 of (ok, p2) \<Rightarrow>
                          if \<not> ok then (False, quic_set_error Stream_Send_Failed (set_send_complete True t2), p2)
                          else
                            (case quic_wait api kStreamReadyTimeout send_completed t2 p2 of (ok, t3, p3) \<Rightarrow>
                               if \<not> ok then (False, quic_set_error Send_Completion_Timeout t3, p3)
                               else (True, t3, p3))))))"

text \<open>\<open>None\<close> is \<open>std::nullopt\<close>; the empty packet means that no frame is waiting.\<close>

definition quic_try_receive_payload ::
  "'w quic_api \<Rightarrow> QuicSecureTransport \<Rightarrow> 'w quic_proc \<Rightarrow> bytes option \<times> QuicSecureTransport \<times> 'w quic_proc" where
  "quic_try_receive_payload api t0 p0 =
     (case qcall (mq_poll api) p0 of (evs, p1) \<Rightarrow>
        (case deliver_all api evs t0 p1 of (t, p) \<Rightarrow>
           if \<not> qt_data_channel_open t then (None, t, p)
           else
             (case qt_stream_channel t of
                None \<Rightarrow> (None, t, p)
              | Some ch \<Rightarrow>
                  (case ch_frames ch of
                     [] \<Rightarrow> (Some [], t, p)
                   | frame # rest \<Rightarrow> (Some frame, t\<lparr>qt_stream_channel := Some (ch\<lparr>ch_frames := rest\<rparr>)\<rparr>, p)))))"

text \<open>The table of virtual functions, over a world that holds the object and the process.\<close>

definition quic_object :: "'w quic_api \<Rightarrow> (QuicSecureTransport \<times> 'w quic_proc) SecureTransport" where
  "quic_object api =
     \<lparr>st_connect = (\<lambda>c (t, p). quic_connect api c t p),
      st_perform_handshake = (\<lambda>(t, p). quic_perform_handshake api t p),
      st_open_data_channel = (\<lambda>(t, p). quic_open_data_channel api t p),
      st_send_payload = (\<lambda>b (t, p). quic_send_payload api b t p),
      st_try_receive_payload = (\<lambda>(t, p). quic_try_receive_payload api t p),
      st_close = (\<lambda>(t, p). quic_close api t p),
      st_reset_for_next_client = Some (\<lambda>(t, p). reset_for_next_client api t p),
      st_destroy = (\<lambda>(t, p). quic_close api t p)\<rparr>"

section \<open>What an event can change\<close>

text \<open>Events change the handshake state, the channel and the connection handle only.\<close>

definition handshake_kept :: "QuicSecureTransport \<Rightarrow> QuicSecureTransport \<Rightarrow> bool" where
  "handshake_kept t t' \<longleftrightarrow>
     (\<forall>hs. qt_handshake_state t = Some hs \<longrightarrow>
        (\<exists>hs'. qt_handshake_state t' = Some hs' \<and> (hs_connected hs \<longrightarrow> hs_connected hs' \<and> hs_failed hs' = hs_failed hs)))"

definition event_frame :: "QuicSecureTransport \<Rightarrow> QuicSecureTransport \<Rightarrow> bool" where
  "event_frame t t' \<longleftrightarrow>
     qt_config t' = qt_config t \<and> qt_registration t' = qt_registration t \<and>
     qt_configuration t' = qt_configuration t \<and> qt_listener t' = qt_listener t \<and>
     qt_listener_started t' = qt_listener_started t \<and> qt_data_channel_open t' = qt_data_channel_open t \<and>
     qt_closed t' = qt_closed t \<and> qt_msquic t' = qt_msquic t \<and> qt_api_open t' = qt_api_open t \<and>
     (qt_stream_channel t' = None \<longleftrightarrow> qt_stream_channel t = None) \<and> handshake_kept t t'"

lemma handshake_kept_refl [simp]: "handshake_kept t t"
  by (simp add: handshake_kept_def)

lemma handshake_kept_trans:
  assumes "handshake_kept a b" and "handshake_kept b c"
  shows "handshake_kept a c"
  unfolding handshake_kept_def
proof (intro allI impI)
  fix hs assume "qt_handshake_state a = Some hs"
  with assms(1) obtain h1 where h1: "qt_handshake_state b = Some h1"
    "hs_connected hs \<longrightarrow> hs_connected h1 \<and> hs_failed h1 = hs_failed hs" unfolding handshake_kept_def by blast
  with assms(2) obtain h2 where "qt_handshake_state c = Some h2"
    "hs_connected h1 \<longrightarrow> hs_connected h2 \<and> hs_failed h2 = hs_failed h1" unfolding handshake_kept_def by blast
  with h1 show "\<exists>h. qt_handshake_state c = Some h \<and> (hs_connected hs \<longrightarrow> hs_connected h \<and> hs_failed h = hs_failed hs)"
    by simp
qed

lemma event_frame_refl [simp]: "event_frame t t"
  by (simp add: event_frame_def)

lemma event_frame_trans: "event_frame a b \<Longrightarrow> event_frame b c \<Longrightarrow> event_frame a c"
  using handshake_kept_trans [of a b c] by (simp add: event_frame_def)

lemma open_client_stream_frame:
  assumes "open_client_stream api conn t p = (ok, t', p')"
  shows "\<exists>ch. t' = t\<lparr>qt_stream_channel := ch\<rparr> \<and> (ch = None \<longleftrightarrow> qt_stream_channel t = None)"
proof -
  have same: "\<exists>ch. t = t\<lparr>qt_stream_channel := ch\<rparr> \<and> (ch = None \<longleftrightarrow> qt_stream_channel t = None)"
    by (rule exI [of _ "qt_stream_channel t"]) simp
  show ?thesis
    using assms same
    by (auto simp: open_client_stream_def Let_def split: option.splits if_splits prod.splits)
qed

lemma connection_callback_frame: "event_frame t (fst (connection_callback api ev t p))"
proof (cases ev)
  case (Ev_Connected conn)
  obtain ok t' p' where o: "open_client_stream api conn
      (t\<lparr>qt_handshake_state := Some (the (qt_handshake_state t)\<lparr>hs_connected := True\<rparr>)\<rparr>) p = (ok, t', p')"
    by (metis prod_cases3)
  from open_client_stream_frame [OF o] Ev_Connected o show ?thesis
    by (auto simp: connection_callback_def event_frame_def handshake_kept_def Let_def split: option.splits)
qed (auto simp: connection_callback_def event_frame_def handshake_kept_def split: option.splits)

lemma deliver_frame: "event_frame t (fst (deliver api ev (t, p)))"
proof (cases ev)
  case (Ev_New_Connection c)
  then show ?thesis
    by (auto simp: listener_callback_def event_frame_def handshake_kept_def Let_def split: option.splits prod.splits)
next
  case (Ev_Stream_Receive b)
  then show ?thesis by (auto simp: event_frame_def handshake_kept_def split: option.splits)
next
  case Ev_Stream_Send_Complete
  then show ?thesis by (auto simp: event_frame_def handshake_kept_def split: option.splits)
next
  case Ev_Listener_Other
  then show ?thesis by (auto simp: listener_callback_def split: option.splits)
qed (use connection_callback_frame in auto)

lemma deliver_all_frame: "deliver_all api evs t p = (t', p') \<Longrightarrow> event_frame t t'"
proof (induction evs arbitrary: t p)
  case Nil
  then show ?case by (simp add: deliver_all_def)
next
  case (Cons ev evs)
  obtain t1 p1 where d: "deliver api ev (t, p) = (t1, p1)" by fastforce
  with Cons.prems have "deliver_all api evs t1 p1 = (t', p')" by (simp add: deliver_all_def del: deliver.simps)
  with Cons.IH deliver_frame [of t api ev p] d event_frame_trans show ?case by (metis fst_conv)
qed

lemma quic_wait_frame: "quic_wait api n cond t p = (ok, t', p') \<Longrightarrow> event_frame t t' \<and> ok = cond t'"
  by (auto simp: quic_wait_def deliver_all_frame split: if_splits prod.splits)

section \<open>The closed flag\<close>

lemma close_connection_closed [simp]: "qt_closed (fst (close_connection api t p)) = qt_closed t"
  by (simp add: close_connection_def Let_def split: option.splits)

lemma close_handles_closed [simp]: "qt_closed (fst (close_handles api t p)) = qt_closed t"
  by (simp add: close_handles_def Let_def split: option.splits prod.splits)

lemma quic_close_sets_closed: "qt_closed (fst (quic_close api t p))"
proof (cases "qt_closed t")
  case True
  then show ?thesis by (simp add: quic_close_def)
next
  case False
  have c: "close_connection api a b = (x, y) \<Longrightarrow> qt_closed x = qt_closed a"
    and h: "close_handles api a b = (x, y) \<Longrightarrow> qt_closed x = qt_closed a" for a b x y
    using close_connection_closed [of api a b] close_handles_closed [of api a b] by simp_all
  show ?thesis
    using False by (auto simp: quic_close_def Let_def split: prod.splits option.splits if_splits dest!: c h)
qed

lemma connect_parts_closed:
  "open_registration api t p = (ok, t', p') \<Longrightarrow> qt_closed t' = qt_closed t"
  "load_configuration api t p = (ok, t', p') \<Longrightarrow> qt_closed t' = qt_closed t"
  "quic_start_client api t p = (ok, t', p') \<Longrightarrow> qt_closed t' = qt_closed t"
  "start_server_listener api t p = (ok, t', p') \<Longrightarrow> qt_closed t' = qt_closed t"
  by (auto simp: open_registration_def ensure_api_open_def load_configuration_def quic_start_client_def
      start_server_listener_def start_contexts_def quic_set_error_def Let_def
      split: if_splits option.splits prod.splits)

lemma quic_fail_closed: "quic_fail api t p = (ok, t', p') \<Longrightarrow> qt_closed t'"
  using quic_close_sets_closed [of api t p] by (auto simp: quic_fail_def split: prod.splits)

lemma quic_connect_sets_closed:
  assumes "quic_connect api config t p = (ok, t', p')"
  shows "qt_closed t'"
proof -
  obtain t0 p0 where c: "quic_close api t p = (t0, p0)" by fastforce
  have closed: "qt_closed t0" using quic_close_sets_closed [of api t p] c by simp
  let ?t1 = "t0\<lparr>qt_config := config\<rparr>"
  obtain ok2 t2 p2 where r: "open_registration api ?t1 p0 = (ok2, t2, p2)" by (metis prod_cases3)
  obtain ok3 t3 p3 where l: "load_configuration api t2 p2 = (ok3, t3, p3)" by (metis prod_cases3)
  obtain ok4 t4 p4 where s: "(if tc_role (qt_config t3) = Client then quic_start_client api t3 p3
      else start_server_listener api t3 p3) = (ok4, t4, p4)" by (metis prod_cases3)
  have "qt_closed t2" "qt_closed t3" using closed connect_parts_closed(1) [OF r] connect_parts_closed(2) [OF l] by simp_all
  moreover have "qt_closed t4 = qt_closed t3"
    using s connect_parts_closed(3) [of api t3 p3 ok4 t4 p4] connect_parts_closed(4) [of api t3 p3 ok4 t4 p4]
    by (simp split: if_splits)
  moreover have "t' = quic_set_error Quic_Not_Preferred ?t1 \<or> quic_fail api t2 p2 = (ok, t', p') \<or>
      quic_fail api t3 p3 = (ok, t', p') \<or> quic_fail api t4 p4 = (ok, t', p') \<or> t' = t4"
    using assms c r l s by (simp add: quic_connect_def Let_def split: if_splits)
  ultimately show ?thesis using closed quic_fail_closed by (auto simp: quic_set_error_def)
qed

lemma wait_for_handshake_frame:
  "wait_for_handshake api n t p = (ok, t', p') \<Longrightarrow>
     \<exists>t1. event_frame t t1 \<and> (\<exists>er. t' = t1\<lparr>qt_last_error := er\<rparr>) \<and>
       (ok \<longrightarrow> (\<exists>hs. qt_handshake_state t' = Some hs \<and> hs_connected hs \<and> \<not> hs_failed hs))"
proof -
  assume run: "wait_for_handshake api n t p = (ok, t', p')"
  have same: "\<exists>er. x = x\<lparr>qt_last_error := er\<rparr>" for x :: QuicSecureTransport
    by (rule exI [of _ "qt_last_error x"]) simp
  obtain d t1 p1 where w: "quic_wait api n handshake_done t p = (d, t1, p1)" by (metis prod_cases3)
  note f = quic_wait_frame [OF w]
  show ?thesis
  proof (cases "qt_handshake_state t")
    case None
    with run same show ?thesis by (auto simp: wait_for_handshake_def quic_set_error_def intro!: exI [of _ t])
  next
    case (Some hs)
    with run w f same [of t1] show ?thesis
      by (intro exI [of _ t1]) (auto simp: wait_for_handshake_def quic_set_error_def split: option.splits if_splits)
  qed
qed

lemma wait_for_stream_frame:
  "wait_for_stream_ready api n t p = (ok, t', p') \<Longrightarrow>
     \<exists>t1. event_frame t t1 \<and> (\<exists>er. t' = t1\<lparr>qt_last_error := er\<rparr>) \<and> (ok \<longrightarrow> channel_ready t' \<and> t' = t1)"
proof -
  assume run: "wait_for_stream_ready api n t p = (ok, t', p')"
  have same: "\<exists>er. x = x\<lparr>qt_last_error := er\<rparr>" for x :: QuicSecureTransport
    by (rule exI [of _ "qt_last_error x"]) simp
  obtain d t1 p1 where w: "quic_wait api n channel_ready t p = (d, t1, p1)" by (metis prod_cases3)
  note f = quic_wait_frame [OF w]
  show ?thesis
  proof (cases "qt_stream_channel t")
    case None
    with run same show ?thesis by (auto simp: wait_for_stream_ready_def quic_set_error_def intro!: exI [of _ t])
  next
    case (Some ch)
    with run w f same [of t1] show ?thesis
      by (intro exI [of _ t1]) (auto simp: wait_for_stream_ready_def quic_set_error_def split: if_splits)
  qed
qed

lemma event_frame_closed: "event_frame t t' \<Longrightarrow> qt_closed t' = qt_closed t"
  by (simp add: event_frame_def)

lemma handshake_keeps_closed:
  assumes "quic_perform_handshake api t p = (ok, t', p')"
  shows "qt_closed t' = qt_closed t"
proof -
  have w: "qt_closed t' = qt_closed t" if "wait_for_handshake api n t q = (ok, t', p')" for n q
    using wait_for_handshake_frame [OF that] event_frame_closed by force
  then show ?thesis
    using assms by (auto simp: quic_perform_handshake_def quic_set_error_def split: option.splits if_splits prod.splits)
qed

lemma channel_keeps_closed:
  assumes "quic_open_data_channel api t p = (ok, t', p')"
  shows "qt_closed t' = qt_closed t"
proof -
  obtain ok1 t1 p1 where h: "(if tc_role (qt_config t) = Server then wait_for_handshake api 15000 t p else (True, t, p)) = (ok1, t1, p1)"
    by (metis prod_cases3)
  obtain ok2 t2 p2 where r: "wait_for_stream_ready api 10000 t1 p1 = (ok2, t2, p2)" by (metis prod_cases3)
  have "qt_closed t1 = qt_closed t"
    using h wait_for_handshake_frame [of api 15000 t p ok1 t1 p1] event_frame_closed by (force split: if_splits)
  moreover have "qt_closed t2 = qt_closed t1"
    using wait_for_stream_frame [OF r] event_frame_closed by force
  moreover have "qt_closed t' = qt_closed t \<or> qt_closed t' = qt_closed t1 \<or> qt_closed t' = qt_closed t2"
    using assms h r by (simp add: quic_open_data_channel_def split: if_splits) auto
  ultimately show ?thesis by blast
qed

lemma send_keeps_closed:
  assumes "quic_send_payload api b t p = (ok, t', p')"
  shows "qt_closed t' = qt_closed t"
proof -
  have w: "quic_wait api n cond x y = (k, x', y') \<Longrightarrow> qt_closed x' = qt_closed x" for n cond x y k x' y'
    using quic_wait_frame event_frame_closed by blast
  show ?thesis
    using assms
    by (auto simp: quic_send_payload_def quic_set_error_def set_send_complete_def Let_def
        split: option.splits if_splits prod.splits dest!: w)
qed

lemma receive_keeps_closed:
  assumes "quic_try_receive_payload api t p = (r, t', p')"
  shows "qt_closed t' = qt_closed t"
proof -
  have d: "deliver_all api evs x y = (x', y') \<Longrightarrow> qt_closed x' = qt_closed x" for evs x y x' y'
    using deliver_all_frame event_frame_closed by blast
  show ?thesis
    using assms
    by (auto simp: quic_try_receive_payload_def split: option.splits if_splits prod.splits list.splits dest!: d)
qed

text \<open>A step of a transport: an operation of its interface, or an event.\<close>

datatype quic_op =
    Q_Connect TunnelConfig | Q_Handshake | Q_Channel | Q_Send bytes | Q_Receive | Q_Close | Q_Reset | Q_Event quic_event

fun quic_step ::
  "'w quic_api \<Rightarrow> quic_op \<Rightarrow> QuicSecureTransport \<times> 'w quic_proc \<Rightarrow> QuicSecureTransport \<times> 'w quic_proc" where
  "quic_step api (Q_Connect c) (t, p) = snd (quic_connect api c t p)"
| "quic_step api Q_Handshake (t, p) = snd (quic_perform_handshake api t p)"
| "quic_step api Q_Channel (t, p) = snd (quic_open_data_channel api t p)"
| "quic_step api (Q_Send b) (t, p) = snd (quic_send_payload api b t p)"
| "quic_step api Q_Receive (t, p) = snd (quic_try_receive_payload api t p)"
| "quic_step api Q_Close (t, p) = quic_close api t p"
| "quic_step api Q_Reset (t, p) = reset_for_next_client api t p"
| "quic_step api (Q_Event ev) (t, p) = deliver api ev (t, p)"

lemma quic_step_keeps_closed: "qt_closed t \<Longrightarrow> qt_closed (fst (quic_step api op (t, p)))"
proof (cases op)
  case (Q_Connect c)
  obtain ok t' p' where "quic_connect api c t p = (ok, t', p')" by (metis prod_cases3)
  with Q_Connect quic_connect_sets_closed [OF this] show ?thesis by simp
next
  case Q_Handshake
  obtain ok t' p' where run: "quic_perform_handshake api t p = (ok, t', p')" by (metis prod_cases3)
  with Q_Handshake handshake_keeps_closed [OF run] show "qt_closed t \<Longrightarrow> ?thesis" by simp
next
  case Q_Channel
  obtain ok t' p' where run: "quic_open_data_channel api t p = (ok, t', p')" by (metis prod_cases3)
  with Q_Channel channel_keeps_closed [OF run] show "qt_closed t \<Longrightarrow> ?thesis" by simp
next
  case (Q_Send b)
  obtain ok t' p' where run: "quic_send_payload api b t p = (ok, t', p')" by (metis prod_cases3)
  with Q_Send send_keeps_closed [OF run] show "qt_closed t \<Longrightarrow> ?thesis" by simp
next
  case Q_Receive
  obtain r t' p' where run: "quic_try_receive_payload api t p = (r, t', p')" by (metis prod_cases3)
  with Q_Receive receive_keeps_closed [OF run] show "qt_closed t \<Longrightarrow> ?thesis" by simp
next
  case Q_Close
  then show ?thesis using quic_close_sets_closed by simp
next
  case Q_Reset
  then show "qt_closed t \<Longrightarrow> ?thesis" by (simp add: reset_for_next_client_def)
next
  case (Q_Event ev)
  then show "qt_closed t \<Longrightarrow> ?thesis" using deliver_frame [of t api ev p] event_frame_closed by (metis quic_step.simps(8))
qed

lemma quic_steps_keep_closed: "qt_closed (fst s) \<Longrightarrow> qt_closed (fst (fold (quic_step api) ops s))"
proof (induction ops arbitrary: s)
  case Nil
  then show ?case by simp
next
  case (Cons op ops)
  have "qt_closed (fst (quic_step api op s))"
    using quic_step_keeps_closed [of "fst s" api op "snd s"] Cons.prems by simp
  with Cons.IH show ?case by simp
qed

section \<open>Sending\<close>

text \<open>
  \<open>sent\<close> observes the buffers handed to the stream. A send that MsQuic accepts appends its
  buffer, no other call or wait appends anything.
\<close>

definition send_observed :: "'w quic_api \<Rightarrow> ('w \<Rightarrow> bytes list) \<Rightarrow> bool" where
  "send_observed api sent \<longleftrightarrow>
     (\<forall>h b w. sent (snd (mq_stream_send api h b w)) =
        (if fst (mq_stream_send api h b w) then sent w @ [b] else sent w)) \<and>
     (\<forall>n w. sent (snd (mq_wait api n w)) = sent w) \<and>
     (\<forall>h b w. sent (mq_set_callback api h b w) = sent w) \<and>
     (\<forall>h w. sent (snd (mq_stream_open api h w)) = sent w) \<and>
     (\<forall>h w. sent (snd (mq_stream_start api h w)) = sent w) \<and>
     (\<forall>h w. sent (mq_stream_close api h w) = sent w) \<and>
     (\<forall>h c w. sent (snd (mq_connection_set_configuration api h c w)) = sent w)"

lemma qcall_world: "qcall f p = (r, p') \<Longrightarrow> qp_world p' = snd (f (qp_world p)) \<and> r = fst (f (qp_world p))"
  by (auto simp: qcall_def split: prod.splits)

lemma deliver_sent:
  assumes "send_observed api sent"
  shows "sent (qp_world (snd (deliver api ev (t, p)))) = sent (qp_world p)"
proof -
  have o: "sent (qp_world p') = sent (qp_world p)" if "open_client_stream api c x p = (ok, t', p')" for c x ok t' p'
    using that assms
    by (auto simp: open_client_stream_def send_observed_def qdo_def Let_def dest!: qcall_world
        split: option.splits if_splits prod.splits)
  have "sent (qp_world (snd (connection_callback api ev t p))) = sent (qp_world p)"
  proof (cases ev)
    case (Ev_Connected c)
    then show ?thesis
      using o by (auto simp: connection_callback_def Let_def split: option.splits) (metis prod.collapse)
  next
    case (Ev_Peer_Stream_Started h)
    then show ?thesis
      using assms by (auto simp: connection_callback_def send_observed_def qdo_def split: option.splits)
  qed (auto simp: connection_callback_def split: option.splits)
  moreover have "sent (qp_world (snd (snd (listener_callback api ev t p)))) = sent (qp_world p)"
    using assms by (auto simp: listener_callback_def send_observed_def qdo_def Let_def dest!: qcall_world
        split: option.splits quic_event.splits prod.splits)
  ultimately show ?thesis by (cases ev) (auto split: option.splits)
qed

lemma deliver_all_sent:
  "send_observed api sent \<Longrightarrow> deliver_all api evs t p = (t', p') \<Longrightarrow> sent (qp_world p') = sent (qp_world p)"
proof (induction evs arbitrary: t p)
  case Nil
  then show ?case by (simp add: deliver_all_def)
next
  case (Cons ev evs)
  obtain t1 p1 where d: "deliver api ev (t, p) = (t1, p1)" by fastforce
  with Cons.prems have "deliver_all api evs t1 p1 = (t', p')" by (simp add: deliver_all_def del: deliver.simps)
  with Cons.IH Cons.prems(1) deliver_sent [OF Cons.prems(1), of ev t p] d show ?case by simp
qed

lemma quic_wait_sent:
  assumes "send_observed api sent" and "quic_wait api n cond t p = (ok, t', p')"
  shows "sent (qp_world p') = sent (qp_world p)"
proof (cases "cond t")
  case True
  with assms(2) show ?thesis by (simp add: quic_wait_def)
next
  case False
  obtain evs p1 where e: "qcall (mq_wait api n) p = (evs, p1)" by fastforce
  obtain t2 p2 where d: "deliver_all api evs t p1 = (t2, p2)" by fastforce
  have "sent (qp_world p1) = sent (qp_world p)" using qcall_world [OF e] assms(1) by (simp add: send_observed_def)
  with deliver_all_sent [OF assms(1) d] assms(2) False e d show ?thesis by (simp add: quic_wait_def)
qed

lemma quic_send_sent:
  assumes api: "send_observed api sent" and run: "quic_send_payload api b t p = (ok, t', p')"
  shows "sent (qp_world p') = sent (qp_world p) \<or> (payload_ok b \<and> sent (qp_world p') = sent (qp_world p) @ [frame_payload b])"
    and "ok \<Longrightarrow> payload_ok b \<and> sent (qp_world p') = sent (qp_world p) @ [frame_payload b]"
proof -
  obtain ok1 t1 p1 where w1: "quic_wait api 10000 send_completed t p = (ok1, t1, p1)" by (metis prod_cases3)
  obtain ok2 p2 where c: "qcall (mq_stream_send api (the (current_stream t1)) (frame_payload b)) p1 = (ok2, p2)" by fastforce
  obtain ok3 t3 p3 where w2: "quic_wait api 10000 send_completed (set_send_complete False t1) p2 = (ok3, t3, p3)"
    by (metis prod_cases3)
  have s1: "sent (qp_world p1) = sent (qp_world p)" by (rule quic_wait_sent [OF api w1])
  have s2: "sent (qp_world p2) = (if ok2 then sent (qp_world p) @ [frame_payload b] else sent (qp_world p))"
    using qcall_world [OF c] api s1 by (simp add: send_observed_def)
  have s3: "sent (qp_world p3) = sent (qp_world p2)" by (rule quic_wait_sent [OF api w2])
  have cases: "(\<not> ok \<and> p' = p) \<or> (\<not> ok \<and> p' = p1) \<or> (\<not> ok \<and> \<not> ok2 \<and> p' = p2) \<or> (payload_ok b \<and> ok2 \<and> p' = p3)"
    using run w1 c w2
    by (auto simp: quic_send_payload_def payload_ok_def Let_def split: option.splits if_splits prod.splits)
  show "sent (qp_world p') = sent (qp_world p) \<or> (payload_ok b \<and> sent (qp_world p') = sent (qp_world p) @ [frame_payload b])"
    using cases s1 s2 s3 by auto
  show "ok \<Longrightarrow> payload_ok b \<and> sent (qp_world p') = sent (qp_world p) @ [frame_payload b]"
    using cases s1 s2 s3 by auto
qed

text \<open>Sending a list of payloads, each of them accepted.\<close>

fun quic_send_all ::
  "'w quic_api \<Rightarrow> bytes list \<Rightarrow> QuicSecureTransport \<Rightarrow> 'w quic_proc \<Rightarrow> bool \<times> QuicSecureTransport \<times> 'w quic_proc" where
  "quic_send_all api [] t p = (True, t, p)"
| "quic_send_all api (b # bs) t p =
     (case quic_send_payload api b t p of (ok, t1, p1) \<Rightarrow>
        if ok then quic_send_all api bs t1 p1 else (False, t1, p1))"

lemma quic_send_all_sent:
  "send_observed api sent \<Longrightarrow> quic_send_all api bs t p = (True, t', p') \<Longrightarrow>
     (\<forall>b \<in> set bs. payload_ok b) \<and> sent (qp_world p') = sent (qp_world p) @ map frame_payload bs"
proof (induction bs arbitrary: t p)
  case Nil
  then show ?case by simp
next
  case (Cons b bs)
  obtain ok t1 p1 where s: "quic_send_payload api b t p = (ok, t1, p1)" by (metis prod_cases3)
  with Cons.prems have ok: "ok" and rest: "quic_send_all api bs t1 p1 = (True, t', p')" by (auto split: if_splits)
  from quic_send_sent(2) [OF Cons.prems(1) s ok] Cons.IH [OF Cons.prems(1) rest] show ?case by simp
qed

text \<open>Receive events on an open stream.\<close>

lemma deliver_receives:
  "qt_stream_channel t = Some ch \<Longrightarrow> ch_stream ch \<noteq> None \<Longrightarrow>
     deliver_all api (map Ev_Stream_Receive events) t p = (t\<lparr>qt_stream_channel := Some (receive_all events ch)\<rparr>, p)"
proof (induction events arbitrary: t ch)
  case Nil
  then show ?case by (simp add: deliver_all_def receive_all_def)
next
  case (Cons ev events)
  let ?ch = "append_received_bytes ev ch"
  have "ch_stream ?ch \<noteq> None" using Cons.prems(2) receive_all_frame(2) [of "[ev]" ch] by (simp add: receive_all_def)
  then have "deliver_all api (map Ev_Stream_Receive events) (t\<lparr>qt_stream_channel := Some ?ch\<rparr>) p =
      (t\<lparr>qt_stream_channel := Some (receive_all events ?ch)\<rparr>, p)"
    using Cons.IH [of "t\<lparr>qt_stream_channel := Some ?ch\<rparr>" ?ch] by simp
  with Cons.prems show ?case by (auto simp: deliver_all_def receive_all_def)
qed

text \<open>
  The QUIC stream carries payloads unchanged: when every payload of a list is accepted by
  \<open>send_payload\<close>, each has 1 to 65536 bytes, and when the bytes handed to the stream arrive
  at the peer, cut in any way, its channel holds exactly the payloads, in order.
\<close>

lemma quic_stream_delivers:
  assumes "send_observed api sent" and "sent (qp_world p) = []" and "quic_send_all api bs t p = (True, t1, p1)"
    and "qt_stream_channel r = Some new_ch" and "new_ch = new_stream_channel\<lparr>ch_stream := Some h\<rparr>"
    and "concat (map concat events) = concat (sent (qp_world p1))"
  shows "\<exists>ch r'. deliver_all api' (map Ev_Stream_Receive events) r q = (r', q) \<and>
     qt_stream_channel r' = Some ch \<and> ch_frames ch = bs \<and> ch_reassembly ch = []"
proof -
  have s: "\<forall>b \<in> set bs. payload_ok b" "sent (qp_world p1) = map frame_payload bs"
    using quic_send_all_sent [OF assms(1,3)] assms(2) by auto
  have "ch_frames new_ch = []" "ch_reassembly new_ch = []" by (simp_all add: assms(5) new_stream_channel_def)
  then have "channel_at [] bs (concat (map concat events) @ []) new_ch"
    using assms(6) s by (simp add: channel_at_def)
  from receive_all_stream [OF s(1) this] obtain qs qs' where
    q: "bs = qs @ qs'" "channel_at ([] @ qs) qs' [] (receive_all events new_ch)" by blast
  then have "qs' = []" by (cases qs') (auto simp: channel_at_def)
  with q deliver_receives [OF assms(4), of api' events q] show ?thesis
    by (auto simp: channel_at_def assms(5))
qed

section \<open>A concrete MsQuic\<close>

text \<open>
  Every call succeeds; starting a connection produces its connected event, sending produces
  a completion event, and a wait yields the events produced so far. The world is the next
  handle, the buffers sent and the events.
\<close>

type_synonym sample_world = "nat \<times> bytes list \<times> quic_event list"

definition sample_quic :: "sample_world quic_api" where
  "sample_quic =
     \<lparr>mq_open2 = (\<lambda>w. (True, w)), mq_close = (\<lambda>w. w),
      mq_registration_open = (\<lambda>(n, s, e). (Some n, (n + 1, s, e))), mq_registration_close = (\<lambda>_ w. w),
      mq_configuration_open = (\<lambda>_ _ _ (n, s, e). (Some n, (n + 1, s, e))), mq_load_credential = (\<lambda>_ _ w. (True, w)),
      mq_configuration_close = (\<lambda>_ w. w),
      mq_connection_open = (\<lambda>_ (n, s, e). (Some n, (n + 1, s, e))),
      mq_connection_start = (\<lambda>c _ _ _ (n, s, e). (True, (n, s, e @ [Ev_Connected c]))),
      mq_connection_set_configuration = (\<lambda>_ _ w. (True, w)), mq_connection_shutdown = (\<lambda>_ w. w),
      mq_connection_close = (\<lambda>_ w. w),
      mq_listener_open = (\<lambda>_ (n, s, e). (Some n, (n + 1, s, e))), mq_listener_start = (\<lambda>_ _ _ w. (True, w)),
      mq_listener_close = (\<lambda>_ w. w),
      mq_stream_open = (\<lambda>_ (n, s, e). (Some n, (n + 1, s, e))), mq_stream_start = (\<lambda>_ w. (True, w)),
      mq_stream_send = (\<lambda>_ b (n, s, e). (True, (n, s @ [b], e @ [Ev_Stream_Send_Complete]))),
      mq_stream_close = (\<lambda>_ w. w), mq_set_callback = (\<lambda>_ _ w. w),
      mq_wait = (\<lambda>_ (n, s, e). (e, (n, s, []))), mq_poll = (\<lambda>w. ([], w))\<rparr>"

definition sample_proc :: "sample_world quic_proc" where
  "sample_proc = \<lparr>qp_msquic = new_msquic_globals, qp_world = (1, [], [])\<rparr>"

definition quic_client_config :: TunnelConfig where
  "quic_client_config =
     default_config\<lparr>tc_prefer_quic := True, tc_quic := default_quic_config\<lparr>qc_insecure := True\<rparr>\<rparr>"

definition quic_server_config :: TunnelConfig where
  "quic_server_config =
     default_config\<lparr>tc_role := Server, tc_prefer_quic := True,
       tc_quic := default_quic_config\<lparr>qc_cert_file := ''server.pem'', qc_key_file := ''server.key''\<rparr>\<rparr>"

lemmas sample_defs = sample_quic_def sample_proc_def new_quic_transport_def new_msquic_globals_def
  quic_client_config_def quic_server_config_def default_config_def default_quic_config_def
lemmas quic_connect_defs = quic_connect_def quic_close_def close_connection_def close_handles_def
  open_registration_def ensure_api_open_def msquic_acquire_def load_configuration_def choose_credential_def
  quic_start_client_def start_server_listener_def start_contexts_def qcall_def qdo_def

text \<open>A server that listens, and a client whose handshake and channel complete.\<close>

lemma sample_server_connects:
  "\<exists>t p. quic_connect sample_quic quic_server_config new_quic_transport sample_proc = (True, t, p) \<and>
     qt_listener t = Some 3 \<and> qt_registration t = Some 1"
  by (simp add: quic_connect_defs sample_defs Let_def)

definition sample_client :: "QuicSecureTransport \<times> sample_world quic_proc" where
  "sample_client = snd (quic_connect sample_quic quic_client_config new_quic_transport sample_proc)"

lemma sample_client_opens:
  "\<exists>t1 p1 t2 p2. quic_perform_handshake sample_quic (fst sample_client) (snd sample_client) = (True, t1, p1) \<and>
     quic_open_data_channel sample_quic t1 p1 = (True, t2, p2) \<and>
     \<not> qt_data_channel_open (fst sample_client)"
  by (simp add: sample_client_def quic_connect_defs sample_defs Let_def quic_perform_handshake_def
      wait_for_handshake_def quic_wait_def handshake_done_def new_handshake_state_def deliver_all_def
      connection_callback_def open_client_stream_def new_stream_channel_def quic_open_data_channel_def
      wait_for_stream_ready_def channel_ready_def)

section \<open>Properties\<close>

text \<open>
  C20. A transport that was ever connected is never released: \<open>connect\<close> begins by calling
  \<open>close\<close>, which sets the closed flag, and nothing clears it. After \<open>connect\<close>, whatever
  operations and events follow, \<open>close\<close> and \<open>reset_for_next_client\<close> return at once: the
  listener, the connection and the stream stay open.
\<close>

theorem quic_handles_never_released:
  assumes "quic_connect api config t p = (ok, t1, p1)"
  shows "(case fold (quic_step api) ops (t1, p1) of (t2, p2) \<Rightarrow>
     quic_close api t2 p2 = (t2, p2) \<and> reset_for_next_client api t2 p2 = (t2, p2))"
proof -
  have "qt_closed (fst (t1, p1))" using quic_connect_sets_closed [OF assms] by simp
  from quic_steps_keep_closed [OF this, of api ops] show ?thesis
    by (cases "fold (quic_step api) ops (t1, p1)") (simp add: quic_close_def reset_for_next_client_def)
qed

theorem quic_handles_never_released_witness:
  "\<exists>t p. quic_connect sample_quic quic_server_config new_quic_transport sample_proc = (True, t, p) \<and>
     qt_listener t = Some 3 \<and> quic_close sample_quic t p = (t, p)"
proof -
  obtain t p where c: "quic_connect sample_quic quic_server_config new_quic_transport sample_proc = (True, t, p)"
    "qt_listener t = Some 3" using sample_server_connects by blast
  from quic_handles_never_released [OF c(1), of "[]"] c show ?thesis by auto
qed



text \<open>
  C17. The TLS credential follows the policy: for a configuration that passes \<open>is_valid\<close>, a
  client loads a credential without certificate validation only towards the local host, and
  a server loads a 20-byte fingerprint or a named certificate and key file, never nothing.
\<close>

theorem quic_credential_policy:
  assumes "is_valid plat net c = None" and "tc_prefer_quic c"
  shows "(case choose_credential c of
      None \<Rightarrow> tc_role c = Server
    | Some Cred_Unset \<Rightarrow> False
    | Some (Cred_Client no_validation) \<Rightarrow>
        tc_role c = Client \<and> (no_validation \<longrightarrow> tc_endpoint c \<in> {''127.0.0.1'', ''localhost''})
    | Some (Cred_Hash_Store bs) \<Rightarrow> tc_role c = Server \<and> length bs = 20
    | Some (Cred_File cert key) \<Rightarrow> tc_role c = Server \<and> cert \<noteq> [] \<and> key \<noteq> [])"
proof -
  have "quic_policy c" using assms by (simp add: is_valid_None_iff config_policy_def)
  then show ?thesis
    by (cases "tc_role c") (auto simp: choose_credential_def quic_policy_def split: option.splits)
qed

theorem quic_credential_policy_witness:
  "\<forall>net. is_valid Posix net quic_client_config = None \<and> choose_credential quic_client_config = Some (Cred_Client True) \<and>
     tc_endpoint quic_client_config \<in> {''127.0.0.1'', ''localhost''}"
proof
  fix net :: "'a net_api"
  have v: "is_valid Posix net quic_client_config = None" "tc_prefer_quic quic_client_config"
    by (simp_all add: is_valid_def quic_error_def quic_client_config_def default_config_def default_quic_config_def)
  have "choose_credential quic_client_config = Some (Cred_Client True)"
    by (simp add: choose_credential_def quic_client_config_def default_config_def)
  with quic_credential_policy [OF v] v
  show "is_valid Posix net quic_client_config = None \<and> choose_credential quic_client_config = Some (Cred_Client True) \<and>
     tc_endpoint quic_client_config \<in> {''127.0.0.1'', ''localhost''}" by simp
qed

text \<open>
  C21. A server never leaves a dead client: when the engine resets the server session after an
  error, the transport, once connected, keeps its open channel, and the session is
  established again at once, without a new client.
\<close>

theorem quic_server_reset_keeps_dead_channel:
  assumes "quic_connect api config t0 p0 = (ok, t1, p1)" and "fold (quic_step api) ops (t1, p1) = (t, p)"
    and "qt_data_channel_open t" and "tc_role (te_config e) = Server"
    and "te_transport e = Some (quic_object api)" and "te_interface e = Some vi" and "te_inner e = Some s"
    and "vi_apply_client_routing vi (te_config e) (t, p) = (None, (t, p))"
  shows "\<exists>e1 e2. reset_server_session e (t, p) = (e1, (t, p)) \<and> engine_state e1 = Handshaking \<and>
     ensure_session_ready e1 (t, p) = (True, e2, (t, p)) \<and> engine_state e2 = Established"
proof -
  have "qt_closed (fst (t1, p1))" using quic_connect_sets_closed [OF assms(1)] by simp
  from quic_steps_keep_closed [OF this, of api ops] assms(2) have closed: "qt_closed t" by simp
  show ?thesis
    using assms(3-8) closed
    by (simp add: reset_server_session_def quic_object_def reset_for_next_client_def reset_to_handshaking_eq
        ensure_session_ready_def quic_open_data_channel_def engine_state_def engine_transition_def transition_to_eq)
qed

definition sample_interface :: "'w VirtualInterface" where
  "sample_interface =
     \<lparr>vi_open = (\<lambda>_ w. (True, w)), vi_read_packet = (\<lambda>w. ([], w)), vi_write_packet = (\<lambda>_ w. (True, w)),
      vi_close = (\<lambda>w. w), vi_apply_client_routing = base_apply_client_routing Posix,
      vi_clear_client_routing = base_clear_client_routing, vi_destroy = (\<lambda>w. w)\<rparr>"

lemma sample_interface_routes: "vi_apply_client_routing sample_interface c w = (None, w)"
  by (simp add: sample_interface_def base_apply_client_routing_def)

definition client_arrives :: "quic_op list" where
  "client_arrives =
     [Q_Event (Ev_New_Connection 9), Q_Event (Ev_Connected 9), Q_Event (Ev_Peer_Stream_Started 11), Q_Channel]"

lemma sample_server_session:
  "\<exists>t1 p1 t p. quic_connect sample_quic quic_server_config new_quic_transport sample_proc = (True, t1, p1) \<and>
     fold (quic_step sample_quic) client_arrives (t1, p1) = (t, p) \<and> qt_data_channel_open t"
  by (simp add: client_arrives_def quic_connect_defs sample_defs Let_def quic_open_data_channel_def
      wait_for_handshake_def quic_wait_def handshake_done_def new_handshake_state_def
      connection_callback_def listener_callback_def new_stream_channel_def
      wait_for_stream_ready_def channel_ready_def)

theorem quic_server_reset_keeps_dead_channel_witness:
  "\<exists>t1 p1 t p. quic_connect sample_quic quic_server_config new_quic_transport sample_proc = (True, t1, p1) \<and>
     fold (quic_step sample_quic) client_arrives (t1, p1) = (t, p) \<and>
     (\<exists>e1 e2. reset_server_session (new_engine quic_server_config (Some sample_interface) (Some (quic_object sample_quic))
          (Some (Development new_dev_session))) (t, p) = (e1, (t, p)) \<and> engine_state e1 = Handshaking \<and>
        ensure_session_ready e1 (t, p) = (True, e2, (t, p)) \<and> engine_state e2 = Established)"
proof -
  obtain t1 p1 t p where s: "quic_connect sample_quic quic_server_config new_quic_transport sample_proc = (True, t1, p1)"
    "fold (quic_step sample_quic) client_arrives (t1, p1) = (t, p)" "qt_data_channel_open t"
    using sample_server_session by blast
  let ?e = "new_engine quic_server_config (Some sample_interface) (Some (quic_object sample_quic))
          (Some (Development new_dev_session))"
  have "\<exists>e1 e2. reset_server_session ?e (t, p) = (e1, (t, p)) \<and> engine_state e1 = Handshaking \<and>
        ensure_session_ready e1 (t, p) = (True, e2, (t, p)) \<and> engine_state e2 = Established"
    by (rule quic_server_reset_keeps_dead_channel [OF s, where vi = sample_interface and s = "Development new_dev_session"])
      (simp_all add: new_engine_def quic_server_config_def sample_interface_routes)
  with s show ?thesis by blast
qed

end
