(* ===== verification/Quic_Tunnel.thy ===== *)
theory Quic_Tunnel
  imports Relay_Path Quic_Transport
begin

text \<open>
  Two hosts joined by QUIC: a client and a server engine, each on a development interface and
  a QUIC transport of its own process, over one network. MsQuic is a parameter on both sides.
  The laws assumed of it say what a QUIC stream promises: it carries the bytes that were
  sent, in order and cut anywhere, and it delivers nothing that was not sent.
\<close>

section \<open>Two hosts\<close>

record 'w hosts =
  ho_dev :: dev_world
  ho_ends :: "nat \<Rightarrow> QuicSecureTransport \<times> MsQuicGlobals"
  ho_net :: 'w

text \<open>The operations of an object placed in a larger world.\<close>

definition within :: "('s \<Rightarrow> 'w) \<Rightarrow> ('w \<Rightarrow> 's \<Rightarrow> 's) \<Rightarrow> ('w \<Rightarrow> 'r \<times> 'w) \<Rightarrow> 's \<Rightarrow> 'r \<times> 's" where
  "within get put f s = (case f (get s) of (r, w) \<Rightarrow> (r, put w s))"

definition interface_within :: "('s \<Rightarrow> 'w) \<Rightarrow> ('w \<Rightarrow> 's \<Rightarrow> 's) \<Rightarrow> 'w VirtualInterface \<Rightarrow> 's VirtualInterface" where
  "interface_within get put vi =
     \<lparr>vi_open = (\<lambda>mtu. within get put (vi_open vi mtu)),
      vi_read_packet = within get put (vi_read_packet vi),
      vi_write_packet = (\<lambda>p. within get put (vi_write_packet vi p)),
      vi_close = (\<lambda>s. put (vi_close vi (get s)) s),
      vi_apply_client_routing = (\<lambda>c. within get put (vi_apply_client_routing vi c)),
      vi_clear_client_routing = (\<lambda>s. put (vi_clear_client_routing vi (get s)) s),
      vi_destroy = (\<lambda>s. put (vi_destroy vi (get s)) s)\<rparr>"

definition transport_within :: "('s \<Rightarrow> 'w) \<Rightarrow> ('w \<Rightarrow> 's \<Rightarrow> 's) \<Rightarrow> 'w SecureTransport \<Rightarrow> 's SecureTransport" where
  "transport_within get put st =
     \<lparr>st_connect = (\<lambda>c. within get put (st_connect st c)),
      st_perform_handshake = within get put (st_perform_handshake st),
      st_open_data_channel = within get put (st_open_data_channel st),
      st_send_payload = (\<lambda>b. within get put (st_send_payload st b)),
      st_try_receive_payload = within get put (st_try_receive_payload st),
      st_close = (\<lambda>s. put (st_close st (get s)) s),
      st_reset_for_next_client = map_option (\<lambda>f s. put (f (get s)) s) (st_reset_for_next_client st),
      st_destroy = (\<lambda>s. put (st_destroy st (get s)) s)\<rparr>"

definition end_state :: "nat \<Rightarrow> 'w hosts \<Rightarrow> QuicSecureTransport \<times> 'w quic_proc" where
  "end_state i s = (fst (ho_ends s i), \<lparr>qp_msquic = snd (ho_ends s i), qp_world = ho_net s\<rparr>)"

definition set_end :: "nat \<Rightarrow> QuicSecureTransport \<times> 'w quic_proc \<Rightarrow> 'w hosts \<Rightarrow> 'w hosts" where
  "set_end i tp s = s\<lparr>ho_ends := (ho_ends s)(i := (fst tp, qp_msquic (snd tp))), ho_net := qp_world (snd tp)\<rparr>"

definition host_transport :: "(nat \<Rightarrow> 'w quic_api) \<Rightarrow> nat \<Rightarrow> 'w hosts SecureTransport" where
  "host_transport api i = transport_within (end_state i) (set_end i) (quic_object (api i))"

definition host_interface :: "platform \<Rightarrow> nat \<Rightarrow> 'w hosts VirtualInterface" where
  "host_interface plat i = interface_within ho_dev (\<lambda>d s. s\<lparr>ho_dev := d\<rparr>) (development_interface plat i)"

definition offer_packet :: "nat \<Rightarrow> bytes \<Rightarrow> 'w hosts \<Rightarrow> 'w hosts" where
  "offer_packet i p s = s\<lparr>ho_dev := inject_inbound_packet i p (ho_dev s)\<rparr>"

definition take_packet :: "nat \<Rightarrow> 'w hosts \<Rightarrow> bytes \<times> 'w hosts" where
  "take_packet i = within ho_dev (\<lambda>d s. s\<lparr>ho_dev := d\<rparr>) (dev_vi_read_packet i)"

text \<open>The QUIC operations of a host, in terms of its transport object and its process.\<close>

lemma host_transport_calls:
  "st_connect (host_transport api i) c s = within (end_state i) (set_end i) (\<lambda>(t, p). quic_connect (api i) c t p) s"
  "st_perform_handshake (host_transport api i) s = within (end_state i) (set_end i) (\<lambda>(t, p). quic_perform_handshake (api i) t p) s"
  "st_open_data_channel (host_transport api i) s = within (end_state i) (set_end i) (\<lambda>(t, p). quic_open_data_channel (api i) t p) s"
  "st_send_payload (host_transport api i) b s = within (end_state i) (set_end i) (\<lambda>(t, p). quic_send_payload (api i) b t p) s"
  "st_try_receive_payload (host_transport api i) s = within (end_state i) (set_end i) (\<lambda>(t, p). quic_try_receive_payload (api i) t p) s"
  by (simp_all add: host_transport_def transport_within_def quic_object_def)

lemma host_interface_calls:
  "vi_open (host_interface plat i) mtu s = within ho_dev (\<lambda>d s. s\<lparr>ho_dev := d\<rparr>) (dev_vi_open i mtu) s"
  "vi_read_packet (host_interface plat i) s = take_packet i s"
  "vi_write_packet (host_interface plat i) p s = within ho_dev (\<lambda>d s. s\<lparr>ho_dev := d\<rparr>) (dev_vi_write_packet i p) s"
  "vi_apply_client_routing (host_interface plat i) c s = (fst (base_apply_client_routing plat c (ho_dev s)), s)"
  by (simp_all add: host_interface_def interface_within_def development_interface_def take_packet_def within_def
      base_apply_client_routing_def)

section \<open>The laws of the network\<close>

text \<open>The bytes a list of events hands to the stream callback.\<close>

definition received :: "quic_event list \<Rightarrow> bytes" where
  "received evs = concat (map (\<lambda>ev. case ev of Ev_Stream_Receive buffers \<Rightarrow> concat buffers | _ \<Rightarrow> []) evs)"

text \<open>Events of an established connection that is not shut down.\<close>

fun steady_event :: "quic_event \<Rightarrow> bool" where
  "steady_event (Ev_Stream_Receive _) = True"
| "steady_event Ev_Stream_Send_Complete = True"
| "steady_event Ev_Stream_Other = True"
| "steady_event Ev_Connection_Other = True"
| "steady_event Ev_Listener_Other = True"
| "steady_event _ = False"

text \<open>
  While the connection is \<open>up\<close>, stream \<open>h\<close> of the sender carries bytes to the receiver.
  \<open>flight\<close> observes the bytes sent and not yet delivered. A send is accepted and completes in
  time; looking for events at the receiver delivers what is in flight, cut in any way;
  nothing comes back.
\<close>

definition stream_carries ::
  "'w quic_api \<Rightarrow> 'w quic_api \<Rightarrow> nat \<Rightarrow> ('w \<Rightarrow> bytes) \<Rightarrow> ('w \<Rightarrow> bool) \<Rightarrow> bool" where
  "stream_carries sender receiver h flight up \<longleftrightarrow>
     (\<forall>b w. up w \<longrightarrow> (\<exists>w1 evs w2. mq_stream_send sender h b w = (True, w1) \<and>
        mq_wait sender 10000 w1 = (evs, w2) \<and> Ev_Stream_Send_Complete \<in> set evs \<and>
        list_all steady_event evs \<and> received evs = [] \<and> up w2 \<and> flight w2 = flight w @ b)) \<and>
     (\<forall>w. up w \<longrightarrow> (\<exists>evs w1. mq_poll sender w = (evs, w1) \<and>
        list_all steady_event evs \<and> received evs = [] \<and> up w1 \<and> flight w1 = flight w)) \<and>
     (\<forall>w. up w \<longrightarrow> (\<exists>evs w1. mq_poll receiver w = (evs, w1) \<and>
        list_all steady_event evs \<and> received evs = flight w \<and> up w1 \<and> flight w1 = []))"

section \<open>Steady events\<close>

text \<open>A steady event reaches at most the stream callback.\<close>

lemma deliver_steady:
  assumes "steady_event ev" and "qt_stream_channel t = Some ch" and "ch_stream ch \<noteq> None"
  shows "deliver api ev (t, p) = (t\<lparr>qt_stream_channel := Some (stream_callback ev ch)\<rparr>, p)"
proof -
  have same: "t = t\<lparr>qt_stream_channel := Some ch\<rparr>" using assms(2) by simp
  show ?thesis
    using assms same by (cases ev) (auto simp: connection_callback_def listener_callback_def split: option.splits)
qed

lemma stream_callback_stream [simp]: "ch_stream (stream_callback ev ch) = ch_stream ch"
  by (cases ev) (auto simp: append_received_bytes_def split: prod.splits)

lemma deliver_all_steady:
  "list_all steady_event evs \<Longrightarrow> qt_stream_channel t = Some ch \<Longrightarrow> ch_stream ch \<noteq> None \<Longrightarrow>
     deliver_all api evs t p = (t\<lparr>qt_stream_channel := Some (fold stream_callback evs ch)\<rparr>, p)"
proof (induction evs arbitrary: t ch)
  case Nil
  then show ?case by (simp add: deliver_all_def)
next
  case (Cons ev evs)
  let ?t = "t\<lparr>qt_stream_channel := Some (stream_callback ev ch)\<rparr>"
  have "deliver_all api evs ?t p = (?t\<lparr>qt_stream_channel := Some (fold stream_callback evs (stream_callback ev ch))\<rparr>, p)"
    by (rule Cons.IH) (use Cons.prems in simp_all)
  then show ?case
    using Cons.prems deliver_steady [of ev t ch api p] by (simp add: deliver_all_def del: deliver.simps)
qed

lemma stream_callbacks_fields:
  "ch_stream (fold stream_callback evs ch) = ch_stream ch" "ch_msquic (fold stream_callback evs ch) = ch_msquic ch"
  "ch_send_complete (fold stream_callback evs ch) \<longleftrightarrow> ch_send_complete ch \<or> Ev_Stream_Send_Complete \<in> set evs"
proof (induction evs arbitrary: ch)
  case (Cons ev evs)
  { case 1 show ?case using Cons by simp
  next
    case 2 show ?case using Cons by (cases ev) (simp_all add: append_received_bytes_def split: prod.splits)
  next
    case 3 show ?case using Cons by (cases ev) (auto simp: append_received_bytes_def split: prod.splits) }
qed simp_all

text \<open>What arrives decides what the channel holds, whatever the cuts.\<close>

lemma stream_callbacks_deliver:
  "(\<forall>q \<in> set ps. payload_ok q) \<Longrightarrow> channel_at qs ps (received evs @ t) ch \<Longrightarrow>
     \<exists>rs rs'. ps = rs @ rs' \<and> channel_at (qs @ rs) rs' t (fold stream_callback evs ch)"
proof (induction evs arbitrary: qs ps ch)
  case Nil
  then show ?case by (intro exI [of _ "[]"] exI [of _ ps]) (simp add: received_def)
next
  case (Cons ev evs)
  have "\<exists>rs rs'. ps = rs @ rs' \<and> channel_at (qs @ rs) rs' (received evs @ t) (stream_callback ev ch)"
  proof (cases ev)
    case (Ev_Stream_Receive buffers)
    then have "channel_at qs ps (concat buffers @ received evs @ t) ch" using Cons.prems(2) by (simp add: received_def)
    from append_received_step [OF Cons.prems(1) this] Ev_Stream_Receive show ?thesis by (metis stream_callback.simps(1))
  qed (use Cons.prems(2) in \<open>auto simp: received_def channel_at_def\<close>)
  then obtain rs rs' where r: "ps = rs @ rs'" "channel_at (qs @ rs) rs' (received evs @ t) (stream_callback ev ch)" by blast
  have "\<forall>q \<in> set rs'. payload_ok q" using Cons.prems(1) r(1) by simp
  from Cons.IH [OF this r(2)] obtain ss ss' where
    "rs' = ss @ ss'" "channel_at ((qs @ rs) @ ss) ss' t (fold stream_callback evs (stream_callback ev ch))" by blast
  with r(1) show ?case by (intro exI [of _ "rs @ ss"] exI [of _ ss']) simp
qed

section \<open>The link\<close>

text \<open>An end whose data channel is open on a stream, with its channel.\<close>

definition open_on :: "nat \<Rightarrow> StreamChannel \<Rightarrow> QuicSecureTransport \<Rightarrow> bool" where
  "open_on h ch t \<longleftrightarrow>
     qt_data_channel_open t \<and> qt_stream_channel t = Some ch \<and> ch_stream ch = Some h \<and> ch_msquic ch"

text \<open>The sender has nothing outstanding; the receiver's channel agrees with the bytes in flight.\<close>

definition sender_idle :: "nat \<Rightarrow> QuicSecureTransport \<Rightarrow> bool" where
  "sender_idle h t \<longleftrightarrow> (\<exists>ch. open_on h ch t \<and> ch_send_complete ch \<and> ch_frames ch = [] \<and> ch_reassembly ch = [])"

definition receiver_holds :: "nat \<Rightarrow> bytes \<Rightarrow> bytes list \<Rightarrow> QuicSecureTransport \<Rightarrow> bool" where
  "receiver_holds k fl qs t \<longleftrightarrow>
     (\<exists>ch ps. open_on k ch t \<and> (\<forall>q \<in> set ps. payload_ok q) \<and> channel_at (ch_frames ch) ps fl ch \<and> qs = ch_frames ch @ ps)"

definition quic_pending :: "nat \<Rightarrow> ('w \<Rightarrow> bytes) \<Rightarrow> 'w hosts \<Rightarrow> bytes list" where
  "quic_pending j flight s =
     (case qt_stream_channel (fst (ho_ends s j)) of
        None \<Rightarrow> []
      | Some ch \<Rightarrow> fst (extract_frames (ch_frames ch) (ch_reassembly ch @ flight (ho_net s))))"

definition quic_link_inv ::
  "nat \<Rightarrow> nat \<Rightarrow> nat \<Rightarrow> nat \<Rightarrow> ('w \<Rightarrow> bytes) \<Rightarrow> ('w \<Rightarrow> bool) \<Rightarrow> 'w hosts \<Rightarrow> bool" where
  "quic_link_inv i j h k flight up s \<longleftrightarrow>
     dvi_opened (dw_interfaces (ho_dev s) i) \<and> dvi_opened (dw_interfaces (ho_dev s) j) \<and> up (ho_net s) \<and>
     sender_idle h (fst (ho_ends s i)) \<and> (\<exists>qs. receiver_holds k (flight (ho_net s)) qs (fst (ho_ends s j)))"

definition host_packet :: "nat \<Rightarrow> 'w hosts \<Rightarrow> bytes" where
  "host_packet i s = dvi_packet (dw_interfaces (ho_dev s) i)"

lemma extract_all: "(\<forall>q \<in> set ps. payload_ok q) \<Longrightarrow> extract_frames fs (concat (map frame_payload ps)) = (fs @ ps, [])"
proof (induction ps arbitrary: fs)
  case Nil
  then show ?case by (simp add: extract_short)
next
  case (Cons p ps)
  then show ?case using extract_complete [of p fs "concat (map frame_payload ps)"] by simp
qed

lemma receiver_pending:
  assumes "receiver_holds k (flight (ho_net s)) qs (fst (ho_ends s j))"
  shows "quic_pending j flight s = qs"
  using assms extract_all by (auto simp: receiver_holds_def quic_pending_def open_on_def channel_at_def)

text \<open>Steady events that bring no bytes leave the sender idle.\<close>

lemma empty_channel_quiet:
  assumes "received evs = []" and "ch_frames ch = []" and "ch_reassembly ch = []"
  shows "ch_frames (fold stream_callback evs ch) = [] \<and> ch_reassembly (fold stream_callback evs ch) = []"
  using stream_callbacks_deliver [of "[]" "[]" evs "[]" ch] assms by (simp add: channel_at_def)

lemma sender_receives_nothing:
  assumes "sender_idle h t" and "mq_poll api (qp_world p) = (evs, w)" and "list_all steady_event evs" and "received evs = []"
  shows "\<exists>t'. quic_try_receive_payload api t p = (Some [], t', p\<lparr>qp_world := w\<rparr>) \<and> sender_idle h t'"
proof -
  obtain ch where ch: "open_on h ch t" "ch_send_complete ch" "ch_frames ch = []" "ch_reassembly ch = []"
    using assms(1) by (auto simp: sender_idle_def)
  have "deliver_all api evs t q = (t\<lparr>qt_stream_channel := Some (fold stream_callback evs ch)\<rparr>, q)" for q
    by (rule deliver_all_steady [OF assms(3)]) (use ch in \<open>simp_all add: open_on_def\<close>)
  with assms(2) ch empty_channel_quiet [OF assms(4) ch(3,4)] show ?thesis
    by (simp add: quic_try_receive_payload_def qcall_def sender_idle_def open_on_def stream_callbacks_fields)
qed

lemma sender_sends:
  assumes "sender_idle h t" and "payload_ok b" and "mq_stream_send api h (frame_payload b) (qp_world p) = (True, w1)"
    and "mq_wait api 10000 w1 = (evs, w2)" and "Ev_Stream_Send_Complete \<in> set evs"
    and "list_all steady_event evs" and "received evs = []"
  shows "\<exists>t'. quic_send_payload api b t p = (True, t', p\<lparr>qp_world := w2\<rparr>) \<and> sender_idle h t'"
proof -
  obtain ch where ch: "open_on h ch t" "ch_send_complete ch" "ch_frames ch = []" "ch_reassembly ch = []"
    using assms(1) by (auto simp: sender_idle_def)
  let ?ch = "ch\<lparr>ch_send_complete := False\<rparr>" let ?ch' = "fold stream_callback evs ?ch"
  let ?t = "t\<lparr>qt_stream_channel := Some ?ch\<rparr>"
  have quiet: "ch_frames ?ch' = [] \<and> ch_reassembly ?ch' = []" using empty_channel_quiet [OF assms(7)] ch by simp
  have "deliver_all api evs ?t q = (?t\<lparr>qt_stream_channel := Some ?ch'\<rparr>, q)" for q
    by (rule deliver_all_steady [OF assms(6)]) (use ch in \<open>simp_all add: open_on_def\<close>)
  then have "quic_send_payload api b t p = (True, ?t\<lparr>qt_stream_channel := Some ?ch'\<rparr>, p\<lparr>qp_world := w2\<rparr>)"
    using ch assms(2-5)
    by (simp add: quic_send_payload_def open_on_def quic_wait_def send_completed_def set_send_complete_def
        current_stream_def qcall_def payload_ok_def stream_callbacks_fields)
  with ch quiet assms(5) show ?thesis by (simp add: sender_idle_def open_on_def stream_callbacks_fields)
qed

lemma receiver_gains:
  assumes "receiver_holds k fl qs t" and "payload_ok b"
  shows "receiver_holds k (fl @ frame_payload b) (qs @ [b]) t"
proof -
  obtain ch ps where ch: "open_on k ch t" "\<forall>q \<in> set ps. payload_ok q" "channel_at (ch_frames ch) ps fl ch" "qs = ch_frames ch @ ps"
    using assms(1) by (auto simp: receiver_holds_def)
  have "channel_at (ch_frames ch) (ps @ [b]) (fl @ frame_payload b) ch"
    using ch(3) by (cases ps) (auto simp: channel_at_def)
  with ch assms(2) show ?thesis unfolding receiver_holds_def by (intro exI [of _ ch] exI [of _ "ps @ [b]"]) simp
qed

lemma receiver_takes:
  assumes "receiver_holds k fl qs t" and "mq_poll api (qp_world p) = (evs, w)" and "list_all steady_event evs" and "received evs = fl"
  shows "\<exists>t'. quic_try_receive_payload api t p = (Some (case qs of [] \<Rightarrow> [] | c # _ \<Rightarrow> c), t', p\<lparr>qp_world := w\<rparr>) \<and>
    receiver_holds k [] (tl qs) t'"
proof -
  obtain ch ps where ch: "open_on k ch t" "\<forall>q \<in> set ps. payload_ok q" "channel_at (ch_frames ch) ps fl ch" "qs = ch_frames ch @ ps"
    using assms(1) by (auto simp: receiver_holds_def)
  let ?ch = "fold stream_callback evs ch"
  have d: "deliver_all api evs t q = (t\<lparr>qt_stream_channel := Some ?ch\<rparr>, q)" for q
    by (rule deliver_all_steady [OF assms(3)]) (use ch in \<open>simp_all add: open_on_def\<close>)
  have "channel_at (ch_frames ch) ps (received evs @ []) ch" using ch(3) assms(4) by simp
  from stream_callbacks_deliver [OF ch(2) this] obtain rs rs' where
    "ps = rs @ rs'" "channel_at (ch_frames ch @ rs) rs' [] ?ch" by blast
  then have all: "ch_frames ?ch = qs" "ch_reassembly ?ch = []" using ch(4) by (cases rs'; auto simp: channel_at_def)+
  let ?t = "t\<lparr>qt_stream_channel := Some (?ch\<lparr>ch_frames := tl qs\<rparr>)\<rparr>"
  have "?ch\<lparr>ch_frames := tl qs\<rparr> = ?ch" if "qs = []" using that all(1) by simp
  then have "quic_try_receive_payload api t p = (Some (case qs of [] \<Rightarrow> [] | c # _ \<Rightarrow> c), ?t, p\<lparr>qp_world := w\<rparr>)"
    using assms(2) ch(1) d all(1)
    by (auto simp: quic_try_receive_payload_def qcall_def open_on_def split: list.splits)
  moreover have "receiver_holds k [] (tl qs) ?t"
    using ch(1) all(2) unfolding receiver_holds_def
    by (intro exI [of _ "?ch\<lparr>ch_frames := tl qs\<rparr>"] exI [of _ "[]"]) (simp add: open_on_def channel_at_def stream_callbacks_fields)
  ultimately show ?thesis by blast
qed

text \<open>The hosts' fields after an operation of one end or interface.\<close>

lemma set_end_simps [simp]:
  "ho_dev (set_end i tp s) = ho_dev s" "ho_net (set_end i tp s) = qp_world (snd tp)"
  "ho_ends (set_end i tp s) = (ho_ends s)(i := (fst tp, qp_msquic (snd tp)))"
  by (simp_all add: set_end_def)

lemma end_state_simps [simp]: "fst (end_state i s) = fst (ho_ends s i)" "qp_world (snd (end_state i s)) = ho_net s"
  by (simp_all add: end_state_def)

lemma within_end:
  assumes "f (fst (ho_ends s i)) (snd (end_state i s)) = (r, t, (snd (end_state i s))\<lparr>qp_world := w\<rparr>)"
  shows "within (end_state i) (set_end i) (\<lambda>(t, p). f t p) s =
    (r, s\<lparr>ho_ends := (ho_ends s)(i := (t, snd (ho_ends s i))), ho_net := w\<rparr>)"
  using assms by (simp add: within_def end_state_def set_end_def)

lemma host_interface_steps:
  assumes "dvi_opened (dw_interfaces (ho_dev s) i)"
  shows "take_packet i s = (host_packet i s, offer_packet i [] s)"
    and "p \<noteq> [] \<Longrightarrow> vi_write_packet (host_interface plat i) p s = (True, offer_packet i p s)"
  using assms
  by (simp_all add: take_packet_def host_interface_calls within_def dev_vi_read_packet_def dev_vi_write_packet_def
      offer_packet_def inject_inbound_packet_def host_packet_def Let_def)

lemma offer_packet_link:
  "quic_link_inv i j h k flight up (offer_packet n p s) = quic_link_inv i j h k flight up s"
  "quic_pending j flight (offer_packet n p s) = quic_pending j flight s"
  "host_packet m (offer_packet n p s) = (if m = n then p else host_packet m s)"
  by (auto simp: quic_link_inv_def quic_pending_def offer_packet_def inject_inbound_packet_def host_packet_def
      split: option.splits)

lemma quic_link_opened:
  "quic_link_inv i j h k flight up s \<Longrightarrow> dvi_opened (dw_interfaces (ho_dev s) i) \<and> dvi_opened (dw_interfaces (ho_dev s) j)"
  by (simp add: quic_link_inv_def)

lemma quic_one_way_link:
  assumes ij: "i \<noteq> j" and carries: "stream_carries (api i) (api j) h flight up"
  shows "one_way_link (host_interface plat i) (host_transport api i) (host_interface plat j) (host_transport api j)
    (quic_link_inv i j h k flight up) (host_packet i) (host_packet j) (quic_pending j flight) (offer_packet i) (take_packet j)"
proof (unfold_locales, goal_cases)
  case (1 s)
  note opened = quic_link_opened [OF 1]
  from 1 show ?case using host_interface_steps(1) [of s i] ij opened
    by (simp add: host_interface_calls(2) offer_packet_link)
next
  case (2 s c)
  have ok: "payload_ok (c)" using 2 by (simp add: payload_ok_def)
  obtain qs where inv: "up (ho_net s)" "sender_idle h (fst (ho_ends s i))" "receiver_holds k (flight (ho_net s)) qs (fst (ho_ends s j))"
    using 2(1) by (auto simp: quic_link_inv_def)
  obtain w1 evs w2 where m: "mq_stream_send (api i) h (frame_payload c) (ho_net s) = (True, w1)" "mq_wait (api i) 10000 w1 = (evs, w2)"
      "Ev_Stream_Send_Complete \<in> set evs" "list_all steady_event evs" "received evs = []" "up w2"
      "flight w2 = flight (ho_net s) @ frame_payload c"
    using carries inv(1) unfolding stream_carries_def by blast
  obtain t where t: "quic_send_payload (api i) c (fst (ho_ends s i)) (snd (end_state i s)) =
      (True, t, (snd (end_state i s))\<lparr>qp_world := w2\<rparr>)" "sender_idle h t"
    using sender_sends [OF inv(2) ok _ m(2-5), of "snd (end_state i s)"] m(1) by auto
  let ?s = "s\<lparr>ho_ends := (ho_ends s)(i := (t, snd (ho_ends s i))), ho_net := w2\<rparr>"
  have r: "receiver_holds k (flight (ho_net ?s)) (qs @ [c]) (fst (ho_ends ?s j))"
    using receiver_gains [OF inv(3) ok] m(7) ij by simp
  have "quic_link_inv i j h k flight up ?s" using 2(1) m(6) t(2) r by (auto simp: quic_link_inv_def)
  moreover have "quic_pending j flight ?s = quic_pending j flight s @ [c]"
    using receiver_pending [where flight = flight and s = ?s, OF r] receiver_pending [where flight = flight and s = s, OF inv(3)] by simp
  ultimately show ?case using within_end [of "quic_send_payload (api i) c", OF t(1)]
    by (intro exI [of _ ?s]) (simp add: host_transport_calls host_packet_def)
next
  case (3 s)
  obtain qs where inv: "up (ho_net s)" "sender_idle h (fst (ho_ends s i))" "receiver_holds k (flight (ho_net s)) qs (fst (ho_ends s j))"
    using 3 by (auto simp: quic_link_inv_def)
  obtain evs w where m: "mq_poll (api i) (ho_net s) = (evs, w)" "list_all steady_event evs" "received evs = []" "up w"
      "flight w = flight (ho_net s)"
    using carries inv(1) unfolding stream_carries_def by blast
  obtain t where t: "quic_try_receive_payload (api i) (fst (ho_ends s i)) (snd (end_state i s)) =
      (Some [], t, (snd (end_state i s))\<lparr>qp_world := w\<rparr>)" "sender_idle h t"
    using sender_receives_nothing [OF inv(2) _ m(2,3), of "api i" "snd (end_state i s)"] m(1) by auto
  let ?s = "s\<lparr>ho_ends := (ho_ends s)(i := (t, snd (ho_ends s i))), ho_net := w\<rparr>"
  have r: "receiver_holds k (flight (ho_net ?s)) qs (fst (ho_ends ?s j))" using inv(3) m(5) ij by simp
  have "quic_link_inv i j h k flight up ?s" using 3 m(4) t(2) r by (auto simp: quic_link_inv_def)
  moreover have "quic_pending j flight ?s = quic_pending j flight s"
    using receiver_pending [where flight = flight and s = ?s, OF r] receiver_pending [where flight = flight and s = s, OF inv(3)] by simp
  ultimately show ?case using within_end [of "quic_try_receive_payload (api i)", OF t(1)]
    by (intro exI [of _ ?s]) (simp add: host_transport_calls host_packet_def)
next
  case (4 s)
  note opened = quic_link_opened [OF 4(1)]
  from 4 show ?case using host_interface_steps(1) [of s j] ij opened
    by (simp add: host_interface_calls(2) offer_packet_link)
next
  case (5 s)
  obtain qs where inv: "up (ho_net s)" "sender_idle h (fst (ho_ends s i))" "receiver_holds k (flight (ho_net s)) qs (fst (ho_ends s j))"
    using 5 by (auto simp: quic_link_inv_def)
  obtain evs w where m: "mq_poll (api j) (ho_net s) = (evs, w)" "list_all steady_event evs" "received evs = flight (ho_net s)" "up w"
      "flight w = []"
    using carries inv(1) unfolding stream_carries_def by blast
  obtain t where t: "quic_try_receive_payload (api j) (fst (ho_ends s j)) (snd (end_state j s)) =
      (Some (case qs of [] \<Rightarrow> [] | c # _ \<Rightarrow> c), t, (snd (end_state j s))\<lparr>qp_world := w\<rparr>)" "receiver_holds k [] (tl qs) t"
    using receiver_takes [OF inv(3) _ m(2,3), of "api j" "snd (end_state j s)"] m(1) by auto
  let ?s = "s\<lparr>ho_ends := (ho_ends s)(j := (t, snd (ho_ends s j))), ho_net := w\<rparr>"
  have r: "receiver_holds k (flight (ho_net ?s)) (tl qs) (fst (ho_ends ?s j))" using t(2) m(5) by simp
  have "quic_link_inv i j h k flight up ?s" using 5 m(4) r ij by (auto simp: quic_link_inv_def)
  moreover have "quic_pending j flight ?s = tl (quic_pending j flight s)" "quic_pending j flight s = qs"
    using receiver_pending [where flight = flight and s = ?s, OF r] receiver_pending [where flight = flight and s = s, OF inv(3)] by simp_all
  ultimately show ?case using within_end [of "quic_try_receive_payload (api j)", OF t(1)]
    by (intro exI [of _ ?s]) (simp add: host_transport_calls host_packet_def)
next
  case (6 s p)
  note opened = quic_link_opened [OF 6(1)]
  from 6 show ?case using host_interface_steps(2) [of s j p] ij opened
    by (simp add: offer_packet_link)
next
  case (7 s p)
  then show ?case using ij by (simp add: offer_packet_link)
next
  case (8 s)
  note opened = quic_link_opened [OF 8]
  from 8 show ?case using host_interface_steps(1) [of s j] ij opened
    by (simp add: offer_packet_link)
qed

section \<open>Starting over QUIC\<close>

text \<open>
  While nothing is in flight, no call but a send puts anything in flight, and no event brings
  bytes. This is what a stream that invents no data gives.
\<close>

definition invents_nothing :: "('w \<Rightarrow> bool) \<Rightarrow> 'w quic_api \<Rightarrow> bool" where
  "invents_nothing quiet api \<longleftrightarrow> (\<forall>w. quiet w \<longrightarrow>
     quiet (snd (mq_open2 api w)) \<and> quiet (snd (mq_registration_open api w)) \<and>
     (\<forall>r a s. quiet (snd (mq_configuration_open api r a s w))) \<and>
     (\<forall>c d. quiet (snd (mq_load_credential api c d w))) \<and>
     (\<forall>r. quiet (snd (mq_connection_open api r w))) \<and>
     (\<forall>c f e n. quiet (snd (mq_connection_start api c f e n w))) \<and>
     (\<forall>c f. quiet (snd (mq_connection_set_configuration api c f w))) \<and>
     (\<forall>r. quiet (snd (mq_listener_open api r w))) \<and>
     (\<forall>l a n. quiet (snd (mq_listener_start api l a n w))) \<and>
     (\<forall>c. quiet (snd (mq_stream_open api c w))) \<and> (\<forall>h. quiet (snd (mq_stream_start api h w))) \<and>
     (\<forall>h. quiet (mq_stream_close api h w)) \<and> (\<forall>h b. quiet (mq_set_callback api h b w)) \<and>
     (\<forall>n. received (fst (mq_wait api n w)) = [] \<and> quiet (snd (mq_wait api n w))))"

text \<open>A channel on which nothing was sent or received.\<close>

definition unused_channel :: "StreamChannel option \<Rightarrow> bool" where
  "unused_channel x \<longleftrightarrow>
     (\<forall>ch. x = Some ch \<longrightarrow> ch_frames ch = [] \<and> ch_reassembly ch = [] \<and> ch_send_complete ch \<and> (ch_stream ch \<noteq> None \<longrightarrow> ch_msquic ch))"

definition unused_end :: "('w \<Rightarrow> bool) \<Rightarrow> QuicSecureTransport \<Rightarrow> 'w quic_proc \<Rightarrow> bool" where
  "unused_end quiet t p \<longleftrightarrow> unused_channel (qt_stream_channel t) \<and> quiet (qp_world p)"

lemma new_channel_unused: "unused_channel (Some new_stream_channel)"
  by (simp add: unused_channel_def new_stream_channel_def)

lemma append_nothing: "concat bs = [] \<Longrightarrow> ch_frames ch = [] \<Longrightarrow> ch_reassembly ch = [] \<Longrightarrow> append_received_bytes bs ch = ch"
  by (simp add: append_received_bytes_def extract_short del: concat_eq_Nil_conv)

lemma open_client_stream_unused:
  assumes "invents_nothing quiet api" and "unused_end quiet t p" and "open_client_stream api c t p = (ok, t', p')"
  shows "unused_end quiet t' p'"
  using assms
  by (auto simp: open_client_stream_def invents_nothing_def unused_end_def unused_channel_def qdo_def Let_def
      dest!: qcall_world split: option.splits if_splits prod.splits)

lemma deliver_unused:
  assumes api: "invents_nothing quiet api" and "received [ev] = []" and "unused_end quiet t p" and "deliver api ev (t, p) = (t', p')"
  shows "unused_end quiet t' p'"
proof (cases ev)
  case (Ev_Connected c)
  have "unused_end quiet (t\<lparr>qt_handshake_state := x\<rparr>) p" for x using assms(3) by (simp add: unused_end_def)
  from open_client_stream_unused [OF api this] assms(3,4) Ev_Connected show ?thesis
    by (auto simp: connection_callback_def unused_end_def Let_def split: option.splits if_splits) (metis prod.collapse)+
next
  case (Ev_Stream_Receive bs)
  with assms(2-4) show ?thesis
    by (auto simp: received_def unused_end_def unused_channel_def append_nothing split: option.splits if_splits)
qed (use assms in \<open>auto simp: connection_callback_def listener_callback_def unused_end_def unused_channel_def
      invents_nothing_def qdo_def Let_def dest!: qcall_world split: option.splits if_splits prod.splits\<close>)

lemma deliver_all_unused:
  "invents_nothing quiet api \<Longrightarrow> received evs = [] \<Longrightarrow> unused_end quiet t p \<Longrightarrow> deliver_all api evs t p = (t', p') \<Longrightarrow> unused_end quiet t' p'"
proof (induction evs arbitrary: t p)
  case Nil
  then show ?case by (simp add: deliver_all_def)
next
  case (Cons ev evs)
  obtain t1 p1 where d: "deliver api ev (t, p) = (t1, p1)" by fastforce
  with Cons.prems(4) have "deliver_all api evs t1 p1 = (t', p')" by (simp add: deliver_all_def del: deliver.simps)
  moreover have "received [ev] = []" "received evs = []" using Cons.prems(2) by (simp_all add: received_def)
  ultimately show ?case using Cons.IH deliver_unused [OF Cons.prems(1) _ Cons.prems(3) d] Cons.prems(1) by blast
qed

lemma quic_wait_unused:
  assumes api: "invents_nothing quiet api" and "unused_end quiet t p" and "quic_wait api n cond t p = (ok, t', p')"
  shows "unused_end quiet t' p'"
proof (cases "cond t")
  case True
  with assms show ?thesis by (simp add: quic_wait_def)
next
  case False
  obtain evs p1 where e: "qcall (mq_wait api n) p = (evs, p1)" by fastforce
  obtain t2 p2 where d: "deliver_all api evs t p1 = (t2, p2)" by fastforce
  have "received evs = []" "unused_end quiet t p1"
    using qcall_world [OF e] assms(1,2) by (auto simp: invents_nothing_def unused_end_def)
  from deliver_all_unused [OF api this d] assms(3) False e d show ?thesis by (simp add: quic_wait_def)
qed

lemma unused_end_cong: "qt_stream_channel t' = qt_stream_channel t \<Longrightarrow> unused_end quiet t' p = unused_end quiet t p"
  by (simp add: unused_end_def)

lemma waits_unused:
  assumes api: "invents_nothing quiet api" and u: "unused_end quiet t p"
  shows "wait_for_handshake api n t p = (ok, t', p') \<Longrightarrow> unused_end quiet t' p'"
    and "wait_for_stream_ready api n t p = (ok, t', p') \<Longrightarrow> unused_end quiet t' p'"
  using u quic_wait_unused [OF api u]
  by (auto simp: wait_for_handshake_def wait_for_stream_ready_def quic_set_error_def unused_end_def
      split: option.splits if_splits prod.splits)

lemma handshake_unused:
  assumes "invents_nothing quiet api" and "unused_end quiet t p" and "quic_perform_handshake api t p = (ok, t', p')"
  shows "unused_end quiet t' p'"
proof -
  have start: "unused_end quiet t p1" if "qcall (mq_connection_start api c f e n) p = (b, p1)" for c f e n b p1
    using qcall_world [OF that] assms(1,2) by (simp add: invents_nothing_def unused_end_def)
  then show ?thesis
    using assms waits_unused(1) [OF assms(1) start]
    by (auto simp: quic_perform_handshake_def quic_set_error_def split: option.splits if_splits prod.splits)
      (auto simp: unused_end_def)
qed

lemma open_channel_unused:
  assumes "invents_nothing quiet api" and "unused_end quiet t p" and "quic_open_data_channel api t p = (ok, t', p')"
  shows "unused_end quiet t' p' \<and> (ok \<longrightarrow> qt_data_channel_open t')"
proof -
  obtain ok1 t1 p1 where h: "(if tc_role (qt_config t) = Server then wait_for_handshake api 15000 t p else (True, t, p)) = (ok1, t1, p1)"
    by (metis prod_cases3)
  obtain ok2 t2 p2 where r: "wait_for_stream_ready api 10000 t1 p1 = (ok2, t2, p2)" by (metis prod_cases3)
  have u1: "unused_end quiet t1 p1" using h waits_unused(1) [OF assms(1,2)] assms(2) by (auto split: if_splits)
  have u2: "unused_end quiet t2 p2" by (rule waits_unused(2) [OF assms(1) u1 r])
  show ?thesis using assms(2,3) h r u1 u2
    by (auto simp: quic_open_data_channel_def unused_end_def split: if_splits)
qed

text \<open>Connecting a new transport.\<close>

lemma close_new: "quic_close api new_quic_transport p = (new_quic_transport\<lparr>qt_closed := True\<rparr>, p)"
  by (simp add: quic_close_def new_quic_transport_def close_connection_def close_handles_def Let_def)

lemma connect_unused:
  assumes api: "invents_nothing quiet api" and "quiet (qp_world p)"
    and "quic_connect api c new_quic_transport p = (True, t', p')"
  shows "unused_end quiet t' p'"
proof -
  let ?t = "new_quic_transport\<lparr>qt_closed := True, qt_config := c\<rparr>"
  obtain ok1 t1 p1 where r: "open_registration api ?t p = (ok1, t1, p1)" by (metis prod_cases3)
  obtain ok2 t2 p2 where l: "load_configuration api t1 p1 = (ok2, t2, p2)" by (metis prod_cases3)
  obtain ok3 t3 p3 where s: "(if tc_role (qt_config t2) = Client then quic_start_client api t2 p2
      else start_server_listener api t2 p2) = (ok3, t3, p3)" by (metis prod_cases3)
  have ok: "ok1" "ok2" "ok3" "t' = t3" "p' = p3"
    using assms(3) r l s by (auto simp: quic_connect_def close_new quic_fail_def Let_def split: if_splits prod.splits)
  have opened: "quiet w1" if "mq_open2 api (qp_world p) = (b, w1)" for b w1
    using assms(1,2) that unfolding invents_nothing_def by (metis snd_conv)
  have "quiet (qp_world p1)"
    using r assms(1,2) by (auto simp: open_registration_def ensure_api_open_def msquic_acquire_def invents_nothing_def
        dest!: qcall_world opened split: if_splits prod.splits option.splits)
  then have "quiet (qp_world p2)"
    using l assms(1) by (auto simp: load_configuration_def invents_nothing_def Let_def
        dest!: qcall_world split: if_splits prod.splits option.splits)
  then show ?thesis
    using s ok assms(1) new_channel_unused
    by (auto simp: quic_start_client_def start_server_listener_def start_contexts_def invents_nothing_def unused_end_def
        Let_def dest!: qcall_world split: if_splits prod.splits option.splits)
qed

section \<open>Engines on hosts\<close>

text \<open>An operation of one end leaves the rest of the hosts alone.\<close>

definition only_end :: "nat \<Rightarrow> 'w hosts \<Rightarrow> 'w hosts \<Rightarrow> bool" where
  "only_end i s s' \<longleftrightarrow> ho_dev s' = ho_dev s \<and> (\<forall>j. j \<noteq> i \<longrightarrow> ho_ends s' j = ho_ends s j)"

definition idle_end :: "('w \<Rightarrow> bool) \<Rightarrow> nat \<Rightarrow> 'w hosts \<Rightarrow> bool" where
  "idle_end quiet i s \<longleftrightarrow> unused_channel (qt_stream_channel (fst (ho_ends s i))) \<and> quiet (ho_net s)"

lemma idle_end_eq: "idle_end quiet i s = unused_end quiet (fst (end_state i s)) (snd (end_state i s))"
  by (simp add: idle_end_def unused_end_def)

lemma within_endD:
  assumes "within (end_state i) (set_end i) (\<lambda>(t, p). f t p) s = (r, s')"
  shows "only_end i s s' \<and> f (fst (end_state i s)) (snd (end_state i s)) = (r, fst (end_state i s'), snd (end_state i s'))"
  using assms by (auto simp: within_def only_end_def end_state_def set_end_def split: prod.splits)

lemma host_connect:
  assumes "invents_nothing quiet (api i)" and "fst (ho_ends s i) = new_quic_transport" and "quiet (ho_net s)"
    and "st_connect (host_transport api i) c s = (True, s')"
  shows "only_end i s s' \<and> idle_end quiet i s'"
proof -
  note d = within_endD [OF assms(4) [unfolded host_transport_calls]]
  then have "quic_connect (api i) c new_quic_transport (snd (end_state i s)) = (True, fst (end_state i s'), snd (end_state i s'))"
    using assms(2) by simp
  from connect_unused [OF assms(1) _ this] assms(3) d show ?thesis by (simp add: idle_end_eq del: end_state_simps(1))
qed

lemma host_handshake:
  assumes "invents_nothing quiet (api i)" and "idle_end quiet i s" and "st_perform_handshake (host_transport api i) s = (ok, s')"
  shows "only_end i s s' \<and> idle_end quiet i s'"
  using within_endD [OF assms(3) [unfolded host_transport_calls]]
    handshake_unused [OF assms(1) assms(2) [unfolded idle_end_eq]] by (metis idle_end_eq)

lemma host_open_channel:
  assumes "invents_nothing quiet (api i)" and "idle_end quiet i s" and "st_open_data_channel (host_transport api i) s = (True, s')"
  shows "only_end i s s' \<and> idle_end quiet i s' \<and> qt_data_channel_open (fst (ho_ends s' i))"
  using within_endD [OF assms(3) [unfolded host_transport_calls]]
    open_channel_unused [OF assms(1) assms(2) [unfolded idle_end_eq]] by (metis idle_end_eq end_state_simps(1))

lemma host_open_interface:
  assumes "vi_open (host_interface plat i) mtu s = (True, s')"
  shows "ho_ends s' = ho_ends s \<and> ho_net s' = ho_net s \<and> dvi_opened (dw_interfaces (ho_dev s') i) \<and>
    host_packet j s' = host_packet j s \<and> (j \<noteq> i \<longrightarrow> dvi_opened (dw_interfaces (ho_dev s') j) = dvi_opened (dw_interfaces (ho_dev s) j))"
  using assms by (auto simp: host_interface_calls within_def dev_vi_open_def host_packet_def Let_def)

text \<open>Two processes that have just been started, on a given network.\<close>

definition new_hosts :: "'w \<Rightarrow> 'w hosts" where
  "new_hosts net = \<lparr>ho_dev = new_dev_world, ho_ends = (\<lambda>_. (new_quic_transport, new_msquic_globals)), ho_net = net\<rparr>"

definition nothing_in_flight :: "(nat \<Rightarrow> 'w \<Rightarrow> bytes) \<Rightarrow> 'w \<Rightarrow> bool" where
  "nothing_in_flight flight w \<longleftrightarrow> flight 0 w = [] \<and> flight 1 w = []"

lemma routing_keeps_hosts: "vi_apply_client_routing (host_interface plat i) c s = (err, s') \<Longrightarrow> s' = s"
  by (simp add: host_interface_calls)

lemma server_host_started:
  assumes "invents_nothing quiet (api 1)" and "quiet net" and "tc_role cs = Server"
    and "start env (new_engine cs (Some (host_interface plat 1)) (Some (host_transport api 1)) None) (new_hosts net) = (True, eb, w)"
  obtains s where "create_inner_session (env_platform env) (env_bcrypt env) (tc_inner cs) = Some s" and "te_config eb = cs"
    and "te_interface eb = Some (host_interface plat 1)" and "te_transport eb = Some (host_transport api 1)"
    and "te_inner eb = Some s" and "engine_state eb = Handshaking"
    and "idle_end quiet 1 w" and "ho_ends w 0 = (new_quic_transport, new_msquic_globals)"
    and "dvi_opened (dw_interfaces (ho_dev w) 1)" and "host_packet 0 w = []" and "host_packet 1 w = []"
proof (rule start_server_calls [OF assms(4,3)], goal_cases)
  case (1 s w1 w2)
  have w1: "ho_ends w1 = ho_ends (new_hosts net)" "ho_net w1 = net" "dvi_opened (dw_interfaces (ho_dev w1) 1)" "host_packet j w1 = []" for j
    using host_open_interface [OF 1(3), of j] by (simp_all add: new_hosts_def host_packet_def new_dev_world_def new_dev_interface_def)
  have w2: "only_end 1 w1 w2 \<and> idle_end quiet 1 w2"
    by (rule host_connect [where api = api, OF assms(1) _ _ 1(4)]) (use w1 assms(2) in \<open>simp_all add: new_hosts_def\<close>)
  then have w: "only_end 1 w2 w \<and> idle_end quiet 1 w" using host_handshake [where api = api, OF assms(1) _ 1(5)] by blast
  show ?case
    by (rule that [OF 1(2,6-10)]) (use w w2 w1 in \<open>auto simp: only_end_def new_hosts_def host_packet_def\<close>)
qed

lemma client_host_started:
  assumes "invents_nothing quiet (api 0)" and "quiet (ho_net w)" and "tc_role cc = Client"
    and "fst (ho_ends w 0) = new_quic_transport"
    and "start env (new_engine cc (Some (host_interface plat 0)) (Some (host_transport api 0)) None) w = (True, ea, w')"
  obtains s where "create_inner_session (env_platform env) (env_bcrypt env) (tc_inner cc) = Some s"
    and "engine_at (host_interface plat 0) (host_transport api 0) s ea"
    and "idle_end quiet 0 w'" and "qt_data_channel_open (fst (ho_ends w' 0))" and "ho_ends w' 1 = ho_ends w 1"
    and "dvi_opened (dw_interfaces (ho_dev w') 0)" and "host_packet 0 w' = host_packet 0 w" and "host_packet 1 w' = host_packet 1 w"
    and "dvi_opened (dw_interfaces (ho_dev w') 1) = dvi_opened (dw_interfaces (ho_dev w) 1)"
proof (rule start_client_calls [OF assms(5,3)], goal_cases)
  case (1 s w1 w2 w3 w4)
  have w1: "ho_ends w1 = ho_ends w" "ho_net w1 = ho_net w" "dvi_opened (dw_interfaces (ho_dev w1) 0)" "host_packet j w1 = host_packet j w"
    "dvi_opened (dw_interfaces (ho_dev w1) 1) = dvi_opened (dw_interfaces (ho_dev w) 1)" for j
    using host_open_interface [OF 1(3), of j] host_open_interface [OF 1(3), of 1] by simp_all
  have w2: "only_end 0 w1 w2 \<and> idle_end quiet 0 w2"
    by (rule host_connect [where api = api, OF assms(1) _ _ 1(4)]) (use w1 assms(2,4) in simp_all)
  then have w3: "only_end 0 w2 w3 \<and> idle_end quiet 0 w3" using host_handshake [where api = api, OF assms(1) _ 1(5)] by blast
  then have w4: "only_end 0 w3 w4 \<and> idle_end quiet 0 w4 \<and> qt_data_channel_open (fst (ho_ends w4 0))"
    using host_open_channel [where api = api, OF assms(1) _ 1(6)] by blast
  have "w' = w4" by (rule routing_keeps_hosts [OF 1(7)])
  with w1 w2 w3 w4 show ?case
    by (intro that [OF 1(2,8)]) (auto simp: only_end_def host_packet_def)
qed

lemma idle_ends_linked:
  assumes "idle_end (nothing_in_flight flight) i w" and "idle_end (nothing_in_flight flight) j w" and "i \<in> {0, 1}"
    and "qt_data_channel_open (fst (ho_ends w i))" and "qt_data_channel_open (fst (ho_ends w j))"
    and "current_stream (fst (ho_ends w i)) = Some h" and "current_stream (fst (ho_ends w j)) = Some k"
    and "dvi_opened (dw_interfaces (ho_dev w) i)" and "dvi_opened (dw_interfaces (ho_dev w) j)" and "up (ho_net w)"
  shows "quic_link_inv i j h k (flight i) up w \<and> quic_pending j (flight i) w = []"
proof -
  have fl: "flight i (ho_net w) = []" using assms(1,3) by (auto simp: idle_end_def nothing_in_flight_def)
  have s: "sender_idle h (fst (ho_ends w i))"
    using assms(1,4,6) by (auto simp: sender_idle_def open_on_def idle_end_def unused_channel_def current_stream_def split: option.splits)
  have r: "receiver_holds k (flight i (ho_net w)) [] (fst (ho_ends w j))"
    using assms(2,5,7) fl
    by (auto simp: receiver_holds_def open_on_def idle_end_def unused_channel_def current_stream_def channel_at_def split: option.splits)
  have "quic_pending j (flight i) w = []" by (rule receiver_pending [where flight = "flight i" and s = w, OF r])
  with s r assms(8-10) show ?thesis by (auto simp: quic_link_inv_def)
qed

section \<open>A concrete network\<close>

text \<open>
  A network in memory, for concrete inputs: each host has a queue of events, and the bytes
  it sent wait until the other host looks for events, where they arrive one per buffer.
\<close>

record loop_net =
  ln_next :: nat
  ln_events :: "nat \<Rightarrow> quic_event list"
  ln_flight :: "nat \<Rightarrow> bytes"

definition add_events :: "nat \<Rightarrow> quic_event list \<Rightarrow> loop_net \<Rightarrow> loop_net" where
  "add_events i evs w = w\<lparr>ln_events := (ln_events w)(i := ln_events w i @ evs)\<rparr>"

definition new_handle :: "loop_net \<Rightarrow> nat option \<times> loop_net" where
  "new_handle w = (Some (ln_next w), w\<lparr>ln_next := ln_next w + 1\<rparr>)"

definition take_events :: "nat \<Rightarrow> loop_net \<Rightarrow> quic_event list \<times> loop_net" where
  "take_events i w = (filter (\<lambda>ev. received [ev] = []) (ln_events w i), w\<lparr>ln_events := (ln_events w)(i := [])\<rparr>)"

definition loop_quic :: "nat \<Rightarrow> loop_net quic_api" where
  "loop_quic i =
     \<lparr>mq_open2 = (\<lambda>w. (True, w)), mq_close = (\<lambda>w. w), mq_registration_open = new_handle, mq_registration_close = (\<lambda>_ w. w),
      mq_configuration_open = (\<lambda>_ _ _. new_handle), mq_load_credential = (\<lambda>_ _ w. (True, w)), mq_configuration_close = (\<lambda>_ w. w),
      mq_connection_open = (\<lambda>_. new_handle),
      mq_connection_start = (\<lambda>c _ _ _ w. (True, add_events i [Ev_Connected c]
         (add_events (1 - i) [Ev_New_Connection (ln_next w), Ev_Connected (ln_next w)] (w\<lparr>ln_next := ln_next w + 1\<rparr>)))),
      mq_connection_set_configuration = (\<lambda>_ _ w. (True, w)), mq_connection_shutdown = (\<lambda>_ w. w), mq_connection_close = (\<lambda>_ w. w),
      mq_listener_open = (\<lambda>_. new_handle), mq_listener_start = (\<lambda>_ _ _ w. (True, w)), mq_listener_close = (\<lambda>_ w. w),
      mq_stream_open = (\<lambda>_. new_handle),
      mq_stream_start = (\<lambda>_ w. (True, add_events (1 - i) [Ev_Peer_Stream_Started (ln_next w)] (w\<lparr>ln_next := ln_next w + 1\<rparr>))),
      mq_stream_send = (\<lambda>_ b w. (True, add_events i [Ev_Stream_Send_Complete] (w\<lparr>ln_flight := (ln_flight w)(i := ln_flight w i @ b)\<rparr>))),
      mq_stream_close = (\<lambda>_ w. w), mq_set_callback = (\<lambda>_ _ w. w), mq_wait = (\<lambda>_. take_events i),
      mq_poll = (\<lambda>w. case take_events i w of (evs, w1) \<Rightarrow>
         (evs @ [Ev_Stream_Receive (map (\<lambda>b. [b]) (ln_flight w (1 - i)))], w1\<lparr>ln_flight := (ln_flight w)(1 - i := [])\<rparr>))\<rparr>"

definition idle_net :: loop_net where
  "idle_net = \<lparr>ln_next = 1, ln_events = (\<lambda>_. []), ln_flight = (\<lambda>_. [])\<rparr>"

text \<open>Only one host sends and no connection event is left.\<close>

definition only_sender :: "nat \<Rightarrow> loop_net \<Rightarrow> bool" where
  "only_sender i w \<longleftrightarrow> (\<forall>j. list_all steady_event (ln_events w j)) \<and> ln_flight w (1 - i) = []"

lemmas loop_defs = add_events_def new_handle_def take_events_def loop_quic_def

lemma received_filter: "received (filter (\<lambda>ev. received [ev] = []) evs) = []"
  by (induction evs) (auto simp: received_def)

lemma received_append: "received (xs @ ys) = received xs @ received ys"
  by (simp add: received_def)

lemma loop_invents_nothing: "invents_nothing (nothing_in_flight (\<lambda>i w. ln_flight w i)) (loop_quic i)"
  by (simp add: invents_nothing_def nothing_in_flight_def loop_defs received_filter)

lemma loop_carries:
  assumes "i \<le> 1"
  shows "stream_carries (loop_quic i) (loop_quic (1 - i)) h (\<lambda>w. ln_flight w i) (only_sender i)"
proof -
  have flat: "received [Ev_Stream_Receive (map (\<lambda>b. [b]) bs)] = bs" "received [Ev_Stream_Send_Complete] = []" for bs
    by (simp_all add: received_def)
  have steady: "list_all steady_event evs \<Longrightarrow> list_all steady_event (filter P evs)" for P evs
    by (simp add: list_all_iff)
  from assms consider "i = 0" | "i = 1" by linarith
  then show ?thesis
    by cases (auto simp: stream_carries_def loop_defs only_sender_def received_filter received_append flat flat(1) [of "[]", simplified] steady)
qed

definition loop_engine :: "nat \<Rightarrow> TunnelConfig \<Rightarrow> loop_net hosts TunnelEngine" where
  "loop_engine i c = new_engine c (Some (host_interface Posix i)) (Some (host_transport loop_quic i)) None"

lemmas loop_run_defs = idle_net_def loop_defs quic_client_config_def quic_server_config_def default_config_def default_quic_config_def
  new_quic_transport_def new_msquic_globals_def received_def Let_def
lemmas quic_run_defs = quic_connect_defs quic_perform_handshake_def wait_for_handshake_def quic_wait_def handshake_done_def
  new_handshake_state_def deliver_all_def connection_callback_def listener_callback_def open_client_stream_def new_stream_channel_def
  quic_open_data_channel_def wait_for_stream_ready_def channel_ready_def current_stream_def

text \<open>A server that listens; a client that connects to it; the server accepts.\<close>

lemma loop_client_opens:
  "\<exists>t1 p1 t2 p2 t3 p3. quic_connect (loop_quic 0) quic_client_config new_quic_transport
       \<lparr>qp_msquic = new_msquic_globals, qp_world = idle_net\<lparr>ln_next := 4\<rparr>\<rparr> = (True, t1, p1) \<and>
     quic_perform_handshake (loop_quic 0) t1 p1 = (True, t2, p2) \<and>
     quic_open_data_channel (loop_quic 0) t2 p2 = (True, t3, p3) \<and> current_stream t3 = Some 8 \<and>
     qp_world p3 = \<lparr>ln_next = 10, ln_events = (\<lambda>_. [])(1 := [Ev_New_Connection 7, Ev_Connected 7, Ev_Peer_Stream_Started 9]),
       ln_flight = (\<lambda>_. [])\<rparr>"
  by (simp add: loop_run_defs quic_run_defs fun_eq_iff)

lemma loop_server_accepts:
  "\<exists>t1 p1 t2 p2. quic_connect (loop_quic 1) quic_server_config new_quic_transport
       \<lparr>qp_msquic = new_msquic_globals, qp_world = idle_net\<rparr> = (True, t1, p1) \<and> qp_world p1 = idle_net\<lparr>ln_next := 4\<rparr> \<and>
     quic_perform_handshake (loop_quic 1) t1 p1 = (True, t1, p1) \<and>
     quic_open_data_channel (loop_quic 1) t1 (p1\<lparr>qp_world := \<lparr>ln_next = 10,
       ln_events = (\<lambda>_. [])(1 := [Ev_New_Connection 7, Ev_Connected 7, Ev_Peer_Stream_Started 9]), ln_flight = (\<lambda>_. [])\<rparr>\<rparr>) = (True, t2, p2) \<and>
     current_stream t2 = Some 9 \<and> qp_world p2 = idle_net\<lparr>ln_next := 10\<rparr>"
  by (simp add: loop_run_defs quic_run_defs fun_eq_iff)

lemma host_calls_run:
  assumes "end_state i s = (t, p)"
  shows "quic_connect (api i) c t p = (ok, t', p') \<Longrightarrow> st_connect (host_transport api i) c s = (ok, set_end i (t', p') s)"
    and "quic_perform_handshake (api i) t p = (ok, t', p') \<Longrightarrow> st_perform_handshake (host_transport api i) s = (ok, set_end i (t', p') s)"
    and "quic_open_data_channel (api i) t p = (ok, t', p') \<Longrightarrow> st_open_data_channel (host_transport api i) s = (ok, set_end i (t', p') s)"
  using assms by (simp_all add: host_transport_calls within_def)

lemma end_state_set: "end_state i (set_end i tp s) = tp" "i \<noteq> j \<Longrightarrow> end_state i (set_end j (t, p) s) = (fst (end_state i s), (snd (end_state i s))\<lparr>qp_world := qp_world p\<rparr>)"
  by (cases tp; cases "snd tp"; simp add: end_state_def set_end_def) (simp add: end_state_def set_end_def)

lemma set_end_same: "set_end i (t, p) (set_end i (t, p) s) = set_end i (t, p) s"
  by (simp add: set_end_def)

definition opened_host :: "nat \<Rightarrow> 'w hosts \<Rightarrow> 'w hosts" where
  "opened_host i s = s\<lparr>ho_dev := snd (dev_vi_open i 1280 (ho_dev s))\<rparr>"

lemma opened_host_runs:
  "vi_open (host_interface plat i) 1280 s = (True, opened_host i s)" "end_state j (opened_host i s) = end_state j s"
  by (simp_all add: opened_host_def host_interface_calls within_def dev_vi_open_def end_state_def)

lemma loop_configs:
  "is_valid Posix net quic_server_config = None" "is_valid Posix net quic_client_config = None"
  "tc_role quic_server_config = Server" "tc_role quic_client_config = Client"
  "tc_inner quic_server_config = tc_inner quic_client_config"
  "tc_mtu quic_server_config = 1280" "tc_mtu quic_client_config = 1280"
  "create_inner_session Posix api (tc_inner quic_client_config) = Some (Development new_dev_session)"
  by (simp_all add: is_valid_def quic_error_def quic_client_config_def quic_server_config_def default_config_def
      default_quic_config_def create_inner_session_def)

lemma loop_tunnel_starts:
  "\<exists>eb w1 ea w2 eb' w3 h k.
     start (still_env Posix net) (loop_engine 1 quic_server_config) (new_hosts idle_net) = (True, eb, w1) \<and>
     start (still_env Posix net) (loop_engine 0 quic_client_config) w1 = (True, ea, w2) \<and>
     ensure_session_ready eb w2 = (True, eb', w3) \<and>
     current_stream (fst (ho_ends w3 0)) = Some h \<and> current_stream (fst (ho_ends w3 1)) = Some k \<and>
     only_sender 0 (ho_net w3) \<and> only_sender 1 (ho_net w3)"
proof -
  let ?env = "still_env Posix net" let ?net = "\<lparr>ln_next = 10,
       ln_events = (\<lambda>_. [])(1 := [Ev_New_Connection 7, Ev_Connected 7, Ev_Peer_Stream_Started 9]), ln_flight = (\<lambda>_. [])\<rparr>"
  have env: "env_platform ?env = Posix" "env_bcrypt ?env = identity_aead" "env_net ?env = net" by (simp_all add: still_env_def)
  obtain t1 p1 t2 p2 where srv: "quic_connect (loop_quic 1) quic_server_config new_quic_transport
       \<lparr>qp_msquic = new_msquic_globals, qp_world = idle_net\<rparr> = (True, t1, p1)" "qp_world p1 = idle_net\<lparr>ln_next := 4\<rparr>"
      "quic_perform_handshake (loop_quic 1) t1 p1 = (True, t1, p1)"
      "quic_open_data_channel (loop_quic 1) t1 (p1\<lparr>qp_world := ?net\<rparr>) = (True, t2, p2)"
      "current_stream t2 = Some 9" "qp_world p2 = idle_net\<lparr>ln_next := 10\<rparr>" using loop_server_accepts by blast
  obtain t3 p3 t4 p4 t5 p5 where cli: "quic_connect (loop_quic 0) quic_client_config new_quic_transport
       \<lparr>qp_msquic = new_msquic_globals, qp_world = idle_net\<lparr>ln_next := 4\<rparr>\<rparr> = (True, t3, p3)"
      "quic_perform_handshake (loop_quic 0) t3 p3 = (True, t4, p4)" "quic_open_data_channel (loop_quic 0) t4 p4 = (True, t5, p5)"
      "current_stream t5 = Some 8" "qp_world p5 = ?net" using loop_client_opens by blast
  let ?s1 = "opened_host 1 (new_hosts idle_net)" let ?s2 = "set_end 1 (t1, p1) ?s1" let ?s3 = "opened_host 0 ?s2"
  let ?s4 = "set_end 0 (t3, p3) ?s3" let ?s5 = "set_end 0 (t4, p4) ?s4" let ?s6 = "set_end 0 (t5, p5) ?s5" let ?s7 = "set_end 1 (t2, p2) ?s6"
  have e1: "end_state i ?s1 = (new_quic_transport, \<lparr>qp_msquic = new_msquic_globals, qp_world = idle_net\<rparr>)" for i
    by (simp add: opened_host_runs) (simp add: end_state_def new_hosts_def)
  have e3: "end_state 0 ?s3 = (new_quic_transport, \<lparr>qp_msquic = new_msquic_globals, qp_world = idle_net\<lparr>ln_next := 4\<rparr>\<rparr>)"
    using e1 srv(2) by (simp add: opened_host_runs(2) end_state_set)
  have e6: "end_state 1 ?s6 = (t1, p1\<lparr>qp_world := ?net\<rparr>)"
    using cli(5) by (simp add: opened_host_runs(2) end_state_set)
  obtain eb where eb: "start ?env (loop_engine 1 quic_server_config) (new_hosts idle_net) = (True, eb, ?s2)" "te_config eb = quic_server_config"
      "te_interface eb = Some (host_interface Posix 1)" "te_transport eb = Some (host_transport loop_quic 1)"
      "te_inner eb = Some (Development new_dev_session)" "engine_state eb = Handshaking"
    using start_server_success [of ?env quic_server_config "Development new_dev_session" "host_interface Posix 1"
        "new_hosts idle_net" ?s1 "host_transport loop_quic 1" ?s2 ?s2]
      host_calls_run(1) [where api = loop_quic, OF e1 srv(1)] host_calls_run(2) [where api = loop_quic, OF end_state_set(1) srv(3)]
    by (auto simp: env loop_configs loop_engine_def opened_host_runs(1) set_end_same)
  obtain ea where ea: "start ?env (loop_engine 0 quic_client_config) ?s2 = (True, ea, ?s6)"
    using start_client_success [of ?env quic_client_config "Development new_dev_session" "host_interface Posix 0"
        ?s2 ?s3 "host_transport loop_quic 0" ?s4 ?s5 ?s6 ?s6]
      host_calls_run(1) [where api = loop_quic, OF e3 cli(1)] host_calls_run(2) [where api = loop_quic, OF end_state_set(1) cli(2)]
      host_calls_run(3) [where api = loop_quic, OF end_state_set(1) cli(3)]
    by (auto simp: env loop_configs loop_engine_def opened_host_runs(1) host_interface_calls(4) base_apply_client_routing_def)
  have "ensure_session_ready eb ?s6 = (True, snd (engine_transition Established eb), ?s7)"
    using eb(2-6) host_calls_run(3) [where api = loop_quic, OF e6 srv(4)]
    by (simp add: ensure_session_ready_def engine_state_def engine_transition_def transition_to_eq loop_configs host_interface_calls(4)
        base_apply_client_routing_def)
  moreover have "current_stream (fst (ho_ends ?s7 0)) = Some 8" "current_stream (fst (ho_ends ?s7 1)) = Some 9"
    "only_sender 0 (ho_net ?s7)" "only_sender 1 (ho_net ?s7)"
    using cli(4) srv(5,6) by (simp_all add: only_sender_def idle_net_def)
  ultimately show ?thesis using eb(1) ea by blast
qed

section \<open>Properties\<close>



end
