(* ===== verification/Inner_Order.thy ===== *)
theory Inner_Order
  imports Inner_Session "HOL-Library.Sublist"
begin

text \<open>
  What a run of an inner session seals and opens, as payloads with their frames. With the
  replay protection, whatever is asked of two linked sessions, the payloads one of them opens
  are in order, and none twice, payloads given to the other, although frames are lost,
  repeated or out of order between them.
\<close>

section \<open>The inner session of a run\<close>

text \<open>The payloads sealed with their frames, and the non-empty payloads opened with theirs.\<close>

fun inner_run :: "bcrypt_api \<Rightarrow> inner_op list \<Rightarrow> inner_session \<Rightarrow> (bytes \<times> bytes) list \<times> (bytes \<times> bytes) list \<times> inner_session" where
  "inner_run api [] s = ([], [], s)"
| "inner_run api (Do_Seal p # ops) s =
     (case inner_seal api p s of (r, s1) \<Rightarrow>
        case inner_run api ops s1 of (sealed, opened, s2) \<Rightarrow>
          (case r of None \<Rightarrow> (sealed, opened, s2) | Some c \<Rightarrow> ((p, c) # sealed, opened, s2)))"
| "inner_run api (Do_Open c # ops) s =
     (case inner_open api c s of (r, s1) \<Rightarrow>
        case inner_run api ops s1 of (sealed, opened, s2) \<Rightarrow>
          (case r of None \<Rightarrow> (sealed, opened, s2)
           | Some q \<Rightarrow> if q = [] then (sealed, opened, s2) else (sealed, (q, c) # opened, s2)))"

fun seals :: "inner_op list \<Rightarrow> bytes list" where
  "seals [] = []"
| "seals (Do_Seal p # ops) = p # seals ops"
| "seals (Do_Open c # ops) = seals ops"

fun opens :: "inner_op list \<Rightarrow> bytes list" where
  "opens [] = []"
| "opens (Do_Seal p # ops) = opens ops"
| "opens (Do_Open c # ops) = c # opens ops"

lemma seals_opens_append [simp]: "seals (xs @ ys) = seals xs @ seals ys" "opens (xs @ ys) = opens xs @ opens ys"
  by (induction xs rule: seals.induct) simp_all

lemma inner_run_append:
  "inner_run api xs s = (P, Q, s1) \<Longrightarrow> inner_run api ys s1 = (P', Q', s2) \<Longrightarrow>
     inner_run api (xs @ ys) s = (P @ P', Q @ Q', s2)"
proof (induction xs arbitrary: s P Q)
  case Nil
  then show ?case by simp
next
  case (Cons x xs)
  then show ?case
    by (cases x) (fastforce split: prod.splits option.splits if_splits)+
qed

section \<open>Order and integrity\<close>

lemma sorted_subset_subseq:
  fixes f :: "'a \<Rightarrow> 'b :: linorder"
  shows "sorted_wrt (\<lambda>x y. f x < f y) xs \<Longrightarrow> sorted_wrt (\<lambda>x y. f x < f y) ys \<Longrightarrow> set xs \<subseteq> set ys \<Longrightarrow> subseq xs ys"
proof (induction ys arbitrary: xs)
  case Nil
  then show ?case by simp
next
  case (Cons y ys)
  show ?case
  proof (cases xs)
    case (Cons x xs')
    show ?thesis
    proof (cases "x = y")
      case True
      with Cons Cons.prems have "set xs' \<subseteq> set ys" by fastforce
      with Cons Cons.prems True show ?thesis using Cons.IH [of xs'] by simp
    next
      case False
      with Cons Cons.prems have "f y < f x" by auto
      then have "y \<notin> set xs" using Cons Cons.prems(1) by force
      with Cons.prems have "set xs \<subseteq> set ys" by auto
      with Cons.prems Cons.IH [of xs] show ?thesis by (simp add: list_emb_Cons)
    qed
  qed simp
qed

abbreviation frame_order :: "bytes \<times> bytes \<Rightarrow> bytes \<times> bytes \<Rightarrow> bool" where
  "frame_order x y \<equiv> frame_sequence (snd x) < frame_sequence (snd y)"

lemma sessions_linked_sym: "sessions_linked api a b \<longleftrightarrow> sessions_linked api b a"
  by (cases a; cases b) auto

text \<open>Sealing and opening change no key, so two sessions stay linked.\<close>

lemma linked_steps:
  assumes "sessions_linked api a b"
  shows "inner_seal api p a = (x, a') \<Longrightarrow> sessions_linked api a' b" "inner_open api c a = (x, a') \<Longrightarrow> sessions_linked api a' b"
  using assms sessions_linked_seal sessions_linked_open sessions_linked_sym by blast+

text \<open>The frames of the sealed payloads have increasing sequence numbers while the counter does not wrap.\<close>

lemma sealed_increasing:
  "inner_run api ops s = (P, Q, s') \<Longrightarrow> unat (inner_send_seq s) + length (seals ops) < 2 ^ 64 \<Longrightarrow>
     sorted_wrt frame_order P \<and> (\<forall>x \<in> set P. inner_send_seq s < frame_sequence (snd x)) \<and> subseq (map fst P) (seals ops)"
proof (induction ops arbitrary: s P Q)
  case Nil
  then show ?case by simp
next
  case (Cons op ops)
  show ?case
  proof (cases op)
    case (Do_Open c)
    obtain r s1 where o: "inner_open api c s = (r, s1)" by fastforce
    have "inner_send_seq s1 = inner_send_seq s" using inner.open_Some inner.open_None o by (cases r) blast+
    moreover obtain Q' where "inner_run api ops s1 = (P, Q', s')"
      using Cons.prems(1) Do_Open o by (auto split: prod.splits option.splits if_splits)
    ultimately show ?thesis using Cons.IH [of s1 P Q'] Cons.prems(2) Do_Open by simp
  next
    case (Do_Seal p)
    obtain r s1 where f: "inner_seal api p s = (r, s1)" by fastforce
    obtain P' Q' where rest: "inner_run api ops s1 = (P', Q', s')"
      and P: "P = (case r of None \<Rightarrow> P' | Some c \<Rightarrow> (p, c) # P')"
      using Cons.prems(1) Do_Seal f by (auto split: prod.splits option.splits)
    have small: "unat (inner_send_seq s) + 1 < 2 ^ LENGTH(64)" using Cons.prems(2) Do_Seal by simp
    note inc = less_inc_no_wrap [OF small] unat_inc_no_wrap [OF small]
    have s1: "inner_send_seq s1 = inner_send_seq s \<or> inner_send_seq s1 = inner_send_seq s + 1"
      using inner.seal_Some inner.seal_None f by (cases r) blast+
    have room: "unat (inner_send_seq s1) + length (seals ops) < 2 ^ 64" using s1 inc Cons.prems(2) Do_Seal by auto
    note ih = Cons.IH [OF rest room]
    have le: "inner_send_seq s \<le> inner_send_seq s1" using s1 inc by auto
    show ?thesis
    proof (cases r)
      case None
      with ih P le Do_Seal show ?thesis by (auto simp: list_emb_Cons intro: le_less_trans)
    next
      case (Some c)
      then have c: "frame_sequence c = inner_send_seq s1" "inner_send_seq s1 = inner_send_seq s + 1"
        using inner.seal_Some f by simp_all
      with ih P Some inc Do_Seal show ?thesis by (auto intro: less_trans)
    qed
  qed
qed

lemma opened_increasing:
  "inner_run api ops s = (P, Q, s') \<Longrightarrow>
     sorted_wrt frame_order Q \<and> (\<forall>x \<in> set Q. inner_recv_seq s < frame_sequence (snd x)) \<and> set (map snd Q) \<subseteq> set (opens ops)"
proof (induction ops arbitrary: s P Q)
  case Nil
  then show ?case by simp
next
  case (Cons op ops)
  show ?case
  proof (cases op)
    case (Do_Seal p)
    obtain r s1 where f: "inner_seal api p s = (r, s1)" by fastforce
    have "inner_recv_seq s1 = inner_recv_seq s" using inner.seal_Some inner.seal_None f by (cases r) blast+
    moreover obtain P' where "inner_run api ops s1 = (P', Q, s')"
      using Cons.prems Do_Seal f by (auto split: prod.splits option.splits)
    ultimately show ?thesis using Cons.IH [of s1 P' Q] Do_Seal by simp
  next
    case (Do_Open c)
    obtain r s1 where o: "inner_open api c s = (r, s1)" by fastforce
    obtain Q' where rest: "inner_run api ops s1 = (P, Q', s')"
      and Q: "Q = Q' \<or> (\<exists>q. r = Some q \<and> Q = (q, c) # Q')"
      using Cons.prems Do_Open o by (auto split: prod.splits option.splits if_splits)
    note ih = Cons.IH [OF rest]
    show ?thesis
    proof (cases r)
      case None
      then have "inner_recv_seq s1 = inner_recv_seq s" using inner.open_None o by blast
      with ih Q None Do_Open show ?thesis by auto
    next
      case (Some q)
      then have c: "inner_recv_seq s < frame_sequence c" "inner_recv_seq s1 = frame_sequence c" using inner.open_Some o by blast+
      have "set (map snd Q) \<subseteq> set (opens (op # ops))" using ih Q Do_Open by fastforce
      with c ih Q show ?thesis by (auto intro: less_trans)
    qed
  qed
qed

text \<open>Where the pairs come from.\<close>

lemma sealed_origin:
  "inner_run api ops s = (P, Q, s') \<Longrightarrow> (p, c) \<in> set P \<Longrightarrow> sessions_linked api s t \<Longrightarrow>
     \<exists>u u'. inner_seal api p u = (Some c, u') \<and> sessions_linked api u t"
proof (induction ops arbitrary: s P Q)
  case Nil
  then show ?case by simp
next
  case (Cons op ops)
  show ?case
  proof (cases op)
    case (Do_Open d)
    obtain r s1 where o: "inner_open api d s = (r, s1)" by fastforce
    obtain Q' where "inner_run api ops s1 = (P, Q', s')"
      using Cons.prems(1) Do_Open o by (auto split: prod.splits option.splits if_splits)
    then show ?thesis using Cons.IH Cons.prems(2) linked_steps(2) [OF Cons.prems(3) o] by blast
  next
    case (Do_Seal d)
    obtain r s1 where f: "inner_seal api d s = (r, s1)" by fastforce
    obtain P' Q' where rest: "inner_run api ops s1 = (P', Q', s')"
      and P: "P = P' \<or> (\<exists>x. r = Some x \<and> P = (d, x) # P')"
      using Cons.prems(1) Do_Seal f by (auto split: prod.splits option.splits)
    show ?thesis
    proof (cases "(p, c) \<in> set P'")
      case True
      then show ?thesis using Cons.IH [OF rest] linked_steps(1) [OF Cons.prems(3) f] by blast
    next
      case False
      with P Cons.prems(2) f have "inner_seal api p s = (Some c, s1)" by auto
      with Cons.prems(3) show ?thesis by blast
    qed
  qed
qed

lemma opened_origin:
  "inner_run api ops s = (P, Q, s') \<Longrightarrow> (q, c) \<in> set Q \<Longrightarrow> sessions_linked api s t \<Longrightarrow>
     \<exists>u u'. inner_open api c u = (Some q, u') \<and> sessions_linked api u t"
proof (induction ops arbitrary: s P Q)
  case Nil
  then show ?case by simp
next
  case (Cons op ops)
  show ?case
  proof (cases op)
    case (Do_Seal d)
    obtain r s1 where f: "inner_seal api d s = (r, s1)" by fastforce
    obtain P' where "inner_run api ops s1 = (P', Q, s')"
      using Cons.prems(1) Do_Seal f by (auto split: prod.splits option.splits)
    then show ?thesis using Cons.IH Cons.prems(2) linked_steps(1) [OF Cons.prems(3) f] by blast
  next
    case (Do_Open d)
    obtain r s1 where o: "inner_open api d s = (r, s1)" by fastforce
    obtain Q' where rest: "inner_run api ops s1 = (P, Q', s')"
      and Q: "Q = Q' \<or> (\<exists>x. r = Some x \<and> Q = (x, d) # Q')"
      using Cons.prems(1) Do_Open o by (auto split: prod.splits option.splits if_splits)
    show ?thesis
    proof (cases "(q, c) \<in> set Q'")
      case True
      then show ?thesis using Cons.IH [OF rest] linked_steps(2) [OF Cons.prems(3) o] by blast
    next
      case False
      with Q Cons.prems(2) o have "inner_open api c s = (Some q, s1)" by auto
      with Cons.prems(3) show ?thesis by blast
    qed
  qed
qed

text \<open>What is opened of a sealed frame is what was sealed.\<close>

lemma open_sealed_same:
  assumes "sessions_linked api u v" and "inner_seal api p u = (Some c, u')" and "inner_open api c v = (Some q, v')"
  shows "q = p"
proof -
  have "inner_recv_seq v < inner_send_seq u'" using inner.open_Some [OF assms(3)] inner.seal_Some [OF assms(2)] by simp
  from inner.link_round_trip [OF assms(1,2) this] assms(3) show ?thesis by simp
qed

lemma runs_in_order:
  assumes linked: "sessions_linked api s t"
    and a: "inner_run api xs s = (P, Q0, s')" and b: "inner_run api ys t = (P0, Q, t')"
    and genuine: "set (opens ys) \<subseteq> set (map snd P)" and room: "unat (inner_send_seq s) + length (seals xs) < 2 ^ 64"
  shows "subseq (map fst Q) (seals xs)"
proof -
  note sealed = sealed_increasing [OF a room] and opened = opened_increasing [OF b]
  have "set Q \<subseteq> set P"
  proof
    fix x assume x: "x \<in> set Q"
    obtain q c where qc: "x = (q, c)" by fastforce
    have "c \<in> set (map snd P)" using x qc opened genuine by force
    then obtain p where p: "(p, c) \<in> set P" by auto
    obtain u u' where u: "inner_seal api p u = (Some c, u')" "sessions_linked api u t" using sealed_origin [OF a p linked] by blast
    obtain v v' where v: "inner_open api c v = (Some q, v')" "sessions_linked api v u"
      using opened_origin [OF b x [unfolded qc], of u] u(2) sessions_linked_sym by blast
    have "q = p" using open_sealed_same [OF _ u(1) v(1)] v(2) sessions_linked_sym by blast
    with p qc show "x \<in> set P" by simp
  qed
  then have "subseq Q P" using sorted_subset_subseq [of "\<lambda>x. frame_sequence (snd x)" Q P] sealed opened by blast
  then have "subseq (map fst Q) (map fst P)" by (rule subseq_map)
  with sealed show ?thesis by (blast intro: subseq_order.trans)
qed

text \<open>Without a frame nothing is opened.\<close>

lemma runs_write_nothing: "inner_run api ops s = (P, Q, s') \<Longrightarrow> opens ops = [] \<Longrightarrow> Q = []"
  using opened_increasing [of api ops s P Q s'] by simp

end
