(* ===== verification/Engine_Data.thy ===== *)
theory Engine_Data
  imports Relay_Path Inner_Order
begin

text \<open>
  What the engine does with the packets themselves. The engine's objects are wrapped so that
  the world records the packets it takes from its interface, the frames it hands to its
  transport, the frames it gets and the packets it writes. Whatever is called and answered,
  the frames are the seals of the packets taken, and the packets written are the contents of
  frames received, all through one inner session.
\<close>

section \<open>Recorded packets\<close>

datatype packet_event = Took bytes | Gave bytes | Got bytes | Put bytes

fun taken :: "packet_event list \<Rightarrow> bytes list" where
  "taken [] = []"
| "taken (Took p # l) = p # taken l"
| "taken (_ # l) = taken l"

fun given :: "packet_event list \<Rightarrow> bytes list" where
  "given [] = []"
| "given (Gave c # l) = c # given l"
| "given (_ # l) = given l"

fun gotten :: "packet_event list \<Rightarrow> bytes list" where
  "gotten [] = []"
| "gotten (Got c # l) = c # gotten l"
| "gotten (_ # l) = gotten l"

fun written :: "packet_event list \<Rightarrow> bytes list" where
  "written [] = []"
| "written (Put p # l) = p # written l"
| "written (_ # l) = written l"

lemma events_append [simp]:
  "taken (l @ l') = taken l @ taken l'" "given (l @ l') = given l @ given l'"
  "gotten (l @ l') = gotten l @ gotten l'" "written (l @ l') = written l @ written l'"
  by (induction l rule: taken.induct) simp_all

definition data_interface :: "'w VirtualInterface \<Rightarrow> (packet_event list \<times> 'w) VirtualInterface" where
  "data_interface vi =
     \<lparr>vi_open = (\<lambda>mtu (l, w). case vi_open vi mtu w of (r, w') \<Rightarrow> (r, (l, w'))),
      vi_read_packet = (\<lambda>(l, w). case vi_read_packet vi w of (p, w') \<Rightarrow> (p, (if p = [] then l else l @ [Took p], w'))),
      vi_write_packet = (\<lambda>p (l, w). case vi_write_packet vi p w of (r, w') \<Rightarrow> (r, (l @ [Put p], w'))),
      vi_close = (\<lambda>(l, w). (l, vi_close vi w)),
      vi_apply_client_routing = (\<lambda>c (l, w). case vi_apply_client_routing vi c w of (r, w') \<Rightarrow> (r, (l, w'))),
      vi_clear_client_routing = (\<lambda>(l, w). (l, vi_clear_client_routing vi w)),
      vi_destroy = (\<lambda>(l, w). (l, vi_destroy vi w))\<rparr>"

definition data_transport :: "'w SecureTransport \<Rightarrow> (packet_event list \<times> 'w) SecureTransport" where
  "data_transport st =
     \<lparr>st_connect = (\<lambda>c (l, w). case st_connect st c w of (r, w') \<Rightarrow> (r, (l, w'))),
      st_perform_handshake = (\<lambda>(l, w). case st_perform_handshake st w of (r, w') \<Rightarrow> (r, (l, w'))),
      st_open_data_channel = (\<lambda>(l, w). case st_open_data_channel st w of (r, w') \<Rightarrow> (r, (l, w'))),
      st_send_payload = (\<lambda>c (l, w). case st_send_payload st c w of (r, w') \<Rightarrow> (r, (l @ [Gave c], w'))),
      st_try_receive_payload = (\<lambda>(l, w). case st_try_receive_payload st w of (r, w') \<Rightarrow>
        (r, (case r of None \<Rightarrow> l | Some c \<Rightarrow> if c = [] then l else l @ [Got c], w'))),
      st_close = (\<lambda>(l, w). (l, st_close st w)),
      st_reset_for_next_client = map_option (\<lambda>f (l, w). (l, f w)) (st_reset_for_next_client st),
      st_destroy = (\<lambda>(l, w). (l, st_destroy st w))\<rparr>"

text \<open>The recorded form of each call.\<close>

lemma data_interface_calls [simp]:
  "vi_open (data_interface vi) mtu w = (let r = vi_open vi mtu (snd w) in (fst r, fst w, snd r))"
  "vi_read_packet (data_interface vi) w =
     (let r = vi_read_packet vi (snd w) in (fst r, if fst r = [] then fst w else fst w @ [Took (fst r)], snd r))"
  "vi_write_packet (data_interface vi) p w =
     (let r = vi_write_packet vi p (snd w) in (fst r, fst w @ [Put p], snd r))"
  "vi_close (data_interface vi) w = (fst w, vi_close vi (snd w))"
  "vi_apply_client_routing (data_interface vi) c w =
     (let r = vi_apply_client_routing vi c (snd w) in (fst r, fst w, snd r))"
  "vi_clear_client_routing (data_interface vi) w = (fst w, vi_clear_client_routing vi (snd w))"
  "vi_destroy (data_interface vi) w = (fst w, vi_destroy vi (snd w))"
  by (simp_all add: data_interface_def split: prod.splits)

lemma data_transport_calls [simp]:
  "st_connect (data_transport st) c w = (let r = st_connect st c (snd w) in (fst r, fst w, snd r))"
  "st_perform_handshake (data_transport st) w = (let r = st_perform_handshake st (snd w) in (fst r, fst w, snd r))"
  "st_open_data_channel (data_transport st) w = (let r = st_open_data_channel st (snd w) in (fst r, fst w, snd r))"
  "st_send_payload (data_transport st) p w =
     (let r = st_send_payload st p (snd w) in (fst r, fst w @ [Gave p], snd r))"
  "st_try_receive_payload (data_transport st) w =
     (let r = st_try_receive_payload st (snd w)
      in (fst r, case fst r of None \<Rightarrow> fst w | Some c \<Rightarrow> if c = [] then fst w else fst w @ [Got c], snd r))"
  "st_close (data_transport st) w = (fst w, st_close st (snd w))"
  "st_reset_for_next_client (data_transport st) = map_option (\<lambda>f (l, w). (l, f w)) (st_reset_for_next_client st)"
  "st_destroy (data_transport st) w = (fst w, st_destroy st (snd w))"
  by (simp_all add: data_transport_def case_prod_beta Let_def)

section \<open>The record and the inner session\<close>

text \<open>The record is that of a run of the inner session.\<close>

definition record_of :: "bcrypt_api \<Rightarrow> inner_session \<Rightarrow> inner_op list \<Rightarrow> packet_event list \<Rightarrow> inner_session \<Rightarrow> bool" where
  "record_of api s0 ops l s \<longleftrightarrow>
     taken l = seals ops \<and> gotten l = opens ops \<and>
     (case inner_run api ops s0 of (P, Q, s') \<Rightarrow> given l = map snd P \<and> written l = map fst Q \<and> s = s')"

definition data_inv ::
  "'v engine_env \<Rightarrow> TunnelConfig \<Rightarrow> 'w VirtualInterface \<Rightarrow> 'w SecureTransport \<Rightarrow>
   (packet_event list \<times> 'w) TunnelEngine \<Rightarrow> packet_event list \<times> 'w \<Rightarrow> bool" where
  "data_inv env config vi st e w \<longleftrightarrow>
     te_config e = config \<and> te_interface e = Some (data_interface vi) \<and> te_transport e = Some (data_transport st) \<and>
     (case te_inner e of
        None \<Rightarrow> fst w = []
      | Some s \<Rightarrow> \<exists>s0 ops. create_inner_session (env_platform env) (env_bcrypt env) (tc_inner config) = Some s0 \<and>
                   record_of (env_bcrypt env) s0 ops (fst w) s)"

lemma record_seal:
  assumes "record_of api s0 ops l s"
  shows "inner_seal api p s = (None, s') \<Longrightarrow> record_of api s0 (ops @ [Do_Seal p]) (l @ [Took p]) s'"
    and "inner_seal api p s = (Some c, s') \<Longrightarrow> record_of api s0 (ops @ [Do_Seal p]) (l @ [Took p, Gave c]) s'"
  using assms inner_run_append [of api ops s0 _ _ s "[Do_Seal p]"]
  by (auto simp: record_of_def split: prod.splits)

lemma record_open:
  assumes "record_of api s0 ops l s"
  shows "inner_open api c s = (None, s') \<Longrightarrow> record_of api s0 (ops @ [Do_Open c]) (l @ [Got c]) s'"
    and "inner_open api c s = (Some [], s') \<Longrightarrow> record_of api s0 (ops @ [Do_Open c]) (l @ [Got c]) s'"
    and "inner_open api c s = (Some q, s') \<Longrightarrow> q \<noteq> [] \<Longrightarrow> record_of api s0 (ops @ [Do_Open c]) (l @ [Got c, Put q]) s'"
  using assms inner_run_append [of api ops s0 _ _ s "[Do_Open c]"]
  by (auto simp: record_of_def split: prod.splits)

section \<open>Operations that move no packet\<close>

text \<open>Neither the objects, nor the inner session, nor the record change.\<close>

definition data_kept ::
  "(packet_event list \<times> 'w) TunnelEngine \<Rightarrow> packet_event list \<times> 'w \<Rightarrow>
   (packet_event list \<times> 'w) TunnelEngine \<Rightarrow> packet_event list \<times> 'w \<Rightarrow> bool" where
  "data_kept e w e' w' \<longleftrightarrow>
     te_config e' = te_config e \<and> te_interface e' = te_interface e \<and> te_transport e' = te_transport e \<and>
     te_inner e' = te_inner e \<and> fst w' = fst w"

definition data_objects :: "'w VirtualInterface \<Rightarrow> 'w SecureTransport \<Rightarrow> (packet_event list \<times> 'w) TunnelEngine \<Rightarrow> bool" where
  "data_objects vi st e \<longleftrightarrow> te_interface e = Some (data_interface vi) \<and> te_transport e = Some (data_transport st)"

abbreviation record_kept :: "packet_event list \<times> 'w \<Rightarrow> packet_event list \<times> 'w \<Rightarrow> bool" where
  "record_kept w w' \<equiv> fst w' = fst w"

lemma kept_refl [simp]: "data_kept e w e w"
  by (simp add: data_kept_def)

lemma kept_trans: "data_kept e w e1 w1 \<Longrightarrow> data_kept e1 w1 e2 w2 \<Longrightarrow> data_kept e w e2 w2"
  by (simp add: data_kept_def)

lemma kept_objects: "data_kept e w e' w' \<Longrightarrow> data_objects vi st e' = data_objects vi st e"
  by (simp add: data_kept_def data_objects_def)

lemma kept_inv: "data_inv env config vi st e w \<Longrightarrow> data_kept e w e' w' \<Longrightarrow> data_inv env config vi st e' w'"
  by (simp add: data_inv_def data_kept_def split: option.splits)

lemma inv_data_objects: "data_inv env config vi st e w \<Longrightarrow> data_objects vi st e"
  by (simp add: data_inv_def data_objects_def)

lemma kept_transition: "engine_transition nxt e = (ok, e') \<Longrightarrow> data_kept e w e' w"
  by (metis data_kept_def engine_transition_frame(1-4) snd_conv)

lemma kept_fail: "engine_fail e w = (ok, e', w') \<Longrightarrow> data_kept e w e' w'"
  by (auto simp: engine_fail_def data_kept_def)

lemma kept_ready:
  assumes "ensure_session_ready e w = (ok, e', w')" and "data_objects vi st e"
  shows "data_kept e w e' w'"
  using assms
  by (auto simp: ensure_session_ready_def data_objects_def data_kept_def engine_fail_def Let_def
      dest: kept_transition [of _ _ _ _ w, unfolded data_kept_def] split: option.splits if_splits prod.splits)

lemma kept_reset:
  assumes "reset_server_session e w = (e', w')" and "data_objects vi st e"
  shows "data_kept e w e' w'"
  using assms
  by (cases w) (auto simp: reset_server_session_def data_objects_def data_kept_def Let_def split: if_splits option.splits)

lemma kept_stop:
  assumes "stop e w = (e', w')" and "data_objects vi st e"
  shows "data_kept e w e' w'"
  using stop_engine(1-4) [OF assms(1)] stop_world [of e w] assms by (simp add: data_kept_def data_objects_def)

lemma kept_server:
  assumes "start_server (data_transport st) e w = (ok, e', w')"
  shows "data_kept e w e' w'"
  using assms by (auto simp: start_server_def Let_def engine_fail_def data_kept_def split: if_splits)

lemma kept_client:
  assumes "start_client (data_interface vi) (data_transport st) e w = (ok, e', w')"
  shows "data_kept e w e' w'"
proof -
  obtain b e4 where t: "engine_transition Established (e\<lparr>te_stop_requested := False\<rparr>) = (b, e4)" by fastforce
  with kept_transition [OF t, of w] have "data_kept e w e4 w" by (simp add: data_kept_def)
  with assms t show ?thesis
    by (auto simp: start_client_def Let_def engine_fail_def data_kept_def split: if_splits)
qed

lemma kept_connect:
  assumes "start_connect (data_interface vi) (data_transport st) e w = (ok, e', w')"
  shows "data_kept e w e' w'"
proof -
  obtain b1 e1 where t1: "engine_transition Connecting e = (b1, e1)" by fastforce
  obtain b2 e2 where t2: "engine_transition Handshaking e1 = (b2, e2)" by fastforce
  have "data_kept e w e1 v" "data_kept e w e2 v" if "fst v = fst w" for v
    using kept_transition [OF t1, of w] kept_transition [OF t2, of w] that by (simp_all add: data_kept_def)
  note k = this
  let ?o = "vi_open vi (tc_mtu (te_config e1)) (snd w)"
  let ?w1 = "(fst w, snd ?o)"
  let ?c = "st_connect st (te_config e1) (snd ?o)"
  let ?w2 = "(fst w, snd ?c)"
  have "(e' = e1 \<and> w' = w) \<or> engine_fail e1 ?w1 = (ok, e', w') \<or> engine_fail e1 ?w2 = (ok, e', w') \<or> (e' = e2 \<and> w' = ?w2) \<or>
      start_server (data_transport st) e2 ?w2 = (ok, e', w') \<or>
      start_client (data_interface vi) (data_transport st) e2 ?w2 = (ok, e', w')"
    using assms t1 t2 by (cases b1) (auto simp: start_connect_def start_connected_def Let_def split: if_splits)
  then show "data_kept e w e' w'"
  proof (elim disjE conjE)
    show "data_kept e w e' w'" if "engine_fail e1 ?w1 = (ok, e', w')" using kept_trans [OF k(1) kept_fail [OF that]] by simp
    show "data_kept e w e' w'" if "engine_fail e1 ?w2 = (ok, e', w')" using kept_trans [OF k(1) kept_fail [OF that]] by simp
    show "data_kept e w e' w'" if "start_server (data_transport st) e2 ?w2 = (ok, e', w')"
      using kept_trans [OF k(2) kept_server [OF that]] by simp
    show "data_kept e w e' w'" if "start_client (data_interface vi) (data_transport st) e2 ?w2 = (ok, e', w')"
      using kept_trans [OF k(2) kept_client [OF that]] by simp
  qed (use k [of w] k [of ?w2] in simp_all)
qed

section \<open>Preservation\<close>

lemma data_inv_inner:
  assumes "data_inv env config vi st e w" and "te_inner e = Some s"
  obtains s0 ops where "create_inner_session (env_platform env) (env_bcrypt env) (tc_inner config) = Some s0"
    and "record_of (env_bcrypt env) s0 ops (fst w) s"
  using assms by (auto simp: data_inv_def)

lemma data_inv_intro:
  assumes "data_inv env config vi st e w"
    and "te_config e' = te_config e" "te_interface e' = te_interface e" "te_transport e' = te_transport e"
    and "te_inner e' = Some s'" and "create_inner_session (env_platform env) (env_bcrypt env) (tc_inner config) = Some s0"
    and "record_of (env_bcrypt env) s0 ops (fst w') s'"
  shows "data_inv env config vi st e' w'"
  using assms by (auto simp: data_inv_def)

lemma data_outbound:
  assumes inv: "data_inv env config vi st e w" and run: "forward_outbound env e w = (ok, e', w')"
  shows "data_inv env config vi st e' w'"
proof (cases "can_send_data (te_session e) \<and> te_inner e \<noteq> None \<and> fst (vi_read_packet vi (snd w)) \<noteq> []")
  case False
  with run inv_data_objects [OF inv] have "data_kept e w e' w'"
    by (auto simp: forward_outbound_def data_objects_def data_kept_def Let_def split: option.splits if_splits)
  with inv show ?thesis by (rule kept_inv)
next
  case True
  then obtain inner where inner: "te_inner e = Some inner" by blast
  let ?p = "fst (vi_read_packet vi (snd w))"
  obtain x inner' where s: "inner_seal (env_bcrypt env) ?p inner = (x, inner')" by fastforce
  obtain s0 ops where origin: "create_inner_session (env_platform env) (env_bcrypt env) (tc_inner config) = Some s0"
    and rec: "record_of (env_bcrypt env) s0 ops (fst w) inner" using data_inv_inner [OF inv inner] .
  have e': "te_config e' = te_config e \<and> te_interface e' = te_interface e \<and> te_transport e' = te_transport e \<and> te_inner e' = Some inner'"
    using run True inner s inv_data_objects [OF inv]
    by (auto simp: forward_outbound_def data_objects_def Let_def split: option.splits if_splits)
  have "fst w' = fst w @ Took ?p # (case x of None \<Rightarrow> [] | Some c \<Rightarrow> [Gave c])"
    using run True inner s inv_data_objects [OF inv]
    by (auto simp: forward_outbound_def data_objects_def Let_def split: option.splits if_splits)
  moreover have "record_of (env_bcrypt env) s0 (ops @ [Do_Seal ?p]) (fst w @ Took ?p # (case x of None \<Rightarrow> [] | Some c \<Rightarrow> [Gave c])) inner'"
    using record_seal [OF rec] s by (cases x) simp_all
  ultimately show ?thesis using data_inv_intro [OF inv, of e' inner' s0 _ w'] e' origin by simp
qed

lemma data_inbound:
  "data_inv env config vi st (e\<lparr>te_inner := Some inner\<rparr>) w \<Longrightarrow>
   inbound_loop env (data_interface vi) (data_transport st) n k inner e w = (m, e', w') \<Longrightarrow> data_inv env config vi st e' w'"
proof (induction n arbitrary: k inner e w)
  case 0
  then show ?case by simp
next
  case (Suc n)
  let ?r = "st_try_receive_payload st (snd w)"
  let ?e = "e\<lparr>te_inner := Some inner\<rparr>"
  obtain s0 ops where origin: "create_inner_session (env_platform env) (env_bcrypt env) (tc_inner config) = Some s0"
    and rec: "record_of (env_bcrypt env) s0 ops (fst w) inner" using data_inv_inner [OF Suc.prems(1)] by auto
  show ?case
  proof (cases "\<exists>c. fst ?r = Some c \<and> c \<noteq> []")
    case False
    then have "data_kept ?e w e' w'"
      using Suc.prems(2) by (auto simp: Let_def data_kept_def split: option.splits if_splits)
    with Suc.prems(1) show ?thesis by (rule kept_inv)
  next
    case True
    then obtain c where c: "fst ?r = Some c" "c \<noteq> []" by blast
    obtain x inner' where o: "inner_open (env_bcrypt env) c inner = (x, inner')" by fastforce
    note intro = data_inv_intro [OF Suc.prems(1) _ _ _ _ origin]
    show ?thesis
    proof (cases "\<exists>q. x = Some q \<and> q \<noteq> []")
      case False
      then have "record_of (env_bcrypt env) s0 (ops @ [Do_Open c]) (fst w @ [Got c]) inner'"
        using record_open(1,2) [OF rec] o by (cases x) auto
      moreover have "fst w' = fst w @ [Got c]" "te_config e' = te_config e" "te_interface e' = te_interface e"
          "te_transport e' = te_transport e" "te_inner e' = Some inner'"
        using Suc.prems(2) False c o by (auto simp: Let_def split: option.splits if_splits)
      ultimately show ?thesis using intro [of e' inner' _ w'] by simp
    next
      case True
      then obtain q where q: "x = Some q" "q \<noteq> []" by blast
      note kept = record_open(3) [OF rec o [unfolded q(1)] q(2)]
      show ?thesis
      proof (cases "fst (vi_write_packet vi q (snd ?r))")
        case False
        then have "fst w' = fst w @ [Got c, Put q]" "te_config e' = te_config e" "te_interface e' = te_interface e"
            "te_transport e' = te_transport e" "te_inner e' = Some inner'"
          using Suc.prems(2) c o q by (auto simp: Let_def)
        with kept show ?thesis using intro [of e' inner' _ w'] by simp
      next
        case True
        let ?e1 = "e\<lparr>te_scratch_opened := buf_assign q (buf_clear (te_scratch_opened e)),
          te_stats := (te_stats e)\<lparr>rs_inbound_packets := rs_inbound_packets (te_stats e) + 1,
            rs_inbound_bytes := rs_inbound_bytes (te_stats e) + of_nat (length q)\<rparr>\<rparr>"
        let ?w1 = "(fst w @ [Got c, Put q], snd (vi_write_packet vi q (snd ?r)))"
        have "inbound_loop env (data_interface vi) (data_transport st) n (k + 1) inner' ?e1 ?w1 = (m, e', w')"
          using Suc.prems(2) c o q True by (simp add: Let_def)
        moreover have "data_inv env config vi st (?e1\<lparr>te_inner := Some inner'\<rparr>) ?w1"
          using intro [of "?e1\<lparr>te_inner := Some inner'\<rparr>" inner' _ ?w1] kept by simp
        ultimately show ?thesis using Suc.IH by blast
      qed
    qed
  qed
qed

lemma data_inbound_batch:
  assumes inv: "data_inv env config vi st e w" and run: "forward_inbound_batch env n e w = (m, e', w')"
  shows "data_inv env config vi st e' w'"
proof (cases "can_send_data (te_session e) \<and> te_inner e \<noteq> None")
  case False
  with run inv show ?thesis by (auto simp: forward_inbound_batch_def split: option.splits if_splits)
next
  case True
  then obtain inner where inner: "te_inner e = Some inner" by blast
  have "inbound_loop env (data_interface vi) (data_transport st) n 0 inner e w = (m, e', w')"
    using run True inner inv_data_objects [OF inv] by (simp add: forward_inbound_batch_def data_objects_def)
  moreover have "data_inv env config vi st (e\<lparr>te_inner := Some inner\<rparr>) w" using inv inner by (simp add: data_inv_def)
  ultimately show ?thesis by (rule data_inbound [rotated])
qed

lemma data_established:
  assumes inv: "data_inv env config vi st e w" and run: "relay_established env n e w = (ok, e', w')"
  shows "data_inv env config vi st e' w'"
proof -
  let ?e1 = "e\<lparr>te_stats := (te_stats e)\<lparr>rs_relay_iterations := rs_relay_iterations (te_stats e) + 1\<rparr>\<rparr>"
  have "data_inv env config vi st ?e1 w" using inv by (simp add: data_inv_def)
  moreover obtain ok2 e2 w2 where o: "forward_outbound env ?e1 w = (ok2, e2, w2)" by (metis prod_cases3)
  ultimately have out: "data_inv env config vi st e2 w2" by (rule data_outbound)
  obtain m e3 w3 where i: "forward_inbound_batch env (if 0 < n then n else 1) e2 w2 = (m, e3, w3)" by (metis prod_cases3)
  have "(e', w') = (e2, w2) \<or> (e', w') = (e3, w3)"
    using run o i by (simp add: relay_established_def Let_def split: if_splits)
  with out data_inbound_batch [OF out i] show ?thesis by auto
qed

lemma data_ready:
  "data_inv env config vi st e w \<Longrightarrow> ensure_session_ready e w = (ok, e', w') \<Longrightarrow> data_inv env config vi st e' w'"
  by (rule kept_inv [OF _ kept_ready [OF _ inv_data_objects]])

lemma data_batch:
  assumes inv: "data_inv env config vi st e w" and run: "relay_batch env n e w = (ok, e', w')"
  shows "data_inv env config vi st e' w'"
proof -
  obtain ok1 e1 w1 where r: "ensure_session_ready e w = (ok1, e1, w1)" by (metis prod_cases3)
  have "(e', w') = (e, w) \<or> (e', w') = (e1, w1) \<or> relay_established env n e1 w1 = (ok, e', w') \<or>
      relay_established env n e w = (ok, e', w')"
    using run r by (auto simp: relay_batch_def split: if_splits)
  then show ?thesis using inv data_ready [OF inv r] data_established by blast
qed

text \<open>The clock, sleeping and the delivery of a signal do not use the engine's objects.\<close>

definition env_silent :: "(packet_event list \<times> 'w) engine_env \<Rightarrow> bool" where
  "env_silent env \<longleftrightarrow> env_related record_kept env"

lemma kept_world: "fst w' = fst w \<Longrightarrow> data_kept e w e w'"
  by (simp add: data_kept_def)

lemma silent_sleep: "env_silent env \<Longrightarrow> data_kept e w e (idle_sleep env e' w)"
  unfolding env_silent_def env_related_def idle_sleep_def by (rule kept_world) blast

lemma kept_poll:
  assumes silent: "env_silent env" and run: "poll_signal env e w = (e', w')" and obj: "data_objects vi st e"
  shows "data_kept e w e' w'"
proof -
  obtain sig w1 where s: "env_signal env w = (sig, w1)" by (meson surj_pair)
  have "fst w1 = fst w" using silent s unfolding env_silent_def env_related_def by (metis snd_conv)
  then have w1: "data_kept e w e w1" by (rule kept_world)
  show ?thesis
  proof (cases sig)
    case Signal_Stop
    with run s kept_trans [OF w1 kept_stop] obj show ?thesis by (simp add: poll_signal_def)
  qed (use run s w1 in \<open>auto simp: poll_signal_def request_data_plane_stop_def data_kept_def\<close>)
qed

lemma kept_reset_sleep:
  assumes "env_silent env" and "data_objects vi st e"
    and "(case reset_server_session e w of (e3, w3) \<Rightarrow> (Continue, e3, idle_sleep env e3 w3)) = (c, e', w')"
  shows "data_kept e w e' w'"
proof -
  obtain e3 w3 where r: "reset_server_session e w = (e3, w3)" by (meson surj_pair)
  with kept_trans [OF kept_reset [OF r assms(2)] silent_sleep [OF assms(1)]] assms(3) show ?thesis by auto
qed

lemma data_iteration:
  assumes inv: "data_inv env config vi st e w" and silent: "env_silent env"
    and run: "relay_iteration env n e w = (c, e', w')"
  shows "data_inv env config vi st e' w'"
proof -
  obtain ok e1 w1 where r: "relay_batch env n e w = (ok, e1, w1)" by (metis prod_cases3)
  note inv1 = data_batch [OF inv r]
  obtain e2 w2 where p: "poll_signal env e1 w1 = (e2, w2)" by (meson surj_pair)
  note inv2 = kept_inv [OF inv1 kept_poll [OF silent p inv_data_objects [OF inv1]]]
  obtain ok3 e3 where f: "engine_transition Failed e2 = (ok3, e3)" by fastforce
  have "(e', w') \<in> {(e1, w1), (e1, idle_sleep env e1 w1), (e2, w2), (e2, idle_sleep env e2 w2), (e3, w2)} \<or>
      (case reset_server_session e2 w2 of (e3, w3) \<Rightarrow> (Continue, e3, idle_sleep env e3 w3)) = (c, e', w')"
    using run r p f by (auto simp: relay_iteration_def Let_def split: if_splits)
  with inv1 inv2 kept_inv [OF inv1 silent_sleep [OF silent]] kept_inv [OF inv2 silent_sleep [OF silent]]
    kept_inv [OF inv2 kept_transition [OF f]] kept_inv [OF inv2 kept_reset_sleep [OF silent inv_data_objects [OF inv2], where c = c and e' = e' and w' = w']]
  show ?thesis by auto
qed

lemma data_plane_data:
  assumes inv: "data_inv env config vi st e w" and silent: "env_silent env"
    and run: "data_plane_iteration env n e w = (c, e', w')"
  shows "data_inv env config vi st e' w'"
proof -
  let ?tail = "\<lambda>e0 w0. (case poll_signal env e0 w0 of (e2, w2) \<Rightarrow>
    if te_stop_requested e2 then (Break, e2, w2)
    else (case reset_server_session e2 w2 of (e3, w3) \<Rightarrow> (Continue, e3, idle_sleep env e3 w3)))"
  obtain ok e1 w1 where r: "ensure_session_ready e w = (ok, e1, w1)" by (metis prod_cases3)
  note inv1 = data_ready [OF inv r]
  have tail: "data_inv env config vi st e' w'" if i: "data_inv env config vi st e0 w0" and "?tail e0 w0 = (c, e', w')" for e0 w0
  proof -
    obtain e2 w2 where p: "poll_signal env e0 w0 = (e2, w2)" by (meson surj_pair)
    note inv2 = kept_inv [OF i kept_poll [OF silent p inv_data_objects [OF i]]]
    show ?thesis
      using that(2) p inv2 kept_inv [OF inv2 kept_reset_sleep [OF silent inv_data_objects [OF inv2], where c = c and e' = e' and w' = w']]
      by (auto split: if_splits)
  qed
  have "(e', w') \<in> {(e, w), (e1, w1), (e1, idle_sleep env e1 w1)} \<or>
      relay_iteration env n e w = (c, e', w') \<or> relay_iteration env n e1 w1 = (c, e', w') \<or>
      ?tail e w = (c, e', w') \<or> ?tail e1 w1 = (c, e', w')"
    using run r by (simp add: data_plane_iteration_def Let_def split: if_splits) auto
  with inv inv1 kept_inv [OF inv1 silent_sleep [OF silent]] data_iteration [OF inv silent, of n c e' w']
    data_iteration [OF inv1 silent, of n c e' w'] tail [of e w] tail [of e1 w1] show ?thesis by auto
qed

lemma data_start:
  assumes inv: "data_inv env config vi st e w" and run: "start env e w = (ok, e', w')"
  shows "data_inv env config vi st e' w'"
proof -
  have "(e' = e \<and> w' = w) \<or>
      (\<exists>e1. start_inner env e = Some e1 \<and> start_connect (data_interface vi) (data_transport st) (start_buffers e1) w = (ok, e', w'))"
    using run inv_data_objects [OF inv] by (auto simp: start_def data_objects_def split: if_splits option.splits)
  then show ?thesis
  proof
    assume "\<exists>e1. start_inner env e = Some e1 \<and> start_connect (data_interface vi) (data_transport st) (start_buffers e1) w = (ok, e', w')"
    then obtain e1 where e1: "start_inner env e = Some e1"
      and c: "start_connect (data_interface vi) (data_transport st) (start_buffers e1) w = (ok, e', w')" by blast
    have "data_inv env config vi st e1 w"
    proof (cases "te_inner e")
      case None
      then obtain s0 where s0: "create_inner_session (env_platform env) (env_bcrypt env) (tc_inner config) = Some s0"
          "e1 = e\<lparr>te_inner := Some s0\<rparr>"
        using e1 inv by (auto simp: start_inner_def data_inv_def split: option.splits)
      have "record_of (env_bcrypt env) s0 [] [] s0" by (simp add: record_of_def)
      with None s0 inv show ?thesis unfolding data_inv_def by auto
    next
      case (Some s)
      with e1 inv show ?thesis by (simp add: start_inner_def)
    qed
    then have "data_inv env config vi st (start_buffers e1) w"
      by (rule kept_inv) (simp add: data_kept_def start_buffers_def split: prod.splits)
    with kept_connect [OF c] show ?thesis by (rule kept_inv [rotated])
  qed (use inv in simp)
qed

lemma data_step:
  "engine_step env s s' \<Longrightarrow> env_silent env \<Longrightarrow> data_inv env config vi st (fst s) (snd s) \<Longrightarrow> data_inv env config vi st (fst s') (snd s')"
proof (induction rule: engine_step.induct)
  case (step_clock w t w' e)
  have "fst w' = fst w" using step_clock(1,2) unfolding env_silent_def env_related_def by (metis snd_conv)
  from kept_inv [OF _ kept_world [OF this]] step_clock(3) show ?case by simp
next
  case (step_request_stop e w)
  then show ?case by (simp add: data_inv_def request_data_plane_stop_def)
next
  case (step_start e w ok e' w')
  from data_start [OF _ step_start(1)] step_start(3) show ?case by simp
next
  case (step_relay n e w ok e' w')
  from data_batch [OF _ step_relay(1)] step_relay(3) show ?case by simp
next
  case (step_reset e w e' w')
  from kept_inv [OF _ kept_reset [OF step_reset(1) inv_data_objects]] step_reset(3) show ?case by simp
next
  case (step_stop e w e' w')
  from kept_inv [OF _ kept_stop [OF step_stop(1) inv_data_objects]] step_stop(3) show ?case by simp
next
  case (step_signal e w e' w')
  from kept_inv [OF _ kept_poll [OF step_signal(2,1) inv_data_objects]] step_signal(3) show ?case by simp
next
  case (step_iteration n e w control e' w')
  from data_plane_data [OF _ step_iteration(2,1)] step_iteration(3) show ?case by simp
qed

lemma data_reaches:
  "engine_reaches env s s' \<Longrightarrow> env_silent env \<Longrightarrow> data_inv env config vi st (fst s) (snd s) \<Longrightarrow> data_inv env config vi st (fst s') (snd s')"
  by (induction rule: rtranclp_induct) (auto dest: data_step)

lemma data_inv_new:
  "data_inv env config vi st (new_engine config (Some (data_interface vi)) (Some (data_transport st)) None) ([], w)"
  by (simp add: data_inv_def new_engine_def)

text \<open>The record of an engine without a created session is empty; otherwise it is that of a run.\<close>

lemma reached_record:
  assumes "engine_reaches env (new_engine config (Some (data_interface vi)) (Some (data_transport st)) None, ([], w)) (e, (l, w'))"
    and "env_silent env"
  obtains (unused) "l = []"
  | (run) s0 ops s where "create_inner_session (env_platform env) (env_bcrypt env) (tc_inner config) = Some s0"
      and "record_of (env_bcrypt env) s0 ops l s"
proof -
  have "data_inv env config vi st e (l, w')" using data_reaches [OF assms, unfolded fst_conv snd_conv, OF data_inv_new] .
  then show thesis using unused run by (cases "te_inner e") (auto simp: data_inv_def)
qed

text \<open>
  A server keeps its inner session when it is reset for the next client. A client that starts
  afresh counts from one again, and its frames are refused up to the number last accepted
  from the client before it.
\<close>

lemma reset_server_refuses_new_client:
  assumes "reset_server_session e w = (e', w')" and "te_inner e = Some s"
    and "aead_correct api" and "create_inner_session plat api config = Some s0"
    and "\<forall>p \<in> set ps. length p \<le> 2048" and "i < length ps" and "Suc i \<le> unat (inner_recv_seq s)"
  shows "te_inner e' = Some s \<and> fst (inner_open api (snd (fst (seal_all (inner_seal api) ps s0) ! i)) s) = None"
proof -
  let ?c = "snd (fst (seal_all (inner_seal api) ps s0) ! i)"
  note created = created_sessions_linked [OF assms(3,4)]
  have "frame_sequence ?c = of_nat (Suc i)"
    using inner.seal_all_nth [of api s0 s0 ps i] created assms(5,6) by simp
  moreover have "(of_nat (Suc i) :: u64) \<le> inner_recv_seq s"
    using order.trans [OF mod_less_eq_dividend assms(7)] unfolding word_le_nat_alt unat_of_nat .
  ultimately have "\<not> inner_recv_seq s < frame_sequence ?c" by simp
  then have "fst (inner_open api ?c s) = None"
    using inner.open_Some [of api ?c s] by (metis option.exhaust prod.collapse)
  moreover have "te_inner e' = Some s"
    using assms(1,2) by (auto simp: reset_server_session_def Let_def split: if_splits)
  ultimately show ?thesis by simp
qed

section \<open>A concrete pair\<close>

text \<open>A client whose interface always has a packet, and one whose transport always has a frame.\<close>

definition source_interface :: "bytes \<Rightarrow> nat VirtualInterface" where
  "source_interface p = accepting_interface\<lparr>vi_read_packet := (\<lambda>w. (p, w))\<rparr>"

definition source_transport :: "bytes \<Rightarrow> nat SecureTransport" where
  "source_transport c = accepting_transport\<lparr>st_try_receive_payload := (\<lambda>w. (Some c, w))\<rparr>"

abbreviation data_engine :: "nat VirtualInterface \<Rightarrow> nat SecureTransport \<Rightarrow> (packet_event list \<times> nat) TunnelEngine" where
  "data_engine vi st \<equiv> new_engine default_config (Some (data_interface vi)) (Some (data_transport st)) None"

lemma data_engine_starts:
  assumes "vi \<in> {accepting_interface, source_interface p}" and "st \<in> {accepting_transport, source_transport c}"
  shows "\<exists>e. start (still_env Posix net) (data_engine vi st) ([], 0) = (True, e, ([], 0)) \<and>
    engine_at (data_interface vi) (data_transport st) (Development new_dev_session) e"
proof -
  have "is_valid Posix net default_config = None"
    using default_config_valid [of net Client] by (simp add: default_config_def)
  then have "\<exists>e. start (still_env Posix net) (data_engine vi st) ([], 0) = (True, e, ([], 0)) \<and>
    engine_at (data_interface vi) (data_transport st) (Development new_dev_session) e \<and> te_config e = default_config"
    using assms
    by (intro start_client_success)
      (auto simp: still_env_def default_config_def create_inner_session_def source_interface_def source_transport_def
        accepting_interface_def accepting_transport_def base_apply_client_routing_def base_open_data_channel_def)
  then show ?thesis by blast
qed

lemma start_then_relay:
  assumes "start env e0 w0 = (ok0, e, w)" and "relay_batch env n e w = (ok, e', w')"
  shows "engine_reaches env (e0, w0) (e', w')"
proof -
  have "engine_reaches env (e0, w0) (e, w)" using step_start [OF assms(1)] by (rule r_into_rtranclp)
  then show ?thesis using step_relay [OF assms(2)] by (rule rtranclp.rtrancl_into_rtrancl)
qed

text \<open>The first takes a packet and gives its frame; the second gets the frame and writes the packet.\<close>

lemma source_pair:
  assumes "inner_seal identity_aead [0x45] (Development new_dev_session) = (Some c, s)"
  shows "\<exists>e. engine_reaches (still_env Posix net) (data_engine (source_interface [0x45]) accepting_transport, ([], 0))
            (e, ([Took [0x45], Gave c], 0))"
    and "\<exists>e. engine_reaches (still_env Posix net) (data_engine accepting_interface (source_transport c), ([], 0))
            (e, ([Got c, Put [0x45]], 0))"
proof -
  let ?env = "still_env Posix net :: (packet_event list \<times> nat) engine_env"
  have c: "c \<noteq> []" using inner_seal_nonempty [OF assms] .
  obtain e where e: "start ?env (data_engine (source_interface [0x45]) accepting_transport) ([], 0) = (True, e, ([], 0))"
      "engine_at (data_interface (source_interface [0x45])) (data_transport accepting_transport) (Development new_dev_session) e"
    using data_engine_starts [of "source_interface [0x45]" "[0x45]" accepting_transport "[]"] by blast
  let ?e1 = "e\<lparr>te_stats := (te_stats e)\<lparr>rs_relay_iterations := rs_relay_iterations (te_stats e) + 1\<rparr>\<rparr>"
  have at: "engine_at (data_interface (source_interface [0x45])) (data_transport accepting_transport) (Development new_dev_session) ?e1"
    using e(2) by (simp add: engine_at_def engine_state_def)
  obtain e2 where e2: "forward_outbound ?env ?e1 ([], 0) = (True, e2, ([Took [0x45], Gave c], 0))"
      "engine_at (data_interface (source_interface [0x45])) (data_transport accepting_transport) s e2"
    using forward_outbound_sent [OF at, of "([], 0)" "[0x45]" "([Took [0x45]], 0)" ?env c s "([Took [0x45], Gave c], 0)"] assms
    by (auto simp: source_interface_def accepting_transport_def still_env_def)
  have "inbound_loop ?env vi' (data_transport accepting_transport) (Suc 0) 0 s e2 (l, 0) = (0, e2\<lparr>te_inner := Some s\<rparr>, (l, 0))" for vi' l
    by (simp add: accepting_transport_def)
  with e2(2) have "forward_inbound_batch ?env (Suc 0) e2 ([Took [0x45], Gave c], 0) =
      (0, e2\<lparr>te_inner := Some s\<rparr>, ([Took [0x45], Gave c], 0))"
    by (simp only: forward_inbound_batch_def engine_at_def engine_state_def) simp
  with e2(1) have "\<exists>e'. relay_established ?env 1 e ([], 0) = (True, e', ([Took [0x45], Gave c], 0))"
    unfolding relay_established_def Let_def by simp
  with e(2) have "\<exists>e'. relay_batch ?env 1 e ([], 0) = (True, e', ([Took [0x45], Gave c], 0))"
    by (simp only: relay_batch_established engine_at_def)
  then show "\<exists>e. engine_reaches ?env (data_engine (source_interface [0x45]) accepting_transport, ([], 0))
      (e, ([Took [0x45], Gave c], 0))"
    using start_then_relay [OF e(1)] by blast
  obtain s2 where o: "inner_open identity_aead c (Development new_dev_session) = (Some [0x45], s2)"
    using inner.link_round_trip [of identity_aead "Development new_dev_session" "Development new_dev_session", OF _ assms]
      inner.seal_Some [OF assms] by (auto simp: new_dev_session_def)
  obtain e where e: "start ?env (data_engine accepting_interface (source_transport c)) ([], 0) = (True, e, ([], 0))"
      "engine_at (data_interface accepting_interface) (data_transport (source_transport c)) (Development new_dev_session) e"
    using data_engine_starts [of accepting_interface "[]" "source_transport c" c] by blast
  let ?e1 = "e\<lparr>te_stats := (te_stats e)\<lparr>rs_relay_iterations := rs_relay_iterations (te_stats e) + 1\<rparr>\<rparr>"
  have at: "engine_at (data_interface accepting_interface) (data_transport (source_transport c)) (Development new_dev_session) ?e1"
    using e(2) by (simp add: engine_at_def engine_state_def)
  have out: "forward_outbound ?env ?e1 ([], 0) = (True, ?e1, ([], 0))"
    by (rule forward_outbound_idle [OF at]) (simp add: accepting_interface_def)
  obtain e2 where "inbound_loop ?env (data_interface accepting_interface) (data_transport (source_transport c)) (Suc 0) 0
      (Development new_dev_session) ?e1 ([], 0) = (1, e2, ([Got c, Put [0x45]], 0))"
    using inbound_loop_deliver [of "data_transport (source_transport c)" "([], 0)" c "([Got c], 0)" ?env "Development new_dev_session"
        "[0x45]" s2 "data_interface accepting_interface" "([Got c, Put [0x45]], 0)" 0 0 ?e1] o c
    by (auto simp: source_transport_def accepting_interface_def still_env_def)
  then have "forward_inbound_batch ?env (Suc 0) ?e1 ([], 0) = (1, e2, ([Got c, Put [0x45]], 0))"
    using at by (simp only: forward_inbound_batch_def engine_at_def engine_state_def) simp
  with out have "\<exists>e'. relay_established ?env 1 e ([], 0) = (True, e', ([Got c, Put [0x45]], 0))"
    unfolding relay_established_def Let_def by simp
  with e(2) have "\<exists>e'. relay_batch ?env 1 e ([], 0) = (True, e', ([Got c, Put [0x45]], 0))"
    by (simp only: relay_batch_established engine_at_def)
  then show "\<exists>e. engine_reaches ?env (data_engine accepting_interface (source_transport c), ([], 0))
      (e, ([Got c, Put [0x45]], 0))"
    using start_then_relay [OF e(1)] by blast
qed

section \<open>Properties\<close>

text \<open>
  C2. Packets arrive in order, unchanged and at most once: take two engines with the same inner
  configuration, whatever is called on each and whatever their interfaces and transports
  answer. If every frame the second one gets is one that the first gave to its transport
  (frames may be lost, repeated and reordered), and the first took fewer than 2^64 packets,
  then the packets the second writes to its interface are a subsequence of the packets the
  first took from its own.
\<close>

theorem packets_written_in_order:
  assumes "aead_correct (env_bcrypt enva)" and "env_bcrypt envb = env_bcrypt enva"
    and "env_platform envb = env_platform enva" and "tc_inner cb = tc_inner ca"
    and "env_silent enva" and "env_silent envb"
    and "engine_reaches enva (new_engine ca (Some (data_interface via)) (Some (data_transport sta)) None, ([], wa)) (ea, (la, wa'))"
    and "engine_reaches envb (new_engine cb (Some (data_interface vib)) (Some (data_transport stb)) None, ([], wb)) (eb, (lb, wb'))"
    and "set (gotten lb) \<subseteq> set (given la)" and "length (taken la) < 2 ^ 64"
  shows "subseq (written lb) (taken la)"
  using assms(8,6)
proof (cases rule: reached_record)
  case b: (run t0 ys t)
  from assms(7,5) show ?thesis
  proof (cases rule: reached_record)
    case unused
    with assms(9) b(2) show ?thesis using runs_write_nothing by (fastforce simp: record_of_def split: prod.splits)
  next
    case a: (run s0 xs s)
    have "t0 = s0" using a(1) b(1) assms(2-4) by simp
    with created_sessions_linked [OF assms(1) a(1)] have s0: "sessions_linked (env_bcrypt enva) s0 t0" "inner_send_seq s0 = 0" by simp_all
    obtain P Q where P: "inner_run (env_bcrypt enva) xs s0 = (P, Q, s)" "given la = map snd P"
      using a(2) by (auto simp: record_of_def split: prod.splits)
    obtain P' Q' where Q: "inner_run (env_bcrypt enva) ys t0 = (P', Q', t)" "written lb = map fst Q'"
      using b(2) assms(2) by (auto simp: record_of_def split: prod.splits)
    have "taken la = seals xs" "gotten lb = opens ys" using a(2) b(2) by (simp_all add: record_of_def)
    with runs_in_order [OF s0(1) P(1) Q(1)] P Q s0(2) assms(9,10) show ?thesis by simp
  qed
qed simp

theorem packets_written_in_order_witness:
  "\<forall>net. \<exists>la lb ea eb st. engine_reaches (still_env Posix net) (data_engine (source_interface [0x45]) accepting_transport, ([], 0)) (ea, (la, 0)) \<and>
     engine_reaches (still_env Posix net) (data_engine accepting_interface st, ([], 0)) (eb, (lb, 0)) \<and>
     written lb = [[0x45]] \<and> subseq (written lb) (taken la)"
proof
  fix net :: "(packet_event list \<times> nat) net_api"
  have linked: "sessions_linked identity_aead (Development new_dev_session) (Development new_dev_session)" by simp
  obtain c s where c: "inner_seal identity_aead [0x45] (Development new_dev_session) = (Some c, s)"
    using inner.seal_ok [OF linked, of "[0x45]"] by auto
  obtain ea where a: "engine_reaches (still_env Posix net) (data_engine (source_interface [0x45]) accepting_transport, ([], 0))
      (ea, ([Took [0x45], Gave c], 0))" using source_pair(1) [OF c] by blast
  obtain eb where b: "engine_reaches (still_env Posix net) (data_engine accepting_interface (source_transport c), ([], 0))
      (eb, ([Got c, Put [0x45]], 0))" using source_pair(2) [OF c] by blast
  have "subseq (written [Got c, Put [0x45]]) (taken [Took [0x45], Gave c])"
    by (rule packets_written_in_order [OF _ _ _ _ _ _ a b])
      (simp_all add: still_env_def identity_aead_correct env_silent_def env_related_def)
  moreover have "written [Got c, Put [0x45]] = [[0x45]]" by simp
  ultimately show "\<exists>la lb ea eb st. engine_reaches (still_env Posix net) (data_engine (source_interface [0x45]) accepting_transport, ([], 0)) (ea, (la, 0)) \<and>
     engine_reaches (still_env Posix net) (data_engine accepting_interface st, ([], 0)) (eb, (lb, 0)) \<and>
     written lb = [[0x45]] \<and> subseq (written lb) (taken la)"
    using a b by blast
qed

end
