(* ===== verification/Handle_Owner.thy ===== *)
theory Handle_Owner
  imports Prelude "HOL-Library.Multiset"
begin

text \<open>
  The contract of an object that owns handles of the operating system, such as a virtual
  network interface: between any two calls the process holds, besides what it held at the
  start, exactly what the object records as its own, and releasing the object gives all of
  it back. Handles are counted, because loading a library twice takes two releases.
\<close>

datatype os_handle = H_Module nat | H_Adapter nat | H_Session nat | H_Descriptor nat

text \<open>The handles of an optional member.\<close>

definition owned :: "(nat \<Rightarrow> os_handle) \<Rightarrow> nat option \<Rightarrow> os_handle multiset" where
  "owned kind h = (case h of None \<Rightarrow> {#} | Some n \<Rightarrow> {#kind n#})"

lemma owned_simps [simp]: "owned kind None = {#}" "owned kind (Some n) = {#kind n#}"
  by (simp_all add: owned_def)

lemma balanced_own: "(a :: os_handle multiset) + b = c + d \<Longrightarrow> b \<subseteq># c \<Longrightarrow> d \<subseteq># a"
  by (metis add.assoc add.commute add_right_cancel mset_subset_eq_exists_conv mset_subset_eq_add_right)

text \<open>From one state to another: well-formedness is kept, and the handles held grow and shrink with
  those recorded as owned.\<close>

definition balanced ::
  "('s \<Rightarrow> bool) \<Rightarrow> ('s \<Rightarrow> os_handle multiset) \<Rightarrow> ('s \<Rightarrow> os_handle multiset) \<Rightarrow> 's \<Rightarrow> 's \<Rightarrow> bool" where
  "balanced good held own s s' \<longleftrightarrow> (good s \<longrightarrow> good s' \<and> held s' + own s = held s + own s')"

lemma balanced_refl [simp]: "balanced good held own s s"
  by (simp add: balanced_def)

lemma balanced_trans:
  assumes "balanced good held own s t" and "balanced good held own t u"
  shows "balanced good held own s u"
proof -
  have "good u \<and> held u + own s = held s + own u" if "good s"
  proof -
    have t: "good t" "held t + own s = held s + own t" and u: "good u" "held u + own t = held t + own u"
      using assms that by (auto simp: balanced_def)
    have "held u + own s + own t = held s + own u + own t" using t(2) u(2) by (metis add.assoc add.commute)
    then show ?thesis using u(1) by simp
  qed
  then show ?thesis by (simp add: balanced_def)
qed

locale handle_owner =
  fixes step :: "'op \<Rightarrow> 's \<Rightarrow> 's" and release :: "'s \<Rightarrow> 's"
    and held :: "'s \<Rightarrow> os_handle multiset" and own :: "'s \<Rightarrow> os_handle multiset" and wf :: "'s \<Rightarrow> bool"
  assumes step_wf: "wf s \<Longrightarrow> wf (step op s)"
    and step_held: "wf s \<Longrightarrow> held (step op s) + own s = held s + own (step op s)"
    and release_held: "wf s \<Longrightarrow> held (release s) + own s = held s"
begin

lemma run_wf: "wf s \<Longrightarrow> wf (fold step ops s)"
  by (induction ops arbitrary: s) (simp_all add: step_wf)

lemma step_balanced: "balanced wf held own s (step op s)"
  by (simp add: balanced_def step_wf step_held)

lemma run_balanced: "balanced wf held own s (fold step ops s)"
  by (induction ops arbitrary: s) (auto intro: step_balanced balanced_trans)

lemma run_held: "wf s \<Longrightarrow> held (fold step ops s) + own s = held s + own (fold step ops s)"
  using run_balanced [of s ops] by (simp add: balanced_def)

text \<open>After any calls, releasing the object leaves the process with what it held before.\<close>

lemma all_released:
  assumes "wf s" and "own s = {#}"
  shows "held (release (fold step ops s)) = held s"
  using release_held [OF run_wf [OF assms(1)], of ops] run_held [OF assms(1), of ops] assms(2) by simp

end

end
