(* ===== verification/Wintun_Loader.thy ===== *)
theory Wintun_Loader
  imports Handle_Owner
begin

text \<open>
  The loader of \<^verbatim>\<open>wintun.dll\<close>, \<^verbatim>\<open>src/wintun_loader.cpp\<close>. The Windows loader and the driver's functions
  are the record \<open>wintun_api\<close>; the function pointers of the class are a table indexed by the
  exports, \<open>None\<close> being \<open>nullptr\<close>. Paths are strings of characters.
\<close>

section \<open>Data\<close>

datatype wintun_export =
    WintunCreateAdapter
  | WintunCloseAdapter
  | WintunOpenAdapter
  | WintunGetAdapterLUID
  | WintunGetRunningDriverVersion
  | WintunDeleteDriver
  | WintunSetLogger
  | WintunStartSession
  | WintunEndSession
  | WintunGetReadWaitEvent
  | WintunReceivePacket
  | WintunReleaseReceivePacket
  | WintunAllocateSendPacket
  | WintunSendPacket

text \<open>The order in which \<open>load\<close> resolves them.\<close>

definition wintun_exports :: "wintun_export list" where
  "wintun_exports =
     [WintunCreateAdapter, WintunCloseAdapter, WintunOpenAdapter, WintunGetAdapterLUID,
      WintunGetRunningDriverVersion, WintunDeleteDriver, WintunSetLogger, WintunStartSession,
      WintunEndSession, WintunGetReadWaitEvent, WintunReceivePacket, WintunReleaseReceivePacket,
      WintunAllocateSendPacket, WintunSendPacket]"

text \<open>
  The module loader and the driver. A session and a packet buffer are numbers; what
  \<open>GetLastError\<close> gives after a failed call is \<open>wa_last_error\<close> or comes with the failure.
\<close>

record 'w wintun_api =
  wa_module_file_name :: string
  wa_parent_path :: "string \<Rightarrow> string"
  wa_load_library :: "string \<Rightarrow> 'w \<Rightarrow> nat option \<times> 'w"
  wa_get_proc :: "nat \<Rightarrow> wintun_export \<Rightarrow> nat option"
  wa_free_library :: "nat \<Rightarrow> 'w \<Rightarrow> 'w"
  wa_last_error :: "'w \<Rightarrow> u32"
  wa_driver_version :: "'w \<Rightarrow> u32"
  wa_open_adapter :: "string \<Rightarrow> 'w \<Rightarrow> nat option \<times> 'w"
  wa_create_adapter :: "string \<Rightarrow> string \<Rightarrow> 'w \<Rightarrow> nat option \<times> 'w"
  wa_close_adapter :: "nat \<Rightarrow> 'w \<Rightarrow> 'w"
  wa_adapter_luid :: "nat \<Rightarrow> 'w \<Rightarrow> u64"
  wa_start_session :: "nat \<Rightarrow> u32 \<Rightarrow> 'w \<Rightarrow> nat option \<times> 'w"
  wa_end_session :: "nat \<Rightarrow> 'w \<Rightarrow> 'w"
  wa_receive_packet :: "nat \<Rightarrow> 'w \<Rightarrow> (u32 + nat \<times> bytes) \<times> 'w"
  wa_release_receive_packet :: "nat \<Rightarrow> nat \<Rightarrow> 'w \<Rightarrow> 'w"
  wa_allocate_send_packet :: "nat \<Rightarrow> u32 \<Rightarrow> 'w \<Rightarrow> (u32 + nat) \<times> 'w"
  wa_send_packet :: "nat \<Rightarrow> nat \<Rightarrow> bytes \<Rightarrow> 'w \<Rightarrow> 'w"

datatype loader_error = Dll_Not_Loaded u32 | Export_Missing wintun_export

record WintunLoader =
  wl_pointers :: "wintun_export \<Rightarrow> nat option"
  wl_module :: "nat option"
  wl_last_error :: "loader_error option"

definition new_loader :: WintunLoader where
  "new_loader = \<lparr>wl_pointers = (\<lambda>_. None), wl_module = None, wl_last_error = None\<rparr>"

section \<open>Operations\<close>

text \<open>\<open>MAX_PATH\<close> is 260; a path that fills the buffer has been cut off.\<close>

definition exe_directory :: "'w wintun_api \<Rightarrow> string" where
  "exe_directory api =
     (let name = wa_module_file_name api in
      if name = [] \<or> 260 \<le> length name then ''.'' else wa_parent_path api name)"

definition dll_candidates :: "'w wintun_api \<Rightarrow> string \<Rightarrow> string list" where
  "dll_candidates api dll_path =
     (if dll_path \<noteq> [] then [dll_path, [], []]
      else
        (let sep = [CHR 0x5C] in
         [exe_directory api @ sep @ ''wintun.dll'',
          exe_directory api @ sep @ ''..'' @ sep @ ''..'' @ sep @ ''third_party'' @ sep @ ''wintun'' @ sep @ ''wintun.dll'',
          ''wintun.dll'']))"

fun load_first :: "'w wintun_api \<Rightarrow> string list \<Rightarrow> 'w \<Rightarrow> nat option \<times> 'w" where
  "load_first api [] w = (None, w)"
| "load_first api (c # cs) w =
     (if c = [] then load_first api cs w
      else (case wa_load_library api c w of
              (Some m, w1) \<Rightarrow> (Some m, w1)
            | (None, w1) \<Rightarrow> load_first api cs w1))"

definition resolve_export :: "'w wintun_api \<Rightarrow> nat \<Rightarrow> wintun_export \<Rightarrow> WintunLoader \<Rightarrow> bool \<times> WintunLoader" where
  "resolve_export api module e l =
     (let p = wa_get_proc api module e;
          l1 = l\<lparr>wl_pointers := (wl_pointers l)(e := p)\<rparr>
      in if p = None then (False, l1\<lparr>wl_last_error := Some (Export_Missing e)\<rparr>) else (True, l1))"

fun resolve_all :: "'w wintun_api \<Rightarrow> nat \<Rightarrow> wintun_export list \<Rightarrow> WintunLoader \<Rightarrow> bool \<times> WintunLoader" where
  "resolve_all api module [] l = (True, l)"
| "resolve_all api module (e # es) l =
     (case resolve_export api module e l of (ok, l1) \<Rightarrow>
        if \<not> ok then (False, l1) else resolve_all api module es l1)"

definition unload :: "'w wintun_api \<Rightarrow> WintunLoader \<Rightarrow> 'w \<Rightarrow> WintunLoader \<times> 'w" where
  "unload api l w =
     (let l1 = l\<lparr>wl_pointers := (\<lambda>_. None)\<rparr> in
      case wl_module l of
        None \<Rightarrow> (l1, w)
      | Some m \<Rightarrow> (l1\<lparr>wl_module := None\<rparr>, wa_free_library api m w))"

definition load_wintun :: "'w wintun_api \<Rightarrow> string \<Rightarrow> WintunLoader \<Rightarrow> 'w \<Rightarrow> bool \<times> WintunLoader \<times> 'w" where
  "load_wintun api dll_path l w =
     (case unload api l w of (l0, w0) \<Rightarrow>
        (case load_first api (dll_candidates api dll_path) w0 of
           (None, w1) \<Rightarrow> (False, l0\<lparr>wl_last_error := Some (Dll_Not_Loaded (wa_last_error api w1))\<rparr>, w1)
         | (Some module, w1) \<Rightarrow>
             (case resolve_all api module wintun_exports l0 of (ok, l1) \<Rightarrow>
                if \<not> ok then (False, l1, wa_free_library api module w1)
                else (True, l1\<lparr>wl_module := Some module, wl_last_error := None\<rparr>, w1))))"

definition is_loaded :: "WintunLoader \<Rightarrow> bool" where
  "is_loaded l \<longleftrightarrow> wl_module l \<noteq> None"

definition running_driver_version :: "'w wintun_api \<Rightarrow> WintunLoader \<Rightarrow> 'w \<Rightarrow> u32" where
  "running_driver_version api l w =
     (if \<not> is_loaded l \<or> wl_pointers l WintunGetRunningDriverVersion = None then 0
      else wa_driver_version api w)"

section \<open>Lemmas\<close>

text \<open>A loaded module has all its functions.\<close>

definition loader_wf :: "WintunLoader \<Rightarrow> bool" where
  "loader_wf l \<longleftrightarrow> (is_loaded l \<longrightarrow> (\<forall>e. wl_pointers l e \<noteq> None))"

lemma all_exports: "e \<in> set wintun_exports"
  by (cases e) (simp_all add: wintun_exports_def)

lemma resolve_all_spec:
  "resolve_all api module es l = (ok, l') \<Longrightarrow> wl_module l' = wl_module l \<and>
     (ok \<longrightarrow> (\<forall>e. e \<in> set es \<or> wl_pointers l e \<noteq> None \<longrightarrow> wl_pointers l' e \<noteq> None))"
proof (induction es arbitrary: l)
  case (Cons e es)
  show ?case
  proof (cases "wa_get_proc api module e")
    case None
    then show ?thesis using Cons.prems by (auto simp: resolve_export_def Let_def)
  next
    case (Some p)
    then have "resolve_all api module es (l\<lparr>wl_pointers := (wl_pointers l)(e := Some p)\<rparr>) = (ok, l')"
      using Cons.prems by (simp add: resolve_export_def Let_def)
    from Cons.IH [OF this] show ?thesis by (auto split: if_splits)
  qed
qed simp

lemma unload_spec:
  "unload api l w = (l', w') \<Longrightarrow> wl_module l' = None \<and> wl_pointers l' = (\<lambda>_. None) \<and>
     w' = (case wl_module l of None \<Rightarrow> w | Some m \<Rightarrow> wa_free_library api m w)"
  by (auto simp: unload_def Let_def split: option.splits)

lemma load_wintun_cases:
  assumes "load_wintun api path l w = (ok, l', w')"
  obtains (missing) w0 where "w0 = snd (unload api l w)" and "\<not> ok" and "wl_module l' = None"
      and "load_first api (dll_candidates api path) w0 = (None, w')"
  | (incomplete) w0 m w1 where "w0 = snd (unload api l w)" and "\<not> ok" and "wl_module l' = None"
      and "load_first api (dll_candidates api path) w0 = (Some m, w1)" and "w' = wa_free_library api m w1"
  | (loaded) w0 m where "w0 = snd (unload api l w)" and "ok" and "wl_module l' = Some m" and "\<forall>e. wl_pointers l' e \<noteq> None"
      and "load_first api (dll_candidates api path) w0 = (Some m, w')"
proof -
  obtain l0 w0 where u: "unload api l w = (l0, w0)" by fastforce
  obtain r w1 where f: "load_first api (dll_candidates api path) w0 = (r, w1)" by fastforce
  have l0: "wl_module l0 = None" using unload_spec [OF u] by simp
  show ?thesis
  proof (cases r)
    case None
    with assms u f l0 missing show ?thesis by (auto simp: load_wintun_def)
  next
    case (Some m)
    obtain b l1 where a: "resolve_all api m wintun_exports l0 = (b, l1)" by fastforce
    have sp: "wl_module l1 = None" "b \<Longrightarrow> \<forall>e. wl_pointers l1 e \<noteq> None"
      using resolve_all_spec [OF a] l0 all_exports by auto
    show ?thesis
    proof (cases b)
      case True
      with assms u f Some a sp loaded show ?thesis by (auto simp: load_wintun_def)
    next
      case False
      with assms u f Some a sp incomplete show ?thesis by (auto simp: load_wintun_def)
    qed
  qed
qed

lemma load_wintun_wf: "load_wintun api path l w = (ok, l', w') \<Longrightarrow> loader_wf l' \<and> is_loaded l' = ok"
  by (erule load_wintun_cases) (auto simp: loader_wf_def is_loaded_def)

end
