(* ===== verification/Cpp_Text.thy ===== *)
theory Cpp_Text
  imports Prelude Inet_Text
begin

text \<open>
  The operations of the C++ library on text that the program uses: \<open>isspace\<close> in the "C"
  locale, trimming, \<open>std::getline\<close> over a whole file, \<open>std::stoi\<close> and the prefix test
  \<open>rfind(p, 0) == 0\<close>, with their lemmas. A \<open>std::string\<close> is a list of characters.
\<close>

definition cpp_isspace :: "char \<Rightarrow> bool" where
  "cpp_isspace c \<longleftrightarrow> (let n = of_char c :: nat in n = 32 \<or> 9 \<le> n \<and> n \<le> 13)"

definition cpp_isdigit :: "char \<Rightarrow> bool" where
  "cpp_isdigit c \<longleftrightarrow> (let n = of_char c :: nat in 48 \<le> n \<and> n \<le> 57)"

definition starts_with :: "string \<Rightarrow> string \<Rightarrow> bool" where
  "starts_with p s \<longleftrightarrow> take (length p) s = p"

text \<open>The lines that successive calls of \<open>getline\<close> yield until the end of the file.\<close>

fun file_lines :: "string \<Rightarrow> string list" where
  "file_lines [] = []"
| "file_lines (c # cs) =
     (if c = CHR 0x0A then [] # file_lines cs
      else (case file_lines cs of
              [] \<Rightarrow> [[c]]
            | l # ls \<Rightarrow> (c # l) # ls))"

text \<open>\<open>erase(begin())\<close> while the front is in the set, then \<open>pop_back()\<close> while the back is.\<close>

definition strip_front :: "(char \<Rightarrow> bool) \<Rightarrow> string \<Rightarrow> string" where
  "strip_front f s = dropWhile f s"

definition strip_back :: "(char \<Rightarrow> bool) \<Rightarrow> string \<Rightarrow> string" where
  "strip_back f s = rev (dropWhile f (rev s))"

text \<open>\<open>std::stoi\<close>: leading white space, a sign, the longest run of digits; the rest is ignored.\<close>

datatype stoi_error = Invalid_Argument | Out_Of_Range

definition digits_value :: "string \<Rightarrow> nat" where
  "digits_value ds = foldl (\<lambda>v c. 10 * v + (of_char c - 48)) 0 ds"

definition stoi :: "string \<Rightarrow> stoi_error + int" where
  "stoi s =
     (let t = dropWhile cpp_isspace s;
          (neg, r) = (case t of
                        c # cs \<Rightarrow> if c = CHR ''-'' then (True, cs) else if c = CHR ''+'' then (False, cs) else (False, t)
                      | [] \<Rightarrow> (False, []));
          ds = takeWhile cpp_isdigit r;
          v = (if neg then - int (digits_value ds) else int (digits_value ds))
      in if ds = [] then Inl Invalid_Argument
         else if v < - (2 ^ 31) \<or> 2 ^ 31 \<le> v then Inl Out_Of_Range
         else Inr v)"

section \<open>Lemmas\<close>

lemma strip_back_snoc [simp]:
  "strip_back f (s @ [c]) = (if f c then strip_back f s else s @ [c])"
  by (simp add: strip_back_def)

lemma strip_back_Nil [simp]: "strip_back f [] = []"
  by (simp add: strip_back_def)

lemma strip_back_last: "strip_back f s \<noteq> [] \<Longrightarrow> \<not> f (last (strip_back f s))"
  unfolding strip_back_def last_rev by (metis hd_dropWhile rev_is_Nil_conv)

lemma strip_back_clean: "s = [] \<or> \<not> f (last s) \<Longrightarrow> strip_back f s = s"
  by (cases s rule: rev_cases) auto

lemma strip_back_prefix: "\<exists>t. s = strip_back f s @ t \<and> (\<forall>c \<in> set t. f c)"
proof (induction s rule: rev_induct)
  case (snoc c s)
  then obtain t where "s = strip_back f s @ t" "\<forall>c \<in> set t. f c" by blast
  then have "f c \<Longrightarrow> s @ [c] = strip_back f s @ (t @ [c]) \<and> (\<forall>x \<in> set (t @ [c]). f x)" by auto
  then show ?case unfolding strip_back_snoc by (cases "f c") (simp_all only: if_True if_False, blast, simp)
qed simp

lemma strip_back_append_clean:
  "\<forall>c \<in> set t. f c \<Longrightarrow> strip_back f (s @ t) = strip_back f s"
  by (induction t rule: rev_induct) (simp_all flip: append_assoc)

lemma strip_back_all: "strip_back f s = [] \<longleftrightarrow> (\<forall>c \<in> set s. f c)"
  by (simp add: strip_back_def)

lemma strip_front_clean: "s = [] \<or> \<not> f (hd s) \<Longrightarrow> strip_front f s = s"
  by (cases s) (auto simp: strip_front_def)

lemma starts_with_append [simp]: "starts_with p (p @ s)"
  by (simp add: starts_with_def)

lemma show_octet_digits:
  assumes "n < 256"
  shows "show_octet n \<noteq> []" and "list_all cpp_isdigit (show_octet n)"
proof -
  have d: "cpp_isdigit (char_of (48 + k))" if "k < 10" for k :: nat
    using that by (simp add: cpp_isdigit_def Let_def)
  have "n div 100 < 10" using assms by (simp add: less_mult_imp_div_less)
  then show "list_all cpp_isdigit (show_octet n)"
    by (auto simp: show_octet_def less_mult_imp_div_less d)
qed (simp add: show_octet_def)

lemma digits_value_show_octet: "n < 256 \<Longrightarrow> digits_value (show_octet n) = n"
  using parse_show_octet [of n]
  by (simp add: parse_octet_def digits_value_def foldl_map Let_def split: if_splits)

lemma digit_neither_space_nor_sign:
  "cpp_isdigit c \<Longrightarrow> \<not> cpp_isspace c \<and> c \<noteq> CHR ''-'' \<and> c \<noteq> CHR ''+'' \<and> c \<noteq> CHR ''/'' \<and> c \<noteq> CHR ''.''"
  by (auto simp: cpp_isdigit_def cpp_isspace_def Let_def)

text \<open>A decimal number is read back, whatever text follows it.\<close>

lemma stoi_show_octet:
  assumes "n < 256" and "rest = [] \<or> \<not> cpp_isdigit (hd rest)"
  shows "stoi (show_octet n @ rest) = Inr (int n)"
proof -
  note ds = show_octet_digits [OF assms(1)]
  obtain c cs where s: "show_octet n = c # cs" using ds(1) by (cases "show_octet n") auto
  then have c: "\<not> cpp_isspace c" "c \<noteq> CHR ''-''" "c \<noteq> CHR ''+''"
    using ds(2) digit_neither_space_nor_sign [of c] by auto
  have all: "\<forall>x \<in> set (show_octet n). cpp_isdigit x" using ds(2) by (simp add: list_all_iff)
  have "takeWhile cpp_isdigit rest = []" using assms(2) by (cases rest) auto
  then have "takeWhile cpp_isdigit (show_octet n @ rest) = show_octet n"
    using all by (simp add: takeWhile_append2)
  then show ?thesis
    using c assms(1) digits_value_show_octet [OF assms(1)] by (simp add: stoi_def s)
qed

end
