(* ===== verification/Smart_Route.thy ===== *)
theory Smart_Route
  imports Net_Config Cpp_Text "HOL-Library.List_Lexorder" "HOL-Library.Char_ord"
begin

text \<open>
  Split tunnelling, \<^verbatim>\<open>src/smart_route_manager.cpp\<close>: the lists of domains and of CIDR blocks, their
  parsing, one pass that installs the routes, and the worker thread that repeats it.

  Files are the parameter \<open>re_file\<close> (the text of a file that can be opened). The atomic stop
  flag is a field of the manager; at each load the world says whether another thread has
  stored \<open>true\<close> since (\<open>re_stop\<close>), so that a request to stop may become visible between any
  two routes. \<open>na_winsock\<close> also stands for the result of this file's own \<open>WSAStartup\<close>.
\<close>

section \<open>Lists\<close>

definition trim_copy :: "string \<Rightarrow> string" where
  "trim_copy s = strip_back cpp_isspace (strip_front cpp_isspace s)"

text \<open>The body of the loop of \<open>load_list_file\<close>: the entry of one line, if it has one.\<close>

definition list_entry :: "string \<Rightarrow> string option" where
  "list_entry l =
     (let line = trim_copy l in
      if line = [] \<or> hd line = CHR ''#'' then None
      else
        (let line' = (if CHR ''#'' \<in> set line then trim_copy (takeWhile (\<lambda>c. c \<noteq> CHR ''#'') line) else line)
         in if line' \<noteq> [] then Some line' else None))"

fun list_entries :: "string list \<Rightarrow> string list \<Rightarrow> string list" where
  "list_entries entries [] = entries"
| "list_entries entries (l # ls) =
     (case list_entry l of
        None \<Rightarrow> list_entries entries ls
      | Some e \<Rightarrow> list_entries (entries @ [e]) ls)"

definition load_list_file :: "(string \<Rightarrow> string option) \<Rightarrow> string \<Rightarrow> net_error + string list" where
  "load_list_file files path =
     (case files path of
        None \<Rightarrow> Inl (List_File_Missing path)
      | Some content \<Rightarrow> Inr (list_entries [] (file_lines content)))"

definition load_route_domain_list :: "(string \<Rightarrow> string option) \<Rightarrow> string \<Rightarrow> net_error + string list" where
  "load_route_domain_list files path = load_list_file files path"

definition load_route_cidr_list :: "(string \<Rightarrow> string option) \<Rightarrow> string \<Rightarrow> net_error + string list" where
  "load_route_cidr_list files path = load_list_file files path"

definition host_order_to_dotted :: "'w net_api \<Rightarrow> u32 \<Rightarrow> string" where
  "host_order_to_dotted api a = (case na_ntop api a of None \<Rightarrow> [] | Some t \<Rightarrow> t)"

text \<open>The results are the two output arguments, which no caller reads after a failure.\<close>

definition parse_cidr_prefix :: "'w net_api \<Rightarrow> string \<Rightarrow> net_error + (string \<times> u8)" where
  "parse_cidr_prefix api cidr =
     (let trimmed = trim_copy cidr;
          slash = (CHR ''/'' \<in> set trimmed);
          host_part = (if slash then trim_copy (takeWhile (\<lambda>c. c \<noteq> CHR ''/'') trimmed) else trimmed);
          len = (if slash
                 then (case stoi (tl (dropWhile (\<lambda>c. c \<noteq> CHR ''/'') trimmed)) of
                         Inl _ \<Rightarrow> None
                       | Inr parsed \<Rightarrow> if parsed < 0 \<or> 32 < parsed then None else Some (of_int parsed))
                 else Some (32 :: u8))
      in case len of
           None \<Rightarrow> Inl (Cidr_Prefix_Invalid trimmed)
         | Some prefix_length \<Rightarrow>
             (case parse_ipv4 api host_part of
                Inl e \<Rightarrow> Inl e
              | Inr network \<Rightarrow>
                  (let dotted = host_order_to_dotted api (masked_network network prefix_length) in
                   if dotted = [] then Inl (Cidr_Network_Invalid trimmed)
                   else Inr (dotted, prefix_length))))"

section \<open>The manager\<close>

record RouteOptions =
  ro_tunnel_luid :: u64
  ro_gateway_ipv4 :: string
  ro_domain_list_path :: string
  ro_cidr_list_path :: string
  ro_refresh_interval :: int

definition default_route_options :: RouteOptions where
  "default_route_options =
     \<lparr>ro_tunnel_luid = 0, ro_gateway_ipv4 = ''10.66.66.1'', ro_domain_list_path = [],
      ro_cidr_list_path = [], ro_refresh_interval = 300\<rparr>"

text \<open>\<open>sr_worker\<close>: the thread object is joinable.\<close>

record SmartRouteManager =
  sr_options :: RouteOptions
  sr_domains :: "string list"
  sr_cidrs :: "string list"
  sr_stop_requested :: bool
  sr_applied_route_count :: nat
  sr_worker :: bool

definition new_route_manager :: SmartRouteManager where
  "new_route_manager =
     \<lparr>sr_options = default_route_options, sr_domains = [], sr_cidrs = [], sr_stop_requested = False,
      sr_applied_route_count = 0, sr_worker = False\<rparr>"

record 'w route_env =
  re_file :: "string \<Rightarrow> string option"
  re_stop :: "'w \<Rightarrow> bool \<times> 'w"
  re_sleep :: "'w \<Rightarrow> 'w"

definition load_stop :: "'w route_env \<Rightarrow> SmartRouteManager \<Rightarrow> 'w \<Rightarrow> bool \<times> SmartRouteManager \<times> 'w" where
  "load_stop env m w =
     (case re_stop env w of (stored, w') \<Rightarrow>
        let m' = (if stored then m\<lparr>sr_stop_requested := True\<rparr> else m) in (sr_stop_requested m', m', w'))"

definition apply_cidr_route ::
  "'w net_api \<Rightarrow> RouteOptions \<Rightarrow> string \<Rightarrow> WindowsNetConfigurator \<Rightarrow> 'w \<Rightarrow> WindowsNetConfigurator \<times> 'w" where
  "apply_cidr_route api opts cidr nc w =
     (case parse_cidr_prefix api cidr of
        Inl _ \<Rightarrow> (nc, w)
      | Inr (network, prefix_length) \<Rightarrow>
          snd (apply_prefix_route api (ro_tunnel_luid opts) network prefix_length (ro_gateway_ipv4 opts) nc w))"

text \<open>The \<open>std::set\<close> of host names, in its order.\<close>

definition domain_hosts :: "string \<Rightarrow> string list" where
  "domain_hosts domain =
     (let other = (if starts_with ''*.'' domain then drop 2 domain else ''www.'' @ domain)
      in if other < domain then [other, domain] else [domain, other])"

fun apply_addresses ::
  "'w net_api \<Rightarrow> RouteOptions \<Rightarrow> (bool \<times> u32) list \<Rightarrow> WindowsNetConfigurator \<Rightarrow> 'w \<Rightarrow> WindowsNetConfigurator \<times> 'w" where
  "apply_addresses api opts [] nc w = (nc, w)"
| "apply_addresses api opts ((inet, addr) # entries) nc w =
     (let dotted = host_order_to_dotted api addr in
      if \<not> inet \<or> dotted = [] then apply_addresses api opts entries nc w
      else
        (case apply_prefix_route api (ro_tunnel_luid opts) dotted 32 (ro_gateway_ipv4 opts) nc w of
           (_, nc', w') \<Rightarrow> apply_addresses api opts entries nc' w'))"

fun resolve_hosts ::
  "'w net_api \<Rightarrow> RouteOptions \<Rightarrow> string list \<Rightarrow> WindowsNetConfigurator \<Rightarrow> 'w \<Rightarrow> WindowsNetConfigurator \<times> 'w" where
  "resolve_hosts api opts [] nc w = (nc, w)"
| "resolve_hosts api opts (host # hosts) nc w =
     (case na_getaddrinfo api host w of (entries, w1) \<Rightarrow>
        (case apply_addresses api opts entries nc w1 of (nc', w') \<Rightarrow> resolve_hosts api opts hosts nc' w'))"

definition resolve_domain_and_apply ::
  "'w net_api \<Rightarrow> RouteOptions \<Rightarrow> string \<Rightarrow> WindowsNetConfigurator \<Rightarrow> 'w \<Rightarrow> WindowsNetConfigurator \<times> 'w" where
  "resolve_domain_and_apply api opts domain nc w =
     (if \<not> na_winsock api then (nc, w) else resolve_hosts api opts (domain_hosts domain) nc w)"

text \<open>A loop of \<open>apply_routes_once\<close>; the first result is whether it ran to its end.\<close>

fun route_loop ::
  "'w route_env \<Rightarrow> (string \<Rightarrow> WindowsNetConfigurator \<Rightarrow> 'w \<Rightarrow> WindowsNetConfigurator \<times> 'w) \<Rightarrow> string list \<Rightarrow>
   SmartRouteManager \<Rightarrow> WindowsNetConfigurator \<Rightarrow> 'w \<Rightarrow> bool \<times> SmartRouteManager \<times> WindowsNetConfigurator \<times> 'w" where
  "route_loop env f [] m nc w = (True, m, nc, w)"
| "route_loop env f (x # xs) m nc w =
     (case load_stop env m w of (stopped, m1, w1) \<Rightarrow>
        if stopped then (False, m1, nc, w1)
        else (case f x nc w1 of (nc', w') \<Rightarrow> route_loop env f xs m1 nc' w'))"

definition apply_routes_once ::
  "'w route_env \<Rightarrow> 'w net_api \<Rightarrow> SmartRouteManager \<Rightarrow> WindowsNetConfigurator \<Rightarrow> 'w \<Rightarrow>
   SmartRouteManager \<times> WindowsNetConfigurator \<times> 'w" where
  "apply_routes_once env api m nc w =
     (case load_stop env m w of (stopped, m1, w1) \<Rightarrow>
        if stopped then (m1, nc, w1)
        else
          (case route_loop env (apply_cidr_route api (sr_options m1)) (sr_cidrs m1) m1 nc w1 of (finished, m2, nc2, w2) \<Rightarrow>
             if \<not> finished then (m2, nc2, w2)
             else
               (case route_loop env (resolve_domain_and_apply api (sr_options m2)) (sr_domains m1) m2 nc2 w2 of
                  (finished', m3, nc3, w3) \<Rightarrow>
                    if \<not> finished' then (m3, nc3, w3)
                    else (m3\<lparr>sr_applied_route_count := selective_route_count nc3\<rparr>, nc3, w3))))"

text \<open>\<open>join\<close> returns when the worker has ended; see \<open>worker_main\<close> below.\<close>

definition stop_routes :: "SmartRouteManager \<Rightarrow> SmartRouteManager" where
  "stop_routes m = m\<lparr>sr_stop_requested := True, sr_worker := False\<rparr>"

definition load_list_into ::
  "(string \<Rightarrow> net_error + string list) \<Rightarrow> string \<Rightarrow> string list \<Rightarrow> net_error + string list" where
  "load_list_into load path old = (if path = [] then Inr old else load path)"

definition start_routes ::
  "'w route_env \<Rightarrow> 'w net_api \<Rightarrow> RouteOptions \<Rightarrow> SmartRouteManager \<Rightarrow> WindowsNetConfigurator \<Rightarrow> 'w \<Rightarrow>
   net_error option \<times> SmartRouteManager \<times> WindowsNetConfigurator \<times> 'w" where
  "start_routes env api opts m0 nc w =
     (let m = stop_routes m0 in
      if ro_tunnel_luid opts = 0 then (Some Tunnel_Luid_Invalid, m, nc, w)
      else
        (let m = m\<lparr>sr_options := opts\<rparr> in
         case load_list_into (load_route_domain_list (re_file env)) (ro_domain_list_path opts) (sr_domains m) of
           Inl e \<Rightarrow> (Some e, m\<lparr>sr_domains := []\<rparr>, nc, w)
         | Inr domains \<Rightarrow>
             (let m = m\<lparr>sr_domains := domains\<rparr> in
              case load_list_into (load_route_cidr_list (re_file env)) (ro_cidr_list_path opts) (sr_cidrs m) of
                Inl e \<Rightarrow> (Some e, m\<lparr>sr_cidrs := []\<rparr>, nc, w)
              | Inr cidrs \<Rightarrow>
                  (let m = m\<lparr>sr_cidrs := cidrs\<rparr> in
                   if domains = [] \<and> cidrs = [] then (Some Route_Lists_Empty, m, nc, w)
                   else
                     (case apply_routes_once env api (m\<lparr>sr_stop_requested := False\<rparr>) nc w of
                        (m', nc', w') \<Rightarrow> (None, m'\<lparr>sr_worker := True\<rparr>, nc', w'))))))"

definition applied_route_count :: "SmartRouteManager \<Rightarrow> nat" where
  "applied_route_count m = sr_applied_route_count m"

section \<open>The worker thread\<close>

text \<open>The waiting loop of \<open>worker_main\<close>, one second at a time.\<close>

fun worker_wait :: "'w route_env \<Rightarrow> nat \<Rightarrow> SmartRouteManager \<Rightarrow> 'w \<Rightarrow> SmartRouteManager \<times> 'w" where
  "worker_wait env 0 m w = (m, w)"
| "worker_wait env (Suc n) m w =
     (case load_stop env m w of (stopped, m1, w1) \<Rightarrow>
        if stopped then (m1, w1) else worker_wait env n m1 (re_sleep env w1))"

partial_function (option) worker_main ::
  "'w route_env \<Rightarrow> 'w net_api \<Rightarrow> SmartRouteManager \<Rightarrow> WindowsNetConfigurator \<Rightarrow> 'w \<Rightarrow>
   (SmartRouteManager \<times> WindowsNetConfigurator \<times> 'w) option" where
  "worker_main env api m nc w =
     (case load_stop env m w of (stopped, m1, w1) \<Rightarrow>
        if stopped then Some (m1, nc, w1)
        else
          (case worker_wait env (nat (ro_refresh_interval (sr_options m1))) m1 w1 of (m2, w2) \<Rightarrow>
             (case load_stop env m2 w2 of (stopped', m3, w3) \<Rightarrow>
                if stopped' then Some (m3, nc, w3)
                else
                  (case apply_routes_once env api m3 nc w3 of (m4, nc4, w4) \<Rightarrow>
                     worker_main env api m4 nc4 w4))))"

section \<open>Lists: lemmas\<close>

abbreviation (input) before_hash :: "string \<Rightarrow> string" where
  "before_hash l \<equiv> takeWhile (\<lambda>c. c \<noteq> CHR ''#'') l"

lemma hash_no_space [simp]: "\<not> cpp_isspace CHR ''#''" and slash_no_space [simp]: "\<not> cpp_isspace CHR ''/''"
  by (simp_all add: cpp_isspace_def)

lemma trim_spaces_front: "\<forall>c \<in> set sp. cpp_isspace c \<Longrightarrow> trim_copy (sp @ s) = trim_copy s"
  by (simp add: trim_copy_def strip_front_def dropWhile_append2)

lemma trim_spaces_back:
  assumes "\<forall>c \<in> set sp. cpp_isspace c"
  shows "trim_copy (s @ sp) = trim_copy s"
proof (cases "\<forall>c \<in> set s. cpp_isspace c")
  case True
  then have "\<forall>c \<in> set (s @ sp). cpp_isspace c" using assms by auto
  with True have "dropWhile cpp_isspace s = []" "dropWhile cpp_isspace (s @ sp) = []"
    by (simp_all only: dropWhile_eq_Nil_conv)
  then show ?thesis by (simp only: trim_copy_def strip_front_def)
next
  case False
  then have "dropWhile cpp_isspace (s @ sp) = dropWhile cpp_isspace s @ sp" by (auto simp: dropWhile_append1)
  then show ?thesis by (simp add: trim_copy_def strip_front_def strip_back_append_clean [OF assms])
qed

lemma trim_clean: "\<forall>c \<in> set s. \<not> cpp_isspace c \<Longrightarrow> trim_copy s = s"
  unfolding trim_copy_def by (cases "s = []") (simp_all add: strip_front_clean strip_back_clean)

lemma trim_Nil [simp]: "trim_copy [] = []"
  by (rule trim_clean) simp

lemma trim_parts:
  obtains sp sp' where "l = sp @ trim_copy l @ sp'" "\<forall>c \<in> set sp. cpp_isspace c" "\<forall>c \<in> set sp'. cpp_isspace c"
proof -
  let ?s = "strip_front cpp_isspace l"
  obtain sp' where b: "?s = strip_back cpp_isspace ?s @ sp'" "\<forall>c \<in> set sp'. cpp_isspace c"
    using strip_back_prefix by blast
  have "takeWhile cpp_isspace l @ ?s = l" by (simp add: strip_front_def)
  then have "l = takeWhile cpp_isspace l @ trim_copy l @ sp'" by (simp only: trim_copy_def b(1) [symmetric])
  moreover have "\<forall>c \<in> set (takeWhile cpp_isspace l). cpp_isspace c" by (blast dest: set_takeWhileD)
  ultimately show ?thesis by (rule that [OF _ _ b(2)])
qed

text \<open>The entry of a line is what is left of its part before the first \<open>#\<close>.\<close>

lemma list_entry_eq:
  "list_entry l = (let e = trim_copy (before_hash l) in if e = [] then None else Some e)"
proof -
  let ?t = "trim_copy l" and ?h = "\<lambda>c. c \<noteq> CHR ''#''"
  obtain sp sp' where l: "l = sp @ ?t @ sp'" "\<forall>c \<in> set sp. cpp_isspace c" "\<forall>c \<in> set sp'. cpp_isspace c"
    by (rule trim_parts)
  have no: "\<forall>c \<in> set sp. ?h c" "\<forall>c \<in> set sp'. ?h c" using l(2,3) hash_no_space by blast+
  have w: "takeWhile ?h l = sp @ takeWhile ?h (?t @ sp')"
    by (subst l(1)) (simp add: takeWhile_append2 no)
  show ?thesis
  proof (cases "CHR ''#'' \<in> set ?t")
    case True
    then have "takeWhile ?h l = sp @ takeWhile ?h ?t" using w by (simp add: takeWhile_append1)
    then have e: "trim_copy (takeWhile ?h l) = trim_copy (takeWhile ?h ?t)" by (simp add: trim_spaces_front l(2))
    show ?thesis
    proof (cases "hd ?t = CHR ''#''")
      case hd: True
      then have "takeWhile ?h ?t = []" using True by (cases ?t) auto
      then show ?thesis using hd by (simp add: list_entry_def e Let_def)
    next
      case False
      then show ?thesis using True by (auto simp: list_entry_def e Let_def)
    qed
  next
    case False
    then have "\<forall>c \<in> set (?t @ sp'). ?h c" using no(2) by auto
    then have "takeWhile ?h (?t @ sp') = ?t @ sp'" by (simp add: takeWhile_eq_all_conv)
    with w have "takeWhile ?h l = l" using l(1) by simp
    moreover have "?t \<noteq> [] \<Longrightarrow> hd ?t \<noteq> CHR ''#''" using False by (metis hd_in_set)
    ultimately show ?thesis using False by (simp add: list_entry_def Let_def del: takeWhile_eq_all_conv)
  qed
qed

lemma list_entries_eq: "list_entries es ls = es @ filter (\<lambda>e. e \<noteq> []) (map (\<lambda>l. trim_copy (before_hash l)) ls)"
  by (induction es ls rule: list_entries.induct) (auto simp: list_entry_eq Let_def split: option.splits if_splits)

section \<open>CIDR blocks: lemmas\<close>

text \<open>
  What the code relies on: the text of an address is read back, is not empty and has neither
  white space nor a slash.
\<close>

definition plain_text :: "string \<Rightarrow> bool" where
  "plain_text t \<longleftrightarrow> t \<noteq> [] \<and> (\<forall>c \<in> set t. \<not> cpp_isspace c \<and> c \<noteq> CHR ''/'')"

definition address_text_ok :: "'w net_api \<Rightarrow> bool" where
  "address_text_ok api \<longleftrightarrow>
     na_winsock api \<and> (\<forall>a. \<exists>t. na_ntop api a = Some t \<and> na_pton api t = Some a \<and> plain_text t)"

lemma address_textE:
  assumes "address_text_ok api"
  obtains t where "na_ntop api a = Some t" "na_pton api t = Some a" "plain_text t"
  using assms unfolding address_text_ok_def by blast

lemma address_text_inet: "address_text_ok api \<Longrightarrow> inet_text_ok api"
  by (auto simp: address_text_ok_def inet_text_ok_def)

lemma show_octet_plain: "n < 256 \<Longrightarrow> plain_text (show_octet n)"
  using show_octet_digits [of n] digit_neither_space_nor_sign by (auto simp: plain_text_def list_all_iff)

lemma dotted_plain: "plain_text (dotted_ntop a)"
proof -
  have "unat a div 16777216 < 256" using unsigned_less [of a, where 'a = nat] by (simp add: less_mult_imp_div_less)
  then have o4: "plain_text (show_octet (unat a div 16777216))" "plain_text (show_octet (unat a div 65536 mod 256))"
    "plain_text (show_octet (unat a div 256 mod 256))" "plain_text (show_octet (unat a mod 256))"
    by (simp_all add: show_octet_plain)
  have "\<not> cpp_isspace CHR ''.''" by (simp add: cpp_isspace_def)
  with o4 show ?thesis unfolding dotted_ntop_def Let_def plain_text_def by auto
qed

lemma sample_address_text: "address_text_ok sample_api"
  by (simp add: address_text_ok_def sample_api_def dotted_round_trip dotted_plain)

text \<open>The network text of a parsed block is the text of an address with its host bits cleared.\<close>

lemma parse_cidr_network:
  assumes "address_text_ok api" and "parse_cidr_prefix api cidr = Inr (network, len)"
  shows "len \<le> 32 \<and> (\<exists>a. parse_ipv4 api network = Inr a \<and> masked_network a len = a)"
proof -
  obtain a where a: "len \<le> 32" "host_order_to_dotted api (masked_network a len) = network"
  proof -
    have le: "0 \<le> i \<Longrightarrow> i \<le> 32 \<Longrightarrow> (of_int i :: u8) \<le> 32" for i :: int
      by (simp add: word_le_def take_bit_int_eq_self unsigned_of_int)
    show ?thesis
      using assms(2) that le
      by (auto simp: parse_cidr_prefix_def Let_def split: if_splits option.splits sum.splits)
  qed
  obtain t where "na_ntop api (masked_network a len) = Some t" "na_pton api t = Some (masked_network a len)"
    by (rule address_textE [OF assms(1)])
  moreover have "na_winsock api" using assms(1) by (simp add: address_text_ok_def)
  ultimately show ?thesis using a masked_network_idem [OF a(1), of a]
    by (auto simp: parse_ipv4_Inr_iff host_order_to_dotted_def)
qed

section \<open>A pass over the lists: lemmas\<close>

text \<open>
  Reading the stop flag and sleeping do not touch what \<open>tbl\<close> observes, for instance the
  forwarding table.
\<close>

definition env_keeps :: "'w route_env \<Rightarrow> ('w \<Rightarrow> 'x) \<Rightarrow> bool" where
  "env_keeps env tbl \<longleftrightarrow> (\<forall>w. tbl (snd (re_stop env w)) = tbl w) \<and> (\<forall>w. tbl (re_sleep env w) = tbl w)"

text \<open>Routes through the tunnel are added and recorded, and no others.\<close>

definition routes_grow ::
  "'w net_api \<Rightarrow> ('w \<Rightarrow> forward_row set) \<Rightarrow> u64 \<Rightarrow> WindowsNetConfigurator \<Rightarrow> 'w \<Rightarrow> WindowsNetConfigurator \<Rightarrow> 'w \<Rightarrow> bool" where
  "routes_grow api tbl luid nc w nc' w' \<longleftrightarrow>
     (\<forall>base. routes_tracked api tbl base nc w \<longrightarrow> routes_tracked api tbl base nc' w') \<and>
     tbl w \<subseteq> tbl w' \<and> tbl w' \<subseteq> tbl w \<union> {row. fr_luid row = luid}"

lemma routes_grow_refl [simp]: "routes_grow api tbl luid nc w nc w"
  by (simp add: routes_grow_def)

lemma routes_grow_trans:
  "routes_grow api tbl luid nc w nc1 w1 \<Longrightarrow> routes_grow api tbl luid nc1 w1 nc2 w2 \<Longrightarrow>
   routes_grow api tbl luid nc w nc2 w2"
  unfolding routes_grow_def by blast

lemma routes_grow_world: "tbl w1 = tbl w \<Longrightarrow> routes_grow api tbl luid nc w nc w1"
  by (simp add: routes_grow_def routes_tracked_def)

lemma apply_prefix_grows:
  assumes ok: "forward_api_ok api tbl" and run: "apply_prefix_route api luid dst len gw nc w = (r, nc', w')"
  shows "routes_grow api tbl luid nc w nc' w'"
proof -
  have "tbl w \<subseteq> tbl w' \<and> tbl w' \<subseteq> tbl w \<union> {row. fr_luid row = luid}"
    using run
  proof (cases rule: apply_prefix_route_cases)
    case (rejected row st)
    then show ?thesis using not_created [OF ok] by auto
  next
    case (added st a g key)
    then show ?thesis using created_or_existing [OF ok added(6,7)] by (auto simp: fill_ipv4_forward_row_def)
  qed auto
  then show ?thesis using tracked_prefix [OF ok _ run] by (simp add: routes_grow_def)
qed

lemma load_stop_cases:
  assumes "load_stop env m w = (stopped, m', w')"
  shows "w' = snd (re_stop env w)" "stopped = sr_stop_requested m'" "sr_stop_requested m \<Longrightarrow> sr_stop_requested m'"
    "m' = m \<or> m' = m\<lparr>sr_stop_requested := True\<rparr>"
    "\<not> stopped \<Longrightarrow> m' = m \<and> re_stop env w = (False, w')"
  using assms by (auto simp: load_stop_def Let_def split: prod.splits if_splits)

text \<open>The manager's settings survive a pass, and a stop request is never withdrawn by it.\<close>

definition same_lists :: "SmartRouteManager \<Rightarrow> SmartRouteManager \<Rightarrow> bool" where
  "same_lists m m' \<longleftrightarrow> sr_options m' = sr_options m \<and> sr_domains m' = sr_domains m \<and> sr_cidrs m' = sr_cidrs m \<and>
     sr_worker m' = sr_worker m \<and> (sr_stop_requested m \<longrightarrow> sr_stop_requested m')"

lemma same_lists_refl [simp]: "same_lists m m"
  by (simp add: same_lists_def)

lemma same_lists_trans: "same_lists a b \<Longrightarrow> same_lists b c \<Longrightarrow> same_lists a c"
  by (simp add: same_lists_def)

lemma load_stop_lists: "load_stop env m w = (b, m', w') \<Longrightarrow> same_lists m m'"
  using load_stop_cases(4) [of env m w b m' w'] by (auto simp: same_lists_def)

lemma route_loop_lists:
  "route_loop env f xs m nc w = (fin, m', nc', w') \<Longrightarrow> same_lists m m' \<and> (\<not> sr_stop_requested m' \<longrightarrow> fin)"
proof (induction xs arbitrary: m nc w)
  case (Cons x xs)
  obtain b m1 w1 where l: "load_stop env m w = (b, m1, w1)" by (metis prod_cases3)
  show ?case
  proof (cases b)
    case True
    then show ?thesis using Cons.prems l load_stop_lists [OF l] load_stop_cases(2) [OF l] by auto
  next
    case False
    obtain nc1 w2 where f: "f x nc w1 = (nc1, w2)" by fastforce
    have "route_loop env f xs m1 nc1 w2 = (fin, m', nc', w')" using Cons.prems l f False by simp
    from Cons.IH [OF this] show ?thesis using load_stop_lists [OF l] same_lists_trans by blast
  qed
qed simp

text \<open>One pass, in three cases.\<close>

lemma apply_routes_once_cases:
  assumes "apply_routes_once env api m nc w = (m', nc', w')"
  obtains (stopped) "load_stop env m w = (True, m', w')" and "nc' = nc"
  | (cidrs) m1 w1 where "load_stop env m w = (False, m1, w1)"
      and "route_loop env (apply_cidr_route api (sr_options m1)) (sr_cidrs m1) m1 nc w1 = (False, m', nc', w')"
  | (domains) m1 w1 m2 nc2 w2 fin m3 where "load_stop env m w = (False, m1, w1)"
      and "route_loop env (apply_cidr_route api (sr_options m1)) (sr_cidrs m1) m1 nc w1 = (True, m2, nc2, w2)"
      and "route_loop env (resolve_domain_and_apply api (sr_options m2)) (sr_domains m1) m2 nc2 w2 = (fin, m3, nc', w')"
      and "m' = (if fin then m3\<lparr>sr_applied_route_count := selective_route_count nc'\<rparr> else m3)"
  using assms by (auto simp: apply_routes_once_def split: prod.splits if_splits)

lemma apply_routes_once_lists:
  assumes "apply_routes_once env api m nc w = (m', nc', w')"
  shows "same_lists m m'"
  using assms
proof (cases rule: apply_routes_once_cases)
  case stopped
  then show ?thesis by (blast dest: load_stop_lists)
next
  case (cidrs m1 w1)
  then show ?thesis by (blast dest: load_stop_lists route_loop_lists intro: same_lists_trans)
next
  case (domains m1 w1 m2 nc2 w2 fin m3)
  have "same_lists m m3"
    using load_stop_lists [OF domains(1)] route_loop_lists [OF domains(2)] route_loop_lists [OF domains(3)]
    by (blast intro: same_lists_trans)
  then show ?thesis using domains(4) by (simp add: same_lists_def)
qed

text \<open>
  What a pass does is composed of adding a prefix route, resolving a name and reading the
  stop flag. A reflexive and transitive relation that these three respect is respected by
  every loop of the pass.
\<close>

locale route_pass =
  fixes env :: "'w route_env" and api :: "'w net_api"
    and R :: "RouteOptions \<Rightarrow> WindowsNetConfigurator \<Rightarrow> 'w \<Rightarrow> WindowsNetConfigurator \<Rightarrow> 'w \<Rightarrow> bool"
  assumes R_refl: "R opts nc w nc w"
    and R_trans: "R opts nc w nc1 w1 \<Longrightarrow> R opts nc1 w1 nc2 w2 \<Longrightarrow> R opts nc w nc2 w2"
    and R_prefix: "apply_prefix_route api (ro_tunnel_luid opts) dst len (ro_gateway_ipv4 opts) nc w = (r, nc', w') \<Longrightarrow>
      R opts nc w nc' w'"
    and R_resolve: "na_getaddrinfo api host w = (as, w') \<Longrightarrow> R opts nc w nc w'"
    and R_load: "re_stop env w = (b, w') \<Longrightarrow> R opts nc w nc w'"
begin

lemma cidr_pass:
  assumes "apply_cidr_route api opts c nc w = (nc', w')"
  shows "R opts nc w nc' w'"
proof (cases "parse_cidr_prefix api c")
  case (Inl e)
  then show ?thesis using assms R_refl by (simp add: apply_cidr_route_def)
next
  case (Inr nl)
  obtain network len where nl: "nl = (network, len)" by fastforce
  obtain r nc1 w1 where p: "apply_prefix_route api (ro_tunnel_luid opts) network len (ro_gateway_ipv4 opts) nc w = (r, nc1, w1)"
    by (metis prod_cases3)
  show ?thesis using assms Inr nl p R_prefix [OF p] by (simp add: apply_cidr_route_def)
qed

lemma addresses_pass: "apply_addresses api opts as nc w = (nc', w') \<Longrightarrow> R opts nc w nc' w'"
proof (induction as arbitrary: nc w)
  case Nil
  then show ?case by (simp add: R_refl)
next
  case (Cons a as)
  obtain inet addr where a: "a = (inet, addr)" by fastforce
  obtain r nc1 w1 where p: "apply_prefix_route api (ro_tunnel_luid opts) (host_order_to_dotted api addr) 32
      (ro_gateway_ipv4 opts) nc w = (r, nc1, w1)" by (metis prod_cases3)
  show ?case
    using Cons a p R_trans [OF R_prefix [OF p]] by (auto simp: Let_def split: if_splits)
qed

lemma hosts_pass: "resolve_hosts api opts hosts nc w = (nc', w') \<Longrightarrow> R opts nc w nc' w'"
proof (induction hosts arbitrary: nc w)
  case Nil
  then show ?case by (simp add: R_refl)
next
  case (Cons h hs)
  obtain as w1 where g: "na_getaddrinfo api h w = (as, w1)" by fastforce
  obtain nc1 w2 where a: "apply_addresses api opts as nc w1 = (nc1, w2)" by fastforce
  show ?case
    using Cons g a R_trans [OF R_resolve [OF g] R_trans [OF addresses_pass [OF a]]] by simp
qed

lemma domain_pass: "resolve_domain_and_apply api opts d nc w = (nc', w') \<Longrightarrow> R opts nc w nc' w'"
  by (auto simp: resolve_domain_and_apply_def R_refl hosts_pass split: if_splits)

lemma load_pass: "load_stop env m w = (b, m', w') \<Longrightarrow> R opts nc w nc w'"
  using load_stop_cases(1) [of env m w b m' w'] R_load [of w "fst (re_stop env w)" w' opts nc] by simp

lemma loop_pass:
  assumes "\<And>x nc w nc' w'. f x nc w = (nc', w') \<Longrightarrow> R opts nc w nc' w'"
  shows "route_loop env f xs m nc w = (fin, m', nc', w') \<Longrightarrow> R opts nc w nc' w'"
proof (induction xs arbitrary: m nc w)
  case Nil
  then show ?case by (simp add: R_refl)
next
  case (Cons x xs)
  obtain b m1 w1 where l: "load_stop env m w = (b, m1, w1)" by (metis prod_cases3)
  obtain nc1 w2 where f: "f x nc w1 = (nc1, w2)" by fastforce
  show ?case
    using Cons l f load_pass [OF l] R_trans [OF load_pass [OF l] R_trans [OF assms [OF f]]]
    by (auto split: if_splits)
qed

lemma cidr_loop:
  "route_loop env (apply_cidr_route api opts) xs m nc w = (fin, m', nc', w') \<Longrightarrow> R opts nc w nc' w'"
  by (rule loop_pass [where f = "apply_cidr_route api opts"]) (rule cidr_pass)

lemma domain_loop:
  "route_loop env (resolve_domain_and_apply api opts) xs m nc w = (fin, m', nc', w') \<Longrightarrow> R opts nc w nc' w'"
  by (rule loop_pass [where f = "resolve_domain_and_apply api opts"]) (rule domain_pass)

lemma once_pass:
  assumes run: "apply_routes_once env api m nc w = (m', nc', w')"
  shows "R (sr_options m) nc w nc' w'"
  using run
proof (cases rule: apply_routes_once_cases)
  case stopped
  then show ?thesis using load_pass by blast
next
  case (cidrs m1 w1)
  have same: "sr_options m1 = sr_options m" using load_stop_lists [OF cidrs(1)] by (simp add: same_lists_def)
  have "R (sr_options m) nc w1 nc' w'"
    using cidr_loop [OF cidrs(2)] same by simp
  then show ?thesis by (rule R_trans [OF load_pass [OF cidrs(1)]])
next
  case (domains m1 w1 m2 nc2 w2 fin m3)
  have same: "sr_options m1 = sr_options m" "sr_options m2 = sr_options m"
    using load_stop_lists [OF domains(1)] route_loop_lists [OF domains(2)] by (simp_all add: same_lists_def)
  have "R (sr_options m) nc w1 nc2 w2"
    using cidr_loop [OF domains(2)] same by simp
  moreover have "R (sr_options m) nc2 w2 nc' w'"
    using domain_loop [OF domains(3)] same by simp
  ultimately show ?thesis using R_trans [OF load_pass [OF domains(1)] R_trans] by blast
qed

end

interpretation growth: route_pass env api
  "\<lambda>opts nc w nc' w'. forward_api_ok api tbl \<longrightarrow> env_keeps env tbl \<longrightarrow>
     routes_grow api tbl (ro_tunnel_luid opts) nc w nc' w'"
proof unfold_locales
  fix opts nc w nc1 w1 nc2 w2
  show "forward_api_ok api tbl \<longrightarrow> env_keeps env tbl \<longrightarrow> routes_grow api tbl (ro_tunnel_luid opts) nc w nc1 w1 \<Longrightarrow>
    forward_api_ok api tbl \<longrightarrow> env_keeps env tbl \<longrightarrow> routes_grow api tbl (ro_tunnel_luid opts) nc1 w1 nc2 w2 \<Longrightarrow>
    forward_api_ok api tbl \<longrightarrow> env_keeps env tbl \<longrightarrow> routes_grow api tbl (ro_tunnel_luid opts) nc w nc2 w2"
    by (blast intro: routes_grow_trans)
next
  fix host as opts nc and w w' :: 'a
  assume "na_getaddrinfo api host w = (as, w')"
  then show "forward_api_ok api tbl \<longrightarrow> env_keeps env tbl \<longrightarrow> routes_grow api tbl (ro_tunnel_luid opts) nc w nc w'"
    by (blast intro: routes_grow_world dest: forward_api_okD(4))
next
  fix b opts nc and w w' :: 'a
  assume "re_stop env w = (b, w')"
  then show "forward_api_ok api tbl \<longrightarrow> env_keeps env tbl \<longrightarrow> routes_grow api tbl (ro_tunnel_luid opts) nc w nc w'"
    by (metis env_keeps_def routes_grow_world snd_conv)
qed (simp_all add: apply_prefix_grows)

text \<open>How \<open>start\<close> can end: with an error and the routes untouched, or after one pass.\<close>

lemma start_routes_cases:
  assumes "start_routes env api opts m nc w = (r, m', nc', w')"
  obtains (refused) e where "r = Some e" and "nc' = nc" and "w' = w" and "\<not> sr_worker m'"
  | (passed) ds cs m2 where "r = None" and "ro_tunnel_luid opts \<noteq> 0"
      and "apply_routes_once env api (m\<lparr>sr_worker := False, sr_options := opts, sr_domains := ds, sr_cidrs := cs,
             sr_stop_requested := False\<rparr>) nc w = (m2, nc', w')" and "m' = m2\<lparr>sr_worker := True\<rparr>"
  using assms
  by (auto simp: start_routes_def stop_routes_def Let_def split: if_splits sum.splits prod.splits)

lemma start_routes_grows:
  assumes "forward_api_ok api tbl" "env_keeps env tbl" "start_routes env api opts m nc w = (r, m', nc', w')"
  shows "routes_grow api tbl (ro_tunnel_luid opts) nc w nc' w'"
  using assms(3) by (cases rule: start_routes_cases) (use growth.once_pass assms(1,2) in \<open>fastforce+\<close>)

text \<open>A CIDR block that can be parsed has its route after its turn.\<close>

definition creation_works :: "'w net_api \<Rightarrow> bool" where
  "creation_works api \<longleftrightarrow>
     (\<forall>row w. fst (na_create_forward api row w) = NO_ERROR \<or>
              fst (na_create_forward api row w) = ERROR_OBJECT_ALREADY_EXISTS)"

definition cidr_row :: "'w net_api \<Rightarrow> RouteOptions \<Rightarrow> string \<Rightarrow> forward_row \<Rightarrow> bool" where
  "cidr_row api opts cidr row \<longleftrightarrow>
     (\<exists>network len a g. parse_cidr_prefix api cidr = Inr (network, len) \<and> parse_ipv4 api network = Inr a \<and>
        parse_ipv4 api (ro_gateway_ipv4 opts) = Inr g \<and> row = fill_ipv4_forward_row (ro_tunnel_luid opts) a len g)"

lemma recorded_key_in_table:
  assumes "routes_tracked api tbl base nc w" and "k \<in> set (nc_selective nc)" and "parse_ipv4 api (rk_gateway k) = Inr g"
  shows "fill_ipv4_forward_row (rk_luid k) (rk_dest k) (rk_prefix k) g \<in> tbl w"
  using assms unfolding routes_tracked_def recorded_rows_def selective_rows_def by blast

lemma apply_cidr_covers:
  assumes ok: "forward_api_ok api tbl" "address_text_ok api" "creation_works api"
    and "ro_tunnel_luid opts \<noteq> 0" "routes_tracked api tbl base nc w" "cidr_row api opts cidr row"
    and run: "apply_cidr_route api opts cidr nc w = (nc', w')"
  shows "row \<in> tbl w'"
proof -
  obtain network len a g where c: "parse_cidr_prefix api cidr = Inr (network, len)" "parse_ipv4 api network = Inr a"
    "parse_ipv4 api (ro_gateway_ipv4 opts) = Inr g" "row = fill_ipv4_forward_row (ro_tunnel_luid opts) a len g"
    using assms(6) unfolding cidr_row_def by blast
  have len: "\<not> 32 < len" "masked_network a len = a" using parse_cidr_network [OF ok(2) c(1)] c(2) by auto
  let ?key = "\<lparr>rk_luid = ro_tunnel_luid opts, rk_dest = a, rk_prefix = len, rk_gateway = ro_gateway_ipv4 opts\<rparr>"
  obtain st w1 where cr: "na_create_forward api row w = (st, w1)" by fastforce
  then have st: "st = NO_ERROR \<or> st = ERROR_OBJECT_ALREADY_EXISTS" using ok(3) by (metis creation_works_def fst_conv)
  show ?thesis
  proof (cases "?key \<in> set (nc_selective nc)")
    case True
    with run c(1-3) len assms(4) have "w' = w"
      by (simp add: apply_cidr_route_def apply_prefix_route_def Let_def)
    then show ?thesis using recorded_key_in_table [OF assms(5) True] c(3,4) by simp
  next
    case False
    with run c(1-3) len assms(4) st cr [unfolded c(4)] have "w' = w1"
      by (auto simp: apply_cidr_route_def apply_prefix_route_def Let_def)
    then show ?thesis using created_or_existing [OF ok(1) cr st] by simp
  qed
qed

lemma cidr_loop_covers:
  assumes ok: "forward_api_ok api tbl" "address_text_ok api" "creation_works api" "env_keeps env tbl"
    and "ro_tunnel_luid opts \<noteq> 0" and "cidr_row api opts cidr row"
  shows "route_loop env (apply_cidr_route api opts) xs m nc w = (True, m', nc', w') \<Longrightarrow>
    routes_tracked api tbl base nc w \<Longrightarrow> cidr \<in> set xs \<Longrightarrow> row \<in> tbl w'"
proof (induction xs arbitrary: m nc w)
  case (Cons x xs)
  obtain b m1 w1 where l: "load_stop env m w = (b, m1, w1)" by (metis prod_cases3)
  obtain nc1 w2 where f: "apply_cidr_route api opts x nc w1 = (nc1, w2)" by fastforce
  have rest: "route_loop env (apply_cidr_route api opts) xs m1 nc1 w2 = (True, m', nc', w')"
    using Cons.prems(1) l f by (simp split: if_splits)
  have t1: "routes_tracked api tbl base nc w1"
    using growth.load_pass [OF l] ok(1,4) Cons.prems(2) unfolding routes_grow_def by blast
  then have t2: "routes_tracked api tbl base nc1 w2"
    using growth.cidr_pass [OF f] ok(1,4) unfolding routes_grow_def by blast
  show ?case
  proof (cases "x = cidr")
    case True
    then have "row \<in> tbl w2" using apply_cidr_covers [OF ok(1-3) assms(5) t1 assms(6)] f by blast
    then show ?thesis
      using growth.cidr_loop [OF rest] ok(1,4) unfolding routes_grow_def by blast
  next
    case False
    then show ?thesis using Cons.IH [OF rest t2] Cons.prems(3) by simp
  qed
qed simp

section \<open>The end of the worker: lemmas\<close>

text \<open>
  A request to stop arrives: \<open>rank\<close> bounds the number of loads that still miss it; nothing
  else the worker does moves it away.
\<close>

definition stop_arrives :: "'w route_env \<Rightarrow> 'w net_api \<Rightarrow> ('w \<Rightarrow> nat) \<Rightarrow> bool" where
  "stop_arrives env api rank \<longleftrightarrow>
     (\<forall>w w'. re_stop env w = (False, w') \<longrightarrow> rank w' < rank w) \<and>
     (\<forall>w w'. re_stop env w = (True, w') \<longrightarrow> rank w' \<le> rank w) \<and>
     (\<forall>w. rank (re_sleep env w) \<le> rank w) \<and>
     (\<forall>host w. rank (snd (na_getaddrinfo api host w)) \<le> rank w) \<and>
     (\<forall>row w. rank (snd (na_create_forward api row w)) \<le> rank w)"

lemma stop_arrivesD:
  assumes "stop_arrives env api rank"
  shows "re_stop env w = (False, w') \<Longrightarrow> rank w' < rank w" and "re_stop env w = (b, w') \<Longrightarrow> rank w' \<le> rank w"
    and "rank (re_sleep env w) \<le> rank w" and "na_getaddrinfo api host w = (as, w') \<Longrightarrow> rank w' \<le> rank w"
    and "na_create_forward api row w = (st, w') \<Longrightarrow> rank w' \<le> rank w"
proof -
  show "re_stop env w = (False, w') \<Longrightarrow> rank w' < rank w" using assms unfolding stop_arrives_def by blast
  show "re_stop env w = (b, w') \<Longrightarrow> rank w' \<le> rank w"
    using assms unfolding stop_arrives_def by (cases b) (simp_all add: less_imp_le)
  show "rank (re_sleep env w) \<le> rank w" using assms unfolding stop_arrives_def by blast
  show "na_getaddrinfo api host w = (as, w') \<Longrightarrow> rank w' \<le> rank w"
    using assms unfolding stop_arrives_def by (metis snd_conv)
  show "na_create_forward api row w = (st, w') \<Longrightarrow> rank w' \<le> rank w"
    using assms unfolding stop_arrives_def by (metis snd_conv)
qed

interpretation rank: route_pass env api "\<lambda>opts nc w nc' w'. stop_arrives env api rank \<longrightarrow> rank w' \<le> rank w"
proof unfold_locales
  fix opts dst len nc r nc' and w w' :: 'a
  assume "apply_prefix_route api (ro_tunnel_luid opts) dst len (ro_gateway_ipv4 opts) nc w = (r, nc', w')"
  then show "stop_arrives env api rank \<longrightarrow> rank w' \<le> rank w"
    by (cases rule: apply_prefix_route_cases) (blast dest: stop_arrivesD(5))+
qed (blast intro: order_trans dest: stop_arrivesD(2,4))+

lemma worker_wait_rank:
  assumes "stop_arrives env api rank"
  shows "worker_wait env n m w = (m', w') \<Longrightarrow> rank w' \<le> rank w"
proof (induction n arbitrary: m w)
  case (Suc n)
  obtain b m1 w1 where l: "load_stop env m w = (b, m1, w1)" by (metis prod_cases3)
  have le: "rank w1 \<le> rank w" using rank.load_pass [OF l] assms by blast
  show ?case
  proof (cases b)
    case True
    then show ?thesis using Suc.prems l le by simp
  next
    case False
    then have "worker_wait env n m1 (re_sleep env w1) = (m', w')" using Suc.prems l by simp
    from Suc.IH [OF this] show ?thesis using le stop_arrivesD(3) [OF assms, of w1] by linarith
  qed
qed simp

lemma worker_wait_same:
  "worker_wait env n m w = (m', w') \<Longrightarrow> same_lists m m' \<and> (env_keeps env tbl \<longrightarrow> tbl w' = tbl w)"
proof (induction n arbitrary: m w)
  case (Suc n)
  obtain b m1 w1 where l: "load_stop env m w = (b, m1, w1)" by (metis prod_cases3)
  have w1: "env_keeps env tbl \<longrightarrow> tbl w1 = tbl w" using load_stop_cases(1) [OF l] by (simp add: env_keeps_def)
  show ?case
  proof (cases b)
    case True
    then show ?thesis using Suc.prems l w1 load_stop_lists [OF l] by simp
  next
    case False
    then have "worker_wait env n m1 (re_sleep env w1) = (m', w')" using Suc.prems l by simp
    from Suc.IH [OF this] show ?thesis
      using w1 load_stop_lists [OF l] by (auto simp: env_keeps_def intro: same_lists_trans)
  qed
qed simp

lemma worker_returns:
  assumes stop: "stop_arrives env api rank" and ok: "forward_api_ok api tbl" "env_keeps env tbl"
  shows "\<exists>m' nc' w'. worker_main env api m nc w = Some (m', nc', w') \<and> sr_stop_requested m' \<and>
    routes_grow api tbl (ro_tunnel_luid (sr_options m)) nc w nc' w'"
proof (induction "rank w" arbitrary: m nc w rule: less_induct)
  case less
  let ?grow = "routes_grow api tbl (ro_tunnel_luid (sr_options m))"
  obtain b m1 w1 where l: "load_stop env m w = (b, m1, w1)" by (metis prod_cases3)
  obtain m2 w2 where a: "worker_wait env (nat (ro_refresh_interval (sr_options m1))) m1 w1 = (m2, w2)" by fastforce
  obtain b' m3 w3 where l': "load_stop env m2 w2 = (b', m3, w3)" by (metis prod_cases3)
  obtain m4 nc4 w4 where p: "apply_routes_once env api m3 nc w3 = (m4, nc4, w4)" by (metis prod_cases3)
  note unfold = worker_main.simps [of env api m nc w]
  have same: "sr_options m3 = sr_options m" "sr_options m4 = sr_options m"
    using load_stop_lists [OF l] worker_wait_same [OF a, of tbl] load_stop_lists [OF l'] apply_routes_once_lists [OF p]
    by (simp_all add: same_lists_def)
  have g1: "?grow nc w nc w1" using growth.load_pass [OF l] ok by blast
  have "?grow nc w1 nc w2" using worker_wait_same [OF a, of tbl] ok(2) by (simp add: routes_grow_world)
  moreover have "?grow nc w2 nc w3" using growth.load_pass [OF l'] ok by blast
  ultimately have g3: "?grow nc w nc w3" using g1 by (blast intro: routes_grow_trans)
  show ?case
  proof (cases "b \<or> b'")
    case True
    then show ?thesis using unfold l a l' load_stop_cases(2) [OF l] load_stop_cases(2) [OF l'] g1 g3 by auto
  next
    case False
    have "rank w1 < rank w" using stop_arrivesD(1) [OF stop] load_stop_cases(5) [OF l] False by blast
    moreover have "rank w2 \<le> rank w1" by (rule worker_wait_rank [OF stop a])
    moreover have "rank w3 \<le> rank w2" using rank.load_pass [OF l'] stop by blast
    moreover have "rank w4 \<le> rank w3" using rank.once_pass [OF p] stop by blast
    ultimately have "rank w4 < rank w" by linarith
    from less [OF this, of m4 nc4] obtain m' nc' w' where
      r: "worker_main env api m4 nc4 w4 = Some (m', nc', w')" "sr_stop_requested m'" "?grow nc4 w4 nc' w'"
      unfolding same by blast
    moreover have "?grow nc w3 nc4 w4" using growth.once_pass [OF p] ok same by simp
    ultimately have "?grow nc w nc' w'" using g3 by (blast intro: routes_grow_trans)
    then show ?thesis using unfold l a l' p False r by simp
  qed
qed

lemma pass_not_stopped:
  assumes "apply_routes_once env api m nc w = (m', nc', w')" and "\<not> sr_stop_requested m'"
  obtains m1 w1 m2 nc2 w2 fin m3 where "load_stop env m w = (False, m1, w1)"
    and "route_loop env (apply_cidr_route api (sr_options m1)) (sr_cidrs m1) m1 nc w1 = (True, m2, nc2, w2)"
    and "route_loop env (resolve_domain_and_apply api (sr_options m2)) (sr_domains m1) m2 nc2 w2 = (fin, m3, nc', w')"
  using assms(1)
proof (cases rule: apply_routes_once_cases)
  case stopped
  then show ?thesis using assms(2) load_stop_cases(2) [OF stopped(1)] by simp
next
  case (cidrs m1 w1)
  then show ?thesis using assms(2) route_loop_lists [OF cidrs(2)] by simp
next
  case (domains m1 w1 m2 nc2 w2 fin m3)
  show ?thesis by (rule that [OF domains(1-3)])
qed

section \<open>A concrete system\<close>

text \<open>The forwarding table of \<open>sample_api\<close>, with the number of loads until a stop is seen.\<close>

type_synonym route_world = "nat \<times> forward_row list"

definition on_table :: "('r \<times> forward_row list) \<Rightarrow> nat \<Rightarrow> 'r \<times> route_world" where
  "on_table r n = (fst r, (n, snd r))"

definition sample_route_api :: "route_world net_api" where
  "sample_route_api =
     \<lparr>na_winsock = True, na_pton = dotted_pton, na_ntop = (\<lambda>a. Some (dotted_ntop a)),
      na_getaddrinfo = (\<lambda>host (n, w). on_table (na_getaddrinfo sample_api host w) n),
      na_get_forward_table = (\<lambda>(n, w). on_table (na_get_forward_table sample_api w) n),
      na_create_forward = (\<lambda>row (n, w). on_table (na_create_forward sample_api row w) n),
      na_delete_forward = (\<lambda>row (n, w). on_table (na_delete_forward sample_api row w) n),
      na_create_unicast = (\<lambda>luid ip len w. (0, w)), na_delete_unicast = (\<lambda>luid ip len w. (0, w)),
      na_luid_to_guid = (\<lambda>luid. Inr (unat luid)), na_iphlpapi_loaded = (\<lambda>w. True), na_load_iphlpapi = (\<lambda>w. (True, w)),
      na_has_set_dns = True, na_set_dns = (\<lambda>guid dns w. (0, w))\<rparr>"

definition sample_route_env :: "route_world route_env" where
  "sample_route_env =
     \<lparr>re_file = (\<lambda>path. if path = ''cidrs'' then Some ''142.251.0.0/15 # web'' else None),
      re_stop = (\<lambda>(n, w). (n = 0, (n - 1, w))), re_sleep = (\<lambda>w. w)\<rparr>"

lemma sample_route_api_ok:
  "forward_api_ok sample_route_api (set \<circ> snd)" "address_text_ok sample_route_api" "creation_works sample_route_api"
  "env_keeps sample_route_env (set \<circ> snd)" "stop_arrives sample_route_env sample_route_api fst"
  by (auto simp: forward_api_ok_def address_text_ok_def creation_works_def env_keeps_def stop_arrives_def
      sample_route_api_def sample_route_env_def sample_api_def on_table_def dotted_round_trip dotted_plain)

section \<open>Properties\<close>

text \<open>
  C23. Loading a list does what its format says: of every line, the part before the first
  \<open>#\<close>, without the white space around it, is an entry unless it is empty, and the entries
  keep the order of the lines. A file that cannot be opened is an error.
\<close>

theorem load_list_is_reference:
  "load_list_file files path =
     (case files path of
        None \<Rightarrow> Inl (List_File_Missing path)
      | Some content \<Rightarrow>
          Inr (filter (\<lambda>e. e \<noteq> []) (map (\<lambda>l. trim_copy (takeWhile (\<lambda>c. c \<noteq> CHR ''#'') l)) (file_lines content))))"
  by (simp add: load_list_file_def list_entries_eq split: option.splits)

text \<open>
  C24. CIDR blocks round trip: the text of an address, a slash and a length of at most 32,
  with white space around and between, is read as that length and the text of the address
  with its host bits cleared; without a slash the length is 32.
\<close>

theorem cidr_round_trip:
  assumes "address_text_ok api" and "na_ntop api a = Some t" and "n \<le> 32"
    and "\<forall>c \<in> set (sp @ sp1 @ sp2). cpp_isspace c"
  shows "parse_cidr_prefix api (sp @ t @ sp1 @ CHR ''/'' # show_octet n @ sp2) =
           Inr (the (na_ntop api (masked_network a (of_nat n))), of_nat n) \<and>
         parse_cidr_prefix api (sp @ t @ sp2) = Inr (t, 32)"
proof -
  obtain t' where t': "na_ntop api a = Some t'" "na_pton api t' = Some a" "plain_text t'"
    by (rule address_textE [OF assms(1)])
  then have t: "na_pton api t = Some a" "t \<noteq> []" "\<forall>c \<in> set t. \<not> cpp_isspace c \<and> c \<noteq> CHR ''/''"
    using assms(2) by (simp_all add: plain_text_def)
  obtain u where u: "na_ntop api (masked_network a (of_nat n)) = Some u" "plain_text u"
    by (rule address_textE [OF assms(1)])
  have sp: "\<forall>c \<in> set sp. cpp_isspace c" "\<forall>c \<in> set sp1. cpp_isspace c" "\<forall>c \<in> set sp2. cpp_isspace c"
    using assms(4) by auto
  have ws: "na_winsock api" using assms(1) by (simp add: address_text_ok_def)
  have tt: "trim_copy t = t" using t(3) by (simp add: trim_clean)
  have trim2: "trim_copy (sp @ t @ sp2) = t"
    using trim_spaces_front [OF sp(1)] trim_spaces_back [OF sp(3)] tt by simp
  have no: "CHR ''/'' \<notin> set t" using t(3) by blast
  have plain: "parse_cidr_prefix api (sp @ t @ sp2) = Inr (t, 32)"
    using t(1,2) ws assms(2) no
    by (simp add: parse_cidr_prefix_def trim2 Let_def parse_ipv4_def host_order_to_dotted_def masked_network_def)
  let ?d = "show_octet n"
  have n: "n < 256" using assms(3) by simp
  have d: "plain_text ?d" by (rule show_octet_plain [OF n])
  have "trim_copy (t @ sp1 @ CHR ''/'' # ?d) = t @ sp1 @ CHR ''/'' # ?d"
    unfolding trim_copy_def using t(2,3) d by (simp add: strip_front_clean strip_back_clean plain_text_def)
  then have trim1: "trim_copy (sp @ t @ sp1 @ CHR ''/'' # ?d @ sp2) = t @ sp1 @ CHR ''/'' # ?d"
    using trim_spaces_front [OF sp(1), of "t @ sp1 @ CHR ''/'' # ?d @ sp2"]
      trim_spaces_back [OF sp(3), of "t @ sp1 @ CHR ''/'' # ?d"] by simp
  have no1: "\<forall>c \<in> set (t @ sp1). c \<noteq> CHR ''/''"
    unfolding set_append ball_Un using t(3) sp(2) slash_no_space by blast
  then have cut: "takeWhile (\<lambda>c. c \<noteq> CHR ''/'') (t @ sp1 @ CHR ''/'' # ?d) = t @ sp1"
    "dropWhile (\<lambda>c. c \<noteq> CHR ''/'') (t @ sp1 @ CHR ''/'' # ?d) = CHR ''/'' # ?d"
    by (simp_all add: takeWhile_append2 dropWhile_append2)
  have st: "stoi ?d = Inr (int n)" using stoi_show_octet [OF n, of "[]"] by simp
  have host: "trim_copy (t @ sp1) = t" using trim_spaces_back [OF sp(2)] tt by simp
  have "parse_cidr_prefix api (sp @ t @ sp1 @ CHR ''/'' # ?d @ sp2) =
      Inr (the (na_ntop api (masked_network a (of_nat n))), of_nat n)"
  proof -
    have "u \<noteq> []" using u(2) by (simp add: plain_text_def)
    moreover have "\<not> (int n < 0 \<or> 32 < int n)" using assms(3) by simp
    moreover have "CHR ''/'' \<in> set (t @ sp1 @ CHR ''/'' # ?d)" by simp
    moreover have "parse_ipv4 api t = Inr a" using t(1) ws by (simp add: parse_ipv4_def)
    ultimately show ?thesis
      unfolding parse_cidr_prefix_def Let_def trim1 cut host
      by (simp only: if_True if_False list.sel st sum.case option.case host_order_to_dotted_def u(1) option.sel of_int_of_nat_eq)
  qed
  with plain show ?thesis by blast
qed

theorem cidr_round_trip_witness:
  "parse_cidr_prefix sample_api (''  '' @ dotted_ntop 0x8EFB0304 @ '' '' @ CHR ''/'' # show_octet 15 @ [CHR 0x0D]) =
     Inr (dotted_ntop (masked_network 0x8EFB0304 15), 15)"
proof -
  have "na_ntop sample_api 0x8EFB0304 = Some (dotted_ntop 0x8EFB0304)" by (simp add: sample_api_def)
  from cidr_round_trip [OF sample_address_text this, of 15 "''  ''" "'' ''" "[CHR 0x0D]"]
  show ?thesis by (simp add: cpp_isspace_def sample_api_def)
qed


definition sample_options :: RouteOptions where
  "sample_options = default_route_options\<lparr>ro_tunnel_luid := 7, ro_cidr_list_path := ''cidrs''\<rparr>"

lemma digit_chars:
  "char_of (48 :: nat) = CHR ''0''" "char_of (49 :: nat) = CHR ''1''" "char_of (50 :: nat) = CHR ''2''"
  "char_of (52 :: nat) = CHR ''4''" "char_of (53 :: nat) = CHR ''5''"
  by code_simp+

lemma sample_entries: "list_entries [] (file_lines ''142.251.0.0/15 # web'') = [''142.251.0.0/15'']"
  by (simp add: list_entries_eq trim_copy_def strip_front_def strip_back_def cpp_isspace_def)

lemma sample_addresses:
  "parse_cidr_prefix sample_route_api ''142.251.0.0/15'' = Inr (''142.250.0.0'', 15)"
  "parse_ipv4 sample_route_api ''142.250.0.0'' = Inr 0x8EFA0000" "parse_ipv4 sample_route_api ''10.66.66.1'' = Inr 0x0A424201"
proof -
  have m: "masked_network 0x8EFB0000 15 = 0x8EFA0000" by code_simp
  have s: "stoi ''15'' = Inr 15" by (simp add: stoi_def cpp_isspace_def cpp_isdigit_def digits_value_def)
  have p: "dotted_pton ''142.251.0.0'' = Some 0x8EFB0000" by (simp add: dotted_pton_def parse_octet_def)
  have t: "dotted_ntop 0x8EFA0000 = ''142.250.0.0''" by (simp add: dotted_ntop_def show_octet_def digit_chars)
  have tr: "trim_copy ''142.251.0.0/15'' = ''142.251.0.0/15''" "trim_copy ''142.251.0.0'' = ''142.251.0.0''"
    by (simp_all add: trim_copy_def strip_front_def strip_back_def cpp_isspace_def)
  show "parse_cidr_prefix sample_route_api ''142.251.0.0/15'' = Inr (''142.250.0.0'', 15)"
    by (simp add: parse_cidr_prefix_def tr s p m t parse_ipv4_def host_order_to_dotted_def sample_route_api_def)
  show "parse_ipv4 sample_route_api ''142.250.0.0'' = Inr 0x8EFA0000" "parse_ipv4 sample_route_api ''10.66.66.1'' = Inr 0x0A424201"
    by (simp_all add: parse_ipv4_def sample_route_api_def dotted_pton_def parse_octet_def)
qed

lemma sample_start:
  "\<exists>m' nc' w'. start_routes sample_route_env sample_route_api sample_options new_route_manager new_net_config (5, [uplink])
     = (None, m', nc', w') \<and> \<not> sr_stop_requested m' \<and> sr_cidrs m' = [''142.251.0.0/15'']"
proof -
  obtain nc' n w' where a: "apply_cidr_route sample_route_api sample_options ''142.251.0.0/15'' new_net_config (3, [uplink]) = (nc', n, w')"
    by (metis prod_cases3)
  have "n = 3"
    using a by (auto simp: apply_cidr_route_def sample_addresses apply_prefix_route_def Let_def sample_route_api_def on_table_def
        split: if_splits prod.splits sum.splits)
  with a show ?thesis
    by (simp add: start_routes_def stop_routes_def new_route_manager_def load_list_into_def load_route_cidr_list_def
        load_list_file_def Let_def sample_options_def default_route_options_def)
      (simp add: sample_route_env_def sample_entries apply_routes_once_def load_stop_def
        del: list_entries.simps file_lines.simps)
qed

lemma sample_block: "cidr_row sample_route_api sample_options ''142.251.0.0/15'' (fill_ipv4_forward_row 7 0x8EFA0000 15 0x0A424201)"
proof -
  have "ro_gateway_ipv4 sample_options = ''10.66.66.1''" "ro_tunnel_luid sample_options = 7"
    by (simp_all add: sample_options_def default_route_options_def)
  with sample_addresses show ?thesis unfolding cidr_row_def by metis
qed


text \<open>
  C19. The refresh thread ends: whatever the refresh interval and the lists, once a request to
  stop arrives, \<open>worker_main\<close> returns, with the request seen; until then it only adds
  routes through the tunnel, all of them recorded for removal.
\<close>

theorem smart_worker_ends:
  assumes "stop_arrives env api rank" and "forward_api_ok api tbl" and "env_keeps env tbl"
    and "routes_tracked api tbl base nc w"
  shows "\<exists>m' nc' w'. worker_main env api m nc w = Some (m', nc', w') \<and> sr_stop_requested m' \<and>
    routes_tracked api tbl base nc' w' \<and>
    tbl w \<subseteq> tbl w' \<and> tbl w' \<subseteq> tbl w \<union> {row. fr_luid row = ro_tunnel_luid (sr_options m)}"
  using worker_returns [OF assms(1-3), of m nc w] assms(4) unfolding routes_grow_def by blast

theorem smart_worker_ends_witness:
  "\<exists>m' nc' w'. worker_main sample_route_env sample_route_api
       (new_route_manager\<lparr>sr_options := sample_options, sr_cidrs := [''142.251.0.0/15'']\<rparr>) new_net_config (700, [uplink])
     = Some (m', nc', w') \<and> sr_stop_requested m' \<and> uplink \<in> set (snd w')"
proof -
  have t: "routes_tracked sample_route_api (set \<circ> snd) {uplink} new_net_config (700, [uplink])"
    by (simp add: routes_tracked_def) (simp add: new_net_config_def)
  from smart_worker_ends [OF sample_route_api_ok(5,1,4) t] show ?thesis by fastforce
qed

end
