(* ===== verification/Wintun_Interface.thy ===== *)
theory Wintun_Interface
  imports Wintun_Loader Smart_Route Engine
begin

text \<open>
  The Windows interface, \<^verbatim>\<open>src/wintun_virtual_interface.cpp\<close>: opening and closing the adapter and its
  session, packets through the ring buffers, addresses, and the routes of a client. It is
  composed of the loader, the network configurator and the route manager as the class is.
\<close>

section \<open>Data\<close>

datatype wintun_error =
    Mtu_Out_Of_Range
  | Ring_Capacity_Invalid
  | Loader_Failed loader_error
  | Adapter_Failed u32
  | Session_Failed u32
  | No_Luid_For_Config
  | Net_Failed net_error
  | Read_Failed u32
  | Packet_Length_Invalid
  | Allocate_Failed u32

text \<open>The systems the interface acts on, over one world.\<close>

record 'w wintun_system =
  ws_wintun :: "'w wintun_api"
  ws_net :: "'w net_api"
  ws_route :: "'w route_env"

record WintunVirtualInterface =
  wi_adapter_name :: string
  wi_tunnel_type :: string
  wi_ring_capacity :: u32
  wi_ipv4_config :: Ipv4InterfaceConfig
  wi_mtu :: u16
  wi_network_applied :: bool
  wi_client_routes_applied :: bool
  wi_loader :: WintunLoader
  wi_net_config :: WindowsNetConfigurator
  wi_route_manager :: SmartRouteManager
  wi_adapter :: "nat option"
  wi_session :: "nat option"
  wi_last_error :: "wintun_error option"

definition new_wintun :: "string \<Rightarrow> string \<Rightarrow> u32 \<Rightarrow> Ipv4InterfaceConfig \<Rightarrow> WintunVirtualInterface" where
  "new_wintun adapter_name tunnel_type ring_capacity ipv4_config =
     \<lparr>wi_adapter_name = adapter_name, wi_tunnel_type = tunnel_type, wi_ring_capacity = ring_capacity,
      wi_ipv4_config = ipv4_config, wi_mtu = 0, wi_network_applied = False, wi_client_routes_applied = False,
      wi_loader = new_loader, wi_net_config = new_net_config, wi_route_manager = new_route_manager,
      wi_adapter = None, wi_session = None, wi_last_error = None\<rparr>"

abbreviation (input) has_export :: "WintunVirtualInterface \<Rightarrow> wintun_export \<Rightarrow> bool" where
  "has_export wi e \<equiv> wl_pointers (wi_loader wi) e \<noteq> None"

section \<open>Operations\<close>

definition wintun_is_open :: "WintunVirtualInterface \<Rightarrow> bool" where
  "wintun_is_open wi \<longleftrightarrow> wi_session wi \<noteq> None \<and> wi_adapter wi \<noteq> None"

definition adapter_luid_value :: "'w wintun_system \<Rightarrow> WintunVirtualInterface \<Rightarrow> 'w \<Rightarrow> u64" where
  "adapter_luid_value sys wi w =
     (case wi_adapter wi of
        None \<Rightarrow> 0
      | Some a \<Rightarrow> if has_export wi WintunGetAdapterLUID then wa_adapter_luid (ws_wintun sys) a w else 0)"

definition apply_network_config ::
  "'w wintun_system \<Rightarrow> WintunVirtualInterface \<Rightarrow> 'w \<Rightarrow> bool \<times> WintunVirtualInterface \<times> 'w" where
  "apply_network_config sys wi w =
     (if \<not> if_apply_on_open (wi_ipv4_config wi) then (True, wi, w)
      else
        (let luid = adapter_luid_value sys wi w in
         if luid = 0 then (False, wi\<lparr>wi_last_error := Some No_Luid_For_Config\<rparr>, w)
         else
           (case apply_ipv4 (ws_net sys) luid (wi_ipv4_config wi) (wi_net_config wi) w of (ok, nc, w1) \<Rightarrow>
              let wi1 = wi\<lparr>wi_net_config := nc\<rparr> in
              if \<not> ok then (False, wi1\<lparr>wi_last_error := map_option Net_Failed (nc_last_error nc)\<rparr>, w1)
              else (True, wi1\<lparr>wi_network_applied := True\<rparr>, w1))))"

definition wintun_clear_client_routes ::
  "'w wintun_system \<Rightarrow> WintunVirtualInterface \<Rightarrow> 'w \<Rightarrow> WintunVirtualInterface \<times> 'w" where
  "wintun_clear_client_routes sys wi w =
     (let wi1 = wi\<lparr>wi_route_manager := stop_routes (wi_route_manager wi)\<rparr> in
      if \<not> wi_client_routes_applied wi1 then (wi1, w)
      else
        (case clear_client_routes (ws_net sys) (wi_net_config wi1) w of (nc, w1) \<Rightarrow>
           (wi1\<lparr>wi_net_config := nc, wi_client_routes_applied := False\<rparr>, w1)))"

definition wintun_apply_client_routing ::
  "'w wintun_system \<Rightarrow> TunnelConfig \<Rightarrow> WintunVirtualInterface \<Rightarrow> 'w \<Rightarrow>
   net_error option \<times> WintunVirtualInterface \<times> 'w" where
  "wintun_apply_client_routing sys config wi w =
     (if tc_client_routing_mode config = Route_None \<and> \<not> tc_enable_global_default_route config then (None, wi, w)
      else if \<not> wintun_is_open wi
      then (Some Wintun_Not_Open, wi\<lparr>wi_last_error := Some (Net_Failed Wintun_Not_Open)\<rparr>, w)
      else
        (let luid = adapter_luid_value sys wi w in
         if luid = 0 then (Some Adapter_Luid_Missing, wi\<lparr>wi_last_error := Some (Net_Failed Adapter_Luid_Missing)\<rparr>, w)
         else
           (case apply_endpoint_bypass_route (ws_net sys) (tc_endpoint config) luid (wi_net_config wi) w of
              (Some e, nc, w1) \<Rightarrow> (Some e, wi\<lparr>wi_net_config := nc, wi_last_error := Some (Net_Failed e)\<rparr>, w1)
            | (None, nc, w1) \<Rightarrow>
                if tc_client_routing_mode config = Route_Global \<or> tc_enable_global_default_route config
                then
                  (case apply_global_default_route (ws_net sys) luid (tc_default_route_gateway config) nc w1 of
                     (Some e, nc2, w2) \<Rightarrow>
                       (case clear_client_routes (ws_net sys) nc2 w2 of (nc3, w3) \<Rightarrow>
                          (Some e, wi\<lparr>wi_net_config := nc3, wi_last_error := Some (Net_Failed e)\<rparr>, w3))
                   | (None, nc2, w2) \<Rightarrow>
                       (None, wi\<lparr>wi_net_config := nc2, wi_client_routes_applied := True\<rparr>, w2))
                else if tc_client_routing_mode config = Route_Smart
                then
                  (let options = default_route_options
                         \<lparr>ro_tunnel_luid := luid, ro_gateway_ipv4 := tc_default_route_gateway config,
                          ro_domain_list_path := tc_smart_route_domain_list config,
                          ro_cidr_list_path := tc_smart_route_cidr_list config\<rparr>
                   in case start_routes (ws_route sys) (ws_net sys) options (wi_route_manager wi) nc w1 of
                        (Some e, m, nc2, w2) \<Rightarrow>
                          (case clear_client_routes (ws_net sys) nc2 w2 of (nc3, w3) \<Rightarrow>
                             (Some e, wi\<lparr>wi_route_manager := m, wi_net_config := nc3,
                                         wi_last_error := Some (Net_Failed e)\<rparr>, w3))
                      | (None, m, nc2, w2) \<Rightarrow>
                          (None, wi\<lparr>wi_route_manager := m, wi_net_config := nc2, wi_client_routes_applied := True\<rparr>, w2))
                else (None, wi\<lparr>wi_net_config := nc, wi_client_routes_applied := True\<rparr>, w1))))"

definition clear_network_config ::
  "'w wintun_system \<Rightarrow> WintunVirtualInterface \<Rightarrow> 'w \<Rightarrow> WintunVirtualInterface \<times> 'w" where
  "clear_network_config sys wi w =
     (case wintun_clear_client_routes sys wi w of (wi1, w1) \<Rightarrow>
        if \<not> wi_network_applied wi1 then (wi1, w1)
        else
          (let luid = adapter_luid_value sys wi1 w1;
               (nc, w2) =
                 (if luid \<noteq> 0
                  then (case clear_ipv4 (ws_net sys) luid (wi_ipv4_config wi1) (wi_net_config wi1) w1 of (_, nc2, w2) \<Rightarrow>
                          if if_dns (wi_ipv4_config wi1) \<noteq> []
                          then snd (clear_dns (ws_net sys) luid nc2 w2)
                          else (nc2, w2))
                  else (wi_net_config wi1, w1))
           in (wi1\<lparr>wi_net_config := nc, wi_network_applied := False\<rparr>, w2)))"

definition wintun_close :: "'w wintun_system \<Rightarrow> WintunVirtualInterface \<Rightarrow> 'w \<Rightarrow> WintunVirtualInterface \<times> 'w" where
  "wintun_close sys wi w =
     (case clear_network_config sys wi w of (wi1, w1) \<Rightarrow>
        let (wi2, w2) =
              (case wi_session wi1 of
                 Some s \<Rightarrow> if has_export wi1 WintunEndSession
                           then (wi1\<lparr>wi_session := None\<rparr>, wa_end_session (ws_wintun sys) s w1) else (wi1, w1)
               | None \<Rightarrow> (wi1, w1));
            (wi3, w3) =
              (case wi_adapter wi2 of
                 Some a \<Rightarrow> if has_export wi2 WintunCloseAdapter
                           then (wi2\<lparr>wi_adapter := None\<rparr>, wa_close_adapter (ws_wintun sys) a w2) else (wi2, w2)
               | None \<Rightarrow> (wi2, w2));
            (l, w4) = unload (ws_wintun sys) (wi_loader wi3) w3
        in (wi3\<lparr>wi_mtu := 0, wi_loader := l\<rparr>, w4))"

text \<open>The clean-up of \<open>open\<close> when the network settings cannot be applied.\<close>

definition abandon_session ::
  "'w wintun_system \<Rightarrow> nat \<Rightarrow> nat \<Rightarrow> WintunVirtualInterface \<Rightarrow> 'w \<Rightarrow> WintunVirtualInterface \<times> 'w" where
  "abandon_session sys a s wi w =
     (let w1 = wa_end_session (ws_wintun sys) s w;
          w2 = wa_close_adapter (ws_wintun sys) a w1;
          (l, w3) = unload (ws_wintun sys) (wi_loader wi) w2
      in (wi\<lparr>wi_session := None, wi_adapter := None, wi_loader := l\<rparr>, w3))"

definition open_or_create_adapter ::
  "'w wintun_system \<Rightarrow> WintunVirtualInterface \<Rightarrow> 'w \<Rightarrow> nat option \<times> 'w" where
  "open_or_create_adapter sys wi w =
     (case wa_open_adapter (ws_wintun sys) (wi_adapter_name wi) w of
        (Some a, w1) \<Rightarrow> (Some a, w1)
      | (None, w1) \<Rightarrow> wa_create_adapter (ws_wintun sys) (wi_adapter_name wi) (wi_tunnel_type wi) w1)"

definition ring_capacity_valid :: "u32 \<Rightarrow> bool" where
  "ring_capacity_valid c \<longleftrightarrow> \<not> (c < 0x20000 \<or> 0x4000000 < c \<or> c AND (c - 1) \<noteq> 0)"

definition wintun_open :: "'w wintun_system \<Rightarrow> u16 \<Rightarrow> WintunVirtualInterface \<Rightarrow> 'w \<Rightarrow> bool \<times> WintunVirtualInterface \<times> 'w" where
  "wintun_open sys mtu wi0 w0 =
     (case wintun_close sys wi0 w0 of (wi, w) \<Rightarrow>
        if mtu < 1280 \<or> 1420 < mtu then (False, wi\<lparr>wi_last_error := Some Mtu_Out_Of_Range\<rparr>, w)
        else if \<not> ring_capacity_valid (wi_ring_capacity wi) then (False, wi\<lparr>wi_last_error := Some Ring_Capacity_Invalid\<rparr>, w)
        else
          (case load_wintun (ws_wintun sys) [] (wi_loader wi) w of (loaded, l, w1) \<Rightarrow>
             let wi1 = wi\<lparr>wi_loader := l\<rparr> in
             if \<not> loaded then (False, wi1\<lparr>wi_last_error := map_option Loader_Failed (wl_last_error l)\<rparr>, w1)
             else
               (case open_or_create_adapter sys wi1 w1 of
                  (None, w2) \<Rightarrow>
                    (case unload (ws_wintun sys) l w2 of (l', w3) \<Rightarrow>
                       (False, wi1\<lparr>wi_last_error := Some (Adapter_Failed (wa_last_error (ws_wintun sys) w2)), wi_loader := l'\<rparr>, w3))
                | (Some a, w2) \<Rightarrow>
                    (let wi2 = wi1\<lparr>wi_adapter := Some a\<rparr> in
                     case wa_start_session (ws_wintun sys) a (wi_ring_capacity wi2) w2 of
                       (None, w3) \<Rightarrow>
                         (let w4 = wa_close_adapter (ws_wintun sys) a w3 in
                          case unload (ws_wintun sys) l w4 of (l', w5) \<Rightarrow>
                            (False, wi2\<lparr>wi_last_error := Some (Session_Failed (wa_last_error (ws_wintun sys) w3)),
                                        wi_adapter := None, wi_loader := l'\<rparr>, w5))
                     | (Some s, w3) \<Rightarrow>
                         (case apply_network_config sys (wi2\<lparr>wi_session := Some s, wi_mtu := mtu\<rparr>) w3 of (ok, wi4, w4) \<Rightarrow>
                            if \<not> ok then (case abandon_session sys a s wi4 w4 of (wi5, w5) \<Rightarrow> (False, wi5, w5))
                            else (True, wi4\<lparr>wi_last_error := None\<rparr>, w4))))))"

definition wintun_read_packet :: "'w wintun_system \<Rightarrow> WintunVirtualInterface \<Rightarrow> 'w \<Rightarrow> bytes \<times> WintunVirtualInterface \<times> 'w" where
  "wintun_read_packet sys wi w =
     (case wi_session wi of
        None \<Rightarrow> ([], wi, w)
      | Some s \<Rightarrow>
          if \<not> has_export wi WintunReceivePacket then ([], wi, w)
          else
            (case wa_receive_packet (ws_wintun sys) s w of
               (Inl err, w1) \<Rightarrow>
                 \<comment> \<open>\<open>ERROR_NO_MORE_ITEMS\<close> is 259\<close>
                 ([], if err \<noteq> 259 then wi\<lparr>wi_last_error := Some (Read_Failed err)\<rparr> else wi, w1)
             | (Inr (buf, packet), w1) \<Rightarrow> (packet, wi, wa_release_receive_packet (ws_wintun sys) s buf w1)))"

definition wintun_write_packet ::
  "'w wintun_system \<Rightarrow> bytes \<Rightarrow> WintunVirtualInterface \<Rightarrow> 'w \<Rightarrow> bool \<times> WintunVirtualInterface \<times> 'w" where
  "wintun_write_packet sys packet wi w =
     (case wi_session wi of
        None \<Rightarrow> (False, wi, w)
      | Some s \<Rightarrow>
          if \<not> has_export wi WintunAllocateSendPacket \<or> \<not> has_export wi WintunSendPacket then (False, wi, w)
          else if packet = [] \<or> unat (wi_mtu wi) < length packet
          then (False, wi\<lparr>wi_last_error := Some Packet_Length_Invalid\<rparr>, w)
          else
            (case wa_allocate_send_packet (ws_wintun sys) s (of_nat (length packet)) w of
               (Inl err, w1) \<Rightarrow> (False, wi\<lparr>wi_last_error := Some (Allocate_Failed err)\<rparr>, w1)
             | (Inr buf, w1) \<Rightarrow> (True, wi, wa_send_packet (ws_wintun sys) s buf packet w1)))"

text \<open>
  The destructor closes the interface; then the members with destructors go, in reverse order:
  the route manager stops its thread and the loader unloads the library, both with nothing
  left to do after \<open>close\<close> succeeded in doing it.
\<close>

definition wintun_destroy :: "'w wintun_system \<Rightarrow> WintunVirtualInterface \<Rightarrow> 'w \<Rightarrow> WintunVirtualInterface \<times> 'w" where
  "wintun_destroy sys wi w =
     (case wintun_close sys wi w of (wi1, w1) \<Rightarrow>
        let wi2 = wi1\<lparr>wi_route_manager := stop_routes (wi_route_manager wi1)\<rparr>;
            (l, w2) = unload (ws_wintun sys) (wi_loader wi2) w1
        in (wi2\<lparr>wi_loader := l\<rparr>, w2))"

text \<open>The object as the engine sees it.\<close>

definition wintun_object :: "'w wintun_system \<Rightarrow> (WintunVirtualInterface \<times> 'w) VirtualInterface" where
  "wintun_object sys =
     \<lparr>vi_open = (\<lambda>mtu (wi, w). wintun_open sys mtu wi w),
      vi_read_packet = (\<lambda>(wi, w). wintun_read_packet sys wi w),
      vi_write_packet = (\<lambda>packet (wi, w). wintun_write_packet sys packet wi w),
      vi_close = (\<lambda>(wi, w). wintun_close sys wi w),
      vi_apply_client_routing = (\<lambda>config (wi, w). wintun_apply_client_routing sys config wi w),
      vi_clear_client_routing = (\<lambda>(wi, w). wintun_clear_client_routes sys wi w),
      vi_destroy = (\<lambda>(wi, w). wintun_destroy sys wi w)\<rparr>"

section \<open>What the network calls leave alone\<close>

definition net_keeps :: "'w net_api \<Rightarrow> ('w \<Rightarrow> 'x) \<Rightarrow> bool" where
  "net_keeps api obs \<longleftrightarrow>
     (\<forall>host w. obs (snd (na_getaddrinfo api host w)) = obs w) \<and>
     (\<forall>w. obs (snd (na_get_forward_table api w)) = obs w) \<and>
     (\<forall>row w. obs (snd (na_create_forward api row w)) = obs w) \<and>
     (\<forall>row w. obs (snd (na_delete_forward api row w)) = obs w) \<and>
     (\<forall>luid ip len w. obs (snd (na_create_unicast api luid ip len w)) = obs w) \<and>
     (\<forall>luid ip len w. obs (snd (na_delete_unicast api luid ip len w)) = obs w) \<and>
     (\<forall>w. obs (snd (na_load_iphlpapi api w)) = obs w) \<and>
     (\<forall>guid dns w. obs (snd (na_set_dns api guid dns w)) = obs w)"

lemma net_keepsD:
  assumes "net_keeps api obs"
  shows "na_getaddrinfo api host w = (as, w') \<Longrightarrow> obs w' = obs w"
    and "na_get_forward_table api w = (tab, w') \<Longrightarrow> obs w' = obs w"
    and "na_create_forward api row w = (st, w') \<Longrightarrow> obs w' = obs w"
    and "na_delete_forward api row w = (st, w') \<Longrightarrow> obs w' = obs w"
    and "na_create_unicast api luid ip len w = (st, w') \<Longrightarrow> obs w' = obs w"
    and "na_delete_unicast api luid ip len w = (st, w') \<Longrightarrow> obs w' = obs w"
    and "na_load_iphlpapi api w = (ok, w') \<Longrightarrow> obs w' = obs w"
    and "na_set_dns api guid dns w = (st, w') \<Longrightarrow> obs w' = obs w"
  using assms unfolding net_keeps_def by (metis snd_conv)+

lemma apply_dns_keeps:
  assumes "net_keeps api obs" "apply_dns api luid dns nc w = (ok, nc', w')"
  shows "obs w' = obs w"
  using assms(2)
  by (auto simp: apply_dns_def Let_def split: if_splits sum.splits prod.splits)
    (metis net_keepsD(7,8) [OF assms(1)])+

lemma apply_ipv4_keeps:
  assumes "net_keeps api obs" "apply_ipv4 api luid c nc w = (ok, nc', w')"
  shows "obs w' = obs w"
  using assms(2)
  by (auto simp: apply_ipv4_def Let_def split: if_splits sum.splits prod.splits)
    (metis apply_dns_keeps [OF assms(1)] net_keepsD(5) [OF assms(1)])+

lemma clear_ipv4_keeps:
  assumes "net_keeps api obs" "clear_ipv4 api luid c nc w = (ok, nc', w')"
  shows "obs w' = obs w"
  using assms(2)
  by (auto simp: clear_ipv4_def Let_def split: if_splits sum.splits prod.splits dest: net_keepsD(6) [OF assms(1)])

lemma clear_dns_keeps:
  assumes "net_keeps api obs" "clear_dns api luid nc w = (ok, nc', w')"
  shows "obs w' = obs w"
  using assms(2)
  by (auto simp: clear_dns_def Let_def split: if_splits sum.splits prod.splits dest: net_keepsD(8) [OF assms(1)])

lemma bypass_keeps:
  assumes "net_keeps api obs" "apply_endpoint_bypass_route api host luid nc w = (r, nc', w')"
  shows "obs w' = obs w"
  using assms(2)
proof (cases rule: apply_endpoint_bypass_route_cases)
  case (unchanged w1)
  then show ?thesis using assms(1) unfolding net_keeps_def by metis
next
  case (tried w1 w2 as table best d st)
  then show ?thesis using net_keepsD(1-3) [OF assms(1)] by metis
qed

lemma default_keeps:
  "net_keeps api obs \<Longrightarrow> apply_global_default_route api luid gw nc w = (r, nc', w') \<Longrightarrow> obs w' = obs w"
  by (erule apply_global_default_route_cases) (auto dest: net_keepsD(3))

interpretation frame: route_pass env api "\<lambda>opts nc w nc' w'. net_keeps api obs \<longrightarrow> env_keeps env obs \<longrightarrow> obs w' = obs w"
proof unfold_locales
  fix opts dst len nc r nc' and w w' :: 'a
  assume "apply_prefix_route api (ro_tunnel_luid opts) dst len (ro_gateway_ipv4 opts) nc w = (r, nc', w')"
  then show "net_keeps api obs \<longrightarrow> env_keeps env obs \<longrightarrow> obs w' = obs w"
    by (cases rule: apply_prefix_route_cases) (blast dest: net_keepsD(3))+
next
  fix b and w w' :: 'a
  assume "re_stop env w = (b, w')"
  then show "net_keeps api obs \<longrightarrow> env_keeps env obs \<longrightarrow> obs w' = obs w"
    by (metis env_keeps_def snd_conv)
qed (auto dest: net_keepsD(1))

lemma start_routes_keeps:
  assumes "net_keeps api obs" "env_keeps env obs" "start_routes env api opts m nc w = (r, m', nc', w')"
  shows "obs w' = obs w"
  using assms(3) by (cases rule: start_routes_cases) (use frame.once_pass assms(1,2) in \<open>fastforce+\<close>)

lemma delete_row_keeps: "net_keeps api obs \<Longrightarrow> obs (snd (delete_forward_row api luid dest len gw w)) = obs w"
  by (auto simp: delete_forward_row_def dest: net_keepsD(4) split: prod.splits)

lemma delete_selective_keeps: "net_keeps api obs \<Longrightarrow> obs (delete_selective api keys w) = obs w"
  by (induction keys arbitrary: w) (auto simp: delete_row_keeps split: sum.splits)

lemma clear_routes_keeps:
  assumes "net_keeps api obs" "clear_client_routes api nc w = (nc', w')"
  shows "obs w' = obs w"
  using assms(2)
  by (auto simp: clear_client_routes_def clear_default_route_def clear_bypass_route_def Let_def
      delete_selective_keeps [OF assms(1)] delete_row_keeps [OF assms(1)] split: if_splits sum.splits)

section \<open>Handles: lemmas\<close>

text \<open>
  \<open>held\<close> observes the handles the process holds. Loading, opening and starting add the handle
  they return, the inverse calls take it away, and the other calls leave all handles alone.
\<close>

definition wintun_handles_ok :: "'w wintun_api \<Rightarrow> ('w \<Rightarrow> os_handle multiset) \<Rightarrow> bool" where
  "wintun_handles_ok api held \<longleftrightarrow>
     (\<forall>path w m w'. wa_load_library api path w = (m, w') \<longrightarrow> held w' = held w + owned H_Module m) \<and>
     (\<forall>m w. held (wa_free_library api m w) = held w - {#H_Module m#}) \<and>
     (\<forall>name w a w'. wa_open_adapter api name w = (a, w') \<longrightarrow> held w' = held w + owned H_Adapter a) \<and>
     (\<forall>name kind w a w'. wa_create_adapter api name kind w = (a, w') \<longrightarrow> held w' = held w + owned H_Adapter a) \<and>
     (\<forall>a w. held (wa_close_adapter api a w) = held w - {#H_Adapter a#}) \<and>
     (\<forall>a c w s w'. wa_start_session api a c w = (s, w') \<longrightarrow> held w' = held w + owned H_Session s) \<and>
     (\<forall>s w. held (wa_end_session api s w) = held w - {#H_Session s#}) \<and>
     (\<forall>s w r w'. wa_receive_packet api s w = (r, w') \<longrightarrow> held w' = held w) \<and>
     (\<forall>s buf w. held (wa_release_receive_packet api s buf w) = held w) \<and>
     (\<forall>s n w r w'. wa_allocate_send_packet api s n w = (r, w') \<longrightarrow> held w' = held w) \<and>
     (\<forall>s buf p w. held (wa_send_packet api s buf p w) = held w)"

definition system_handles_ok :: "'w wintun_system \<Rightarrow> ('w \<Rightarrow> os_handle multiset) \<Rightarrow> bool" where
  "system_handles_ok sys held \<longleftrightarrow>
     wintun_handles_ok (ws_wintun sys) held \<and> net_keeps (ws_net sys) held \<and> env_keeps (ws_route sys) held"

definition wintun_own :: "WintunVirtualInterface \<Rightarrow> os_handle multiset" where
  "wintun_own wi = owned H_Module (wl_module (wi_loader wi)) + owned H_Adapter (wi_adapter wi) + owned H_Session (wi_session wi)"

text \<open>A session belongs to an adapter, an adapter to a loaded library with all its functions.\<close>

definition wintun_wf :: "WintunVirtualInterface \<Rightarrow> bool" where
  "wintun_wf wi \<longleftrightarrow>
     (wi_session wi \<noteq> None \<longrightarrow> wi_adapter wi \<noteq> None) \<and> (wi_adapter wi \<noteq> None \<longrightarrow> is_loaded (wi_loader wi)) \<and>
     loader_wf (wi_loader wi)"

definition same_handles :: "WintunVirtualInterface \<Rightarrow> WintunVirtualInterface \<Rightarrow> bool" where
  "same_handles wi wi' \<longleftrightarrow>
     wi_loader wi' = wi_loader wi \<and> wi_adapter wi' = wi_adapter wi \<and> wi_session wi' = wi_session wi"

lemma same_handlesD: "same_handles wi wi' \<Longrightarrow> wintun_own wi' = wintun_own wi \<and> wintun_wf wi' = wintun_wf wi"
  by (simp add: same_handles_def wintun_own_def wintun_wf_def)

definition quiet :: "'w wintun_system \<Rightarrow> ('w \<Rightarrow> 'x) \<Rightarrow> bool" where
  "quiet sys obs \<longleftrightarrow> net_keeps (ws_net sys) obs \<and> env_keeps (ws_route sys) obs"

lemma clear_routes_frame:
  assumes "quiet sys obs" "wintun_clear_client_routes sys wi w = (wi', w')"
  shows "same_handles wi wi' \<and> obs w' = obs w"
  using assms unfolding quiet_def
  by (auto simp: wintun_clear_client_routes_def same_handles_def Let_def split: if_splits prod.splits
      dest: clear_routes_keeps)

lemma apply_network_frame:
  assumes "quiet sys obs" "apply_network_config sys wi w = (ok, wi', w')"
  shows "same_handles wi wi' \<and> obs w' = obs w"
  using assms unfolding quiet_def
  by (auto simp: apply_network_config_def same_handles_def Let_def split: if_splits prod.splits
      dest: apply_ipv4_keeps)

lemma clear_network_frame:
  assumes "quiet sys obs" "clear_network_config sys wi w = (wi', w')"
  shows "same_handles wi wi' \<and> obs w' = obs w"
proof -
  note net = conjunct1 [OF assms(1) [unfolded quiet_def]]
  obtain wi1 w1 where c: "wintun_clear_client_routes sys wi w = (wi1, w1)" by fastforce
  let ?luid = "adapter_luid_value sys wi1 w1"
  obtain b nc2 w2 where i: "clear_ipv4 (ws_net sys) ?luid (wi_ipv4_config wi1) (wi_net_config wi1) w1 = (b, nc2, w2)"
    by (metis prod_cases3)
  obtain b' nc3 w3 where d: "clear_dns (ws_net sys) ?luid nc2 w2 = (b', nc3, w3)" by (metis prod_cases3)
  have "obs w2 = obs w1" "obs w3 = obs w2" using clear_ipv4_keeps [OF net i] clear_dns_keeps [OF net d] by auto
  with clear_routes_frame [OF assms(1) c] assms(2) c i d show ?thesis
    by (auto simp: clear_network_config_def same_handles_def Let_def split: if_splits)
qed

lemma apply_routing_frame:
  assumes "quiet sys obs" "wintun_apply_client_routing sys config wi w = (r, wi', w')"
  shows "same_handles wi wi' \<and> obs w' = obs w"
proof -
  note net = conjunct1 [OF assms(1) [unfolded quiet_def]] and env = conjunct2 [OF assms(1) [unfolded quiet_def]]
  show ?thesis
    using assms(2) unfolding wintun_apply_client_routing_def Let_def same_handles_def
    by (auto split: if_splits prod.splits option.splits)
      (metis bypass_keeps [OF net] default_keeps [OF net] clear_routes_keeps [OF net] start_routes_keeps [OF net env])+
qed

lemma system_quiet: "system_handles_ok sys held \<Longrightarrow> quiet sys held"
  by (simp add: system_handles_ok_def quiet_def)

lemma handles_okD:
  assumes "system_handles_ok sys held"
  shows "wa_load_library (ws_wintun sys) path w = (m, w') \<Longrightarrow> held w' = held w + owned H_Module m"
    and "held (wa_free_library (ws_wintun sys) k w) = held w - {#H_Module k#}"
    and "wa_open_adapter (ws_wintun sys) name w = (a, w') \<Longrightarrow> held w' = held w + owned H_Adapter a"
    and "wa_create_adapter (ws_wintun sys) name kind w = (a, w') \<Longrightarrow> held w' = held w + owned H_Adapter a"
    and "held (wa_close_adapter (ws_wintun sys) k w) = held w - {#H_Adapter k#}"
    and "wa_start_session (ws_wintun sys) k c w = (s, w') \<Longrightarrow> held w' = held w + owned H_Session s"
    and "held (wa_end_session (ws_wintun sys) k w) = held w - {#H_Session k#}"
    and "wa_receive_packet (ws_wintun sys) k w = (r, w') \<Longrightarrow> held w' = held w"
    and "held (wa_release_receive_packet (ws_wintun sys) k buf w) = held w"
    and "wa_allocate_send_packet (ws_wintun sys) k n w = (r', w') \<Longrightarrow> held w' = held w"
    and "held (wa_send_packet (ws_wintun sys) k buf p w) = held w"
  using assms unfolding system_handles_ok_def wintun_handles_ok_def by simp_all

lemma load_first_held:
  assumes "system_handles_ok sys held"
  shows "load_first (ws_wintun sys) cs w = (m, w') \<Longrightarrow> held w' = held w + owned H_Module m"
proof (induction cs arbitrary: w)
  case (Cons c cs)
  obtain r w1 where l: "wa_load_library (ws_wintun sys) c w = (r, w1)" by fastforce
  show ?case using Cons l handles_okD(1) [OF assms l] by (cases r) (auto split: if_splits)
qed simp

lemma unload_held:
  assumes "system_handles_ok sys held" and "unload (ws_wintun sys) l w = (l', w')"
  shows "held w' = held w - owned H_Module (wl_module l)"
  using unload_spec [OF assms(2)] handles_okD(2) [OF assms(1)] by (auto split: option.splits)

lemma load_held:
  assumes ok: "system_handles_ok sys held" and "wl_module l = None"
    and run: "load_wintun (ws_wintun sys) path l w = (loaded, l', w')"
  shows "held w' = held w + owned H_Module (wl_module l')"
proof -
  obtain l0 w0 where u: "unload (ws_wintun sys) l w = (l0, w0)" by fastforce
  have h0: "held w0 = held w" using unload_held [OF ok u] assms(2) by simp
  from run show ?thesis
    by (cases rule: load_wintun_cases) (use u h0 load_first_held [OF ok] handles_okD(2) [OF ok] in auto)
qed

lemma adapter_held:
  assumes "system_handles_ok sys held" and "open_or_create_adapter sys wi w = (a, w')"
  shows "held w' = held w + owned H_Adapter a"
proof -
  obtain r w1 where l: "wa_open_adapter (ws_wintun sys) (wi_adapter_name wi) w = (r, w1)" by fastforce
  show ?thesis
    using assms(2) l handles_okD(3) [OF assms(1) l] handles_okD(4) [OF assms(1)]
    by (cases r) (auto simp: open_or_create_adapter_def)
qed

text \<open>\<open>close\<close> gives back everything the object owns.\<close>

lemma wintun_close_spec:
  assumes ok: "system_handles_ok sys held" and wf: "wintun_wf wi" and own: "wintun_own wi \<subseteq># held w"
    and run: "wintun_close sys wi w = (wi', w')"
  shows "wi_session wi' = None \<and> wi_adapter wi' = None \<and> wl_module (wi_loader wi') = None \<and>
    held w' + wintun_own wi = held w"
proof -
  obtain wi1 w1 where c: "clear_network_config sys wi w = (wi1, w1)" by fastforce
  have s: "wi_loader wi1 = wi_loader wi" "wi_adapter wi1 = wi_adapter wi" "wi_session wi1 = wi_session wi" "held w1 = held w"
    using clear_network_frame [OF system_quiet [OF ok] c] by (simp_all add: same_handles_def)
  let ?w2 = "case wi_session wi of None \<Rightarrow> w1 | Some k \<Rightarrow> wa_end_session (ws_wintun sys) k w1"
  let ?w3 = "case wi_adapter wi of None \<Rightarrow> ?w2 | Some k \<Rightarrow> wa_close_adapter (ws_wintun sys) k ?w2"
  obtain l w4 where u: "unload (ws_wintun sys) (wi_loader wi) ?w3 = (l, w4)" by fastforce
  have ptr: "wi_adapter wi \<noteq> None \<Longrightarrow> \<forall>e. wl_pointers (wi_loader wi) e \<noteq> None"
    using wf by (simp add: wintun_wf_def loader_wf_def)
  have res: "wi_session wi' = None \<and> wi_adapter wi' = None \<and> wi_loader wi' = l \<and> w' = w4"
  proof (cases "wi_adapter wi")
    case None
    then have "wi_session wi = None" using wf by (simp add: wintun_wf_def)
    with None run c u s show ?thesis by (auto simp: wintun_close_def Let_def)
  next
    case (Some k)
    then show ?thesis
      using run c u s ptr by (cases "wi_session wi") (auto simp: wintun_close_def Let_def)
  qed
  have "held w4 = held w - owned H_Session (wi_session wi) - owned H_Adapter (wi_adapter wi)
      - owned H_Module (wl_module (wi_loader wi))"
    using unload_held [OF ok u] handles_okD(5,7) [OF ok] s(4) by (simp split: option.splits)
  then have "held w4 = held w - wintun_own wi" by (simp add: wintun_own_def ac_simps)
  then show ?thesis using res unload_spec [OF u] own by simp
qed

lemma wintun_wf_closed:
  "wi_session wi = None \<Longrightarrow> wi_adapter wi = None \<Longrightarrow> wl_module (wi_loader wi) = None \<Longrightarrow> wintun_wf wi \<and> wintun_own wi = {#}"
  by (simp add: wintun_wf_def loader_wf_def is_loaded_def wintun_own_def)

text \<open>So does the destructor.\<close>

lemma wintun_destroy_spec:
  assumes ok: "system_handles_ok sys held" and wf: "wintun_wf wi" and own: "wintun_own wi \<subseteq># held w"
    and run: "wintun_destroy sys wi w = (wi', w')"
  shows "wintun_wf wi' \<and> wintun_own wi' = {#} \<and> held w' + wintun_own wi = held w"
proof -
  obtain wi1 w1 where c: "wintun_close sys wi w = (wi1, w1)" by fastforce
  obtain l w2 where u: "unload (ws_wintun sys) (wi_loader wi1) w1 = (l, w2)" by fastforce
  note cl = wintun_close_spec [OF ok wf own c]
  have "wi_session wi' = None" "wi_adapter wi' = None" "wi_loader wi' = l" "w' = w2"
    using run c u cl by (auto simp: wintun_destroy_def Let_def)
  moreover have "wl_module l = None" "held w2 = held w1"
    using unload_spec [OF u] unload_held [OF ok u] cl by (auto split: option.splits)
  ultimately show ?thesis using cl wintun_wf_closed [of wi'] by simp
qed

lemma wintun_open_spec:
  assumes ok: "system_handles_ok sys held" and wf: "wintun_wf wi" and own: "wintun_own wi \<subseteq># held w"
    and run: "wintun_open sys mtu wi w = (opened, wi', w')"
  shows "wintun_wf wi' \<and> opened = wintun_is_open wi' \<and> (\<not> opened \<longrightarrow> wintun_own wi' = {#}) \<and>
    held w' + wintun_own wi = held w + wintun_own wi'"
proof -
  obtain wi1 w1 where c: "wintun_close sys wi w = (wi1, w1)" by fastforce
  have s: "wi_session wi1 = None" "wi_adapter wi1 = None" "wl_module (wi_loader wi1) = None" "held w1 + wintun_own wi = held w"
    using wintun_close_spec [OF ok wf own c] by auto
  obtain loaded l w2 where ld: "load_wintun (ws_wintun sys) [] (wi_loader wi1) w1 = (loaded, l, w2)" by (metis prod_cases3)
  note h2 = load_held [OF ok s(3) ld] and l_wf = load_wintun_wf [OF ld]
  let ?wi2 = "wi1\<lparr>wi_loader := l\<rparr>"
  obtain a w3 where ad: "open_or_create_adapter sys ?wi2 w2 = (a, w3)" by fastforce
  note h3 = adapter_held [OF ok ad]
  have goal: "wintun_wf wi' \<and> opened = wintun_is_open wi' \<and> (\<not> opened \<longrightarrow> wintun_own wi' = {#}) \<and>
    held w' = held w1 + wintun_own wi'"
  proof (cases "mtu < 1280 \<or> 1420 < mtu \<or> \<not> ring_capacity_valid (wi_ring_capacity wi1) \<or> \<not> loaded")
    case True
    then show ?thesis
      using run c ld s(1-3) h2 l_wf
      by (auto simp: wintun_open_def Let_def wintun_wf_def wintun_is_open_def wintun_own_def loader_wf_def is_loaded_def split: if_splits)
  next
    case False
    then obtain m where m: "wl_module l = Some m" "\<forall>e. wl_pointers l e \<noteq> None"
      using l_wf by (auto simp: is_loaded_def loader_wf_def)
    show ?thesis
    proof (cases a)
      case None
      obtain l' w4 where u: "unload (ws_wintun sys) l w3 = (l', w4)" by fastforce
      show ?thesis
        using run c ld ad u None False s(1-3) h2 h3 m unload_held [OF ok u] unload_spec [OF u]
        by (auto simp: wintun_open_def Let_def wintun_wf_def wintun_is_open_def wintun_own_def loader_wf_def is_loaded_def)
    next
      case (Some k)
      obtain ss w4 where st: "wa_start_session (ws_wintun sys) k (wi_ring_capacity wi1) w3 = (ss, w4)" by fastforce
      note h4 = handles_okD(6) [OF ok st]
      show ?thesis
      proof (cases ss)
        case None
        obtain l' w6 where u: "unload (ws_wintun sys) l (wa_close_adapter (ws_wintun sys) k w4) = (l', w6)" by fastforce
        show ?thesis
          using run c ld ad st u None Some False s(1-3) h2 h3 h4 m unload_held [OF ok u] unload_spec [OF u] handles_okD(5) [OF ok]
          by (auto simp: wintun_open_def Let_def wintun_wf_def wintun_is_open_def wintun_own_def loader_wf_def is_loaded_def)
      next
        case S: (Some n)
        let ?wi3 = "wi1\<lparr>wi_loader := l, wi_adapter := Some k, wi_session := Some n, wi_mtu := mtu\<rparr>"
        obtain good wi4 w5 where net: "apply_network_config sys ?wi3 w4 = (good, wi4, w5)" by (metis prod_cases3)
        have f: "wi_loader wi4 = l" "wi_adapter wi4 = Some k" "wi_session wi4 = Some n" "held w5 = held w4"
          using apply_network_frame [OF system_quiet [OF ok] net] by (simp_all add: same_handles_def)
        let ?w6 = "wa_close_adapter (ws_wintun sys) k (wa_end_session (ws_wintun sys) n w5)"
        obtain l' w7 where u: "unload (ws_wintun sys) l ?w6 = (l', w7)" by fastforce
        have h7: "held w7 = held w1"
          using unload_held [OF ok u] handles_okD(5,7) [OF ok] f(4) h2 h3 h4 Some S m by simp
        show ?thesis
        proof (cases good)
          case True
          then show ?thesis
            using run c ld ad st net Some S False h2 h3 h4 m f
            by (auto simp: wintun_open_def Let_def wintun_wf_def wintun_is_open_def wintun_own_def loader_wf_def is_loaded_def)
        next
          case bad: False
          then have "wi' = wi4\<lparr>wi_session := None, wi_adapter := None, wi_loader := l'\<rparr> \<and> w' = w7 \<and> \<not> opened"
            using run c ld ad st net Some S False f(1) u by (auto simp: wintun_open_def abandon_session_def Let_def)
          then show ?thesis using h7 unload_spec [OF u] wintun_wf_closed [of wi'] by (simp add: wintun_is_open_def)
        qed
      qed
    qed
  qed
  then show ?thesis using s(4) by (metis add.assoc add.commute)
qed

section \<open>Sequences of calls\<close>

text \<open>
  The calls of the engine on the interface, and a pass of the refresh thread, which runs
  while the manager's thread is alive.
\<close>

datatype wintun_op =
    W_Open u16
  | W_Close
  | W_Read
  | W_Write bytes
  | W_Apply TunnelConfig
  | W_Clear
  | W_Refresh

definition wintun_refresh :: "'w wintun_system \<Rightarrow> WintunVirtualInterface \<Rightarrow> 'w \<Rightarrow> WintunVirtualInterface \<times> 'w" where
  "wintun_refresh sys wi w =
     (if \<not> sr_worker (wi_route_manager wi) then (wi, w)
      else
        (case apply_routes_once (ws_route sys) (ws_net sys) (wi_route_manager wi) (wi_net_config wi) w of
           (m, nc, w') \<Rightarrow> (wi\<lparr>wi_route_manager := m, wi_net_config := nc\<rparr>, w')))"

fun wintun_step ::
  "'w wintun_system \<Rightarrow> wintun_op \<Rightarrow> WintunVirtualInterface \<times> 'w \<Rightarrow> WintunVirtualInterface \<times> 'w" where
  "wintun_step sys (W_Open mtu) (wi, w) = snd (wintun_open sys mtu wi w)"
| "wintun_step sys W_Close (wi, w) = wintun_close sys wi w"
| "wintun_step sys W_Read (wi, w) = snd (wintun_read_packet sys wi w)"
| "wintun_step sys (W_Write packet) (wi, w) = snd (wintun_write_packet sys packet wi w)"
| "wintun_step sys (W_Apply config) (wi, w) = snd (wintun_apply_client_routing sys config wi w)"
| "wintun_step sys W_Clear (wi, w) = wintun_clear_client_routes sys wi w"
| "wintun_step sys W_Refresh (wi, w) = wintun_refresh sys wi w"

definition wintun_state_ok ::
  "'w wintun_system \<Rightarrow> ('w \<Rightarrow> os_handle multiset) \<Rightarrow> WintunVirtualInterface \<times> 'w \<Rightarrow> bool" where
  "wintun_state_ok sys held s \<longleftrightarrow>
     system_handles_ok sys held \<and> wintun_wf (fst s) \<and> wintun_own (fst s) \<subseteq># held (snd s)"

lemma read_frame:
  "system_handles_ok sys held \<Longrightarrow> wintun_read_packet sys wi w = (r, wi', w') \<Longrightarrow> same_handles wi wi' \<and> held w' = held w"
  by (auto simp: wintun_read_packet_def same_handles_def handles_okD(9) dest: handles_okD(8)
      split: option.splits if_splits prod.splits sum.splits)

lemma write_frame:
  "system_handles_ok sys held \<Longrightarrow> wintun_write_packet sys p wi w = (r, wi', w') \<Longrightarrow> same_handles wi wi' \<and> held w' = held w"
  by (auto simp: wintun_write_packet_def same_handles_def handles_okD(11) dest: handles_okD(10)
      split: option.splits if_splits prod.splits sum.splits)

lemma refresh_frame:
  "quiet sys obs \<Longrightarrow> wintun_refresh sys wi w = (wi', w') \<Longrightarrow> same_handles wi wi' \<and> obs w' = obs w"
  by (auto simp: wintun_refresh_def same_handles_def quiet_def split: if_splits prod.splits dest: frame.once_pass)

lemma wintun_step_balance:
  assumes "wintun_state_ok sys held s" and "wintun_step sys op s = s'"
  shows "wintun_wf (fst s') \<and> held (snd s') + wintun_own (fst s) = held (snd s) + wintun_own (fst s')"
proof -
  obtain wi w wi' w' where s: "s = (wi, w)" "s' = (wi', w')" by (metis prod.exhaust)
  have ok: "system_handles_ok sys held" "wintun_wf wi" "wintun_own wi \<subseteq># held w"
    using assms(1) s by (simp_all add: wintun_state_ok_def)
  note q = system_quiet [OF ok(1)]
  have same: ?thesis if "same_handles wi wi' \<and> held w' = held w"
    using that ok(2) s same_handlesD [of wi wi'] by simp
  show ?thesis
  proof (cases op)
    case (W_Open mtu)
    then obtain b where "wintun_open sys mtu wi w = (b, wi', w')" using assms(2) s by (metis prod.collapse wintun_step.simps(1))
    then show ?thesis using wintun_open_spec [OF ok] s by simp
  next
    case W_Close
    then have c: "wintun_close sys wi w = (wi', w')" using assms(2) s by simp
    note spec = wintun_close_spec [OF ok c]
    then show ?thesis using wintun_wf_closed [of wi'] s by simp
  next
    case W_Read
    then obtain b where "wintun_read_packet sys wi w = (b, wi', w')" using assms(2) s by (metis prod.collapse wintun_step.simps(3))
    then show ?thesis using read_frame [OF ok(1)] by (intro same) blast
  next
    case (W_Write p)
    then obtain b where "wintun_write_packet sys p wi w = (b, wi', w')" using assms(2) s by (metis prod.collapse wintun_step.simps(4))
    then show ?thesis using write_frame [OF ok(1)] by (intro same) blast
  next
    case (W_Apply c)
    then obtain b where "wintun_apply_client_routing sys c wi w = (b, wi', w')" using assms(2) s by (metis prod.collapse wintun_step.simps(5))
    then show ?thesis using apply_routing_frame [OF q] by (intro same) blast
  next
    case W_Clear
    then show ?thesis using assms(2) s clear_routes_frame [OF q] by (intro same) simp
  next
    case W_Refresh
    then show ?thesis using assms(2) s refresh_frame [OF q] by (intro same) simp
  qed
qed

interpretation wintun: handle_owner "wintun_step sys" "wintun_step sys W_Close" "\<lambda>s. held (snd s)" "\<lambda>s. wintun_own (fst s)"
  "wintun_state_ok sys held"
proof unfold_locales
  fix s op
  assume s: "wintun_state_ok sys held s"
  note b = wintun_step_balance [OF s refl, of op]
  then show "held (snd (wintun_step sys op s)) + wintun_own (fst s) = held (snd s) + wintun_own (fst (wintun_step sys op s))"
    by simp
  have "wintun_own (fst (wintun_step sys op s)) \<subseteq># held (snd (wintun_step sys op s))"
    using balanced_own [OF conjunct2 [OF b]] s by (simp add: wintun_state_ok_def)
  then show "wintun_state_ok sys held (wintun_step sys op s)"
    using b s by (simp add: wintun_state_ok_def)
next
  fix s
  assume s: "wintun_state_ok sys held s"
  obtain wi w where w: "s = (wi, w)" by fastforce
  obtain wi' w' where c: "wintun_close sys wi w = (wi', w')" by fastforce
  have ok: "system_handles_ok sys held" "wintun_wf wi" "wintun_own wi \<subseteq># held w"
    using s w by (simp_all add: wintun_state_ok_def)
  from wintun_close_spec [OF ok c] show "held (snd (wintun_step sys W_Close s)) + wintun_own (fst s) = held (snd s)"
    using w c by simp
qed

section \<open>The routes of a client: lemmas\<close>

text \<open>
  What happens to an open interface between two clean-ups: routing is applied when none is,
  the refresh thread runs, packets are read and written, routing is cleared.
\<close>

inductive routing_step ::
  "'w wintun_system \<Rightarrow> WintunVirtualInterface \<times> 'w \<Rightarrow> WintunVirtualInterface \<times> 'w \<Rightarrow> bool" for sys where
  apply_routing: "\<not> wi_client_routes_applied wi \<Longrightarrow> wintun_apply_client_routing sys config wi w = (r, wi', w') \<Longrightarrow>
     routing_step sys (wi, w) (wi', w')"
| refresh: "wintun_refresh sys wi w = (wi', w') \<Longrightarrow> routing_step sys (wi, w) (wi', w')"
| read_one: "wintun_read_packet sys wi w = (p, wi', w') \<Longrightarrow> routing_step sys (wi, w) (wi', w')"
| write_one: "wintun_write_packet sys p wi w = (r, wi', w') \<Longrightarrow> routing_step sys (wi, w) (wi', w')"
| clear_routing: "wintun_clear_client_routes sys wi w = (wi', w') \<Longrightarrow> routing_step sys (wi, w) (wi', w')"

text \<open>Reading and writing packets does not change the forwarding table.\<close>

definition traffic_keeps :: "'w wintun_api \<Rightarrow> ('w \<Rightarrow> 'x) \<Rightarrow> bool" where
  "traffic_keeps api obs \<longleftrightarrow>
     (\<forall>s w. obs (snd (wa_receive_packet api s w)) = obs w) \<and>
     (\<forall>s buf w. obs (wa_release_receive_packet api s buf w) = obs w) \<and>
     (\<forall>s n w. obs (snd (wa_allocate_send_packet api s n w)) = obs w) \<and>
     (\<forall>s buf p w. obs (wa_send_packet api s buf p w) = obs w)"

definition system_routes_ok :: "'w wintun_system \<Rightarrow> ('w \<Rightarrow> forward_row set) \<Rightarrow> bool" where
  "system_routes_ok sys tbl \<longleftrightarrow>
     forward_api_ok (ws_net sys) tbl \<and> inet_text_ok (ws_net sys) \<and> env_keeps (ws_route sys) tbl \<and>
     traffic_keeps (ws_wintun sys) tbl"

definition no_routes_recorded :: "WintunVirtualInterface \<Rightarrow> bool" where
  "no_routes_recorded wi \<longleftrightarrow>
     \<not> sr_worker (wi_route_manager wi) \<and> \<not> nc_bypass_applied (wi_net_config wi) \<and>
     \<not> nc_default_applied (wi_net_config wi) \<and> nc_selective (wi_net_config wi) = []"

text \<open>All routes beyond the initial ones are recorded; while no routing is applied, none is.\<close>

definition routing_inv ::
  "'w wintun_system \<Rightarrow> ('w \<Rightarrow> forward_row set) \<Rightarrow> forward_row set \<Rightarrow> WintunVirtualInterface \<times> 'w \<Rightarrow> bool" where
  "routing_inv sys tbl T s \<longleftrightarrow>
     (\<exists>base. base \<subseteq> T \<and> routes_tracked (ws_net sys) tbl base (wi_net_config (fst s)) (snd s)) \<and>
     (\<not> wi_client_routes_applied (fst s) \<longrightarrow> no_routes_recorded (fst s))"

lemma read_routing_frame:
  "traffic_keeps (ws_wintun sys) obs \<Longrightarrow> wintun_read_packet sys wi w = (r, wi', w') \<Longrightarrow>
   obs w' = obs w \<and> (\<exists>e. wi' = wi\<lparr>wi_last_error := e\<rparr>)"
proof -
  have same: "\<exists>e. wi = wi\<lparr>wi_last_error := e\<rparr>" by (rule exI [of _ "wi_last_error wi"]) simp
  assume "traffic_keeps (ws_wintun sys) obs" and "wintun_read_packet sys wi w = (r, wi', w')"
  then show ?thesis
    using same unfolding traffic_keeps_def
    by (auto simp: wintun_read_packet_def split: option.splits if_splits prod.splits sum.splits) (metis snd_conv)+
qed

lemma write_routing_frame:
  "traffic_keeps (ws_wintun sys) obs \<Longrightarrow> wintun_write_packet sys p wi w = (r, wi', w') \<Longrightarrow>
   obs w' = obs w \<and> (\<exists>e. wi' = wi\<lparr>wi_last_error := e\<rparr>)"
proof -
  have same: "\<exists>e. wi = wi\<lparr>wi_last_error := e\<rparr>" by (rule exI [of _ "wi_last_error wi"]) simp
  assume "traffic_keeps (ws_wintun sys) obs" and "wintun_write_packet sys p wi w = (r, wi', w')"
  then show ?thesis
    using same unfolding traffic_keeps_def
    by (auto simp: wintun_write_packet_def split: option.splits if_splits prod.splits sum.splits) (metis snd_conv)+
qed

lemma clear_routing_inv:
  assumes ok: "system_routes_ok sys tbl" and inv: "routing_inv sys tbl T (wi, w)"
    and run: "wintun_clear_client_routes sys wi w = (wi', w')"
  shows "routing_inv sys tbl T (wi', w') \<and> \<not> wi_client_routes_applied wi' \<and> no_routes_recorded wi' \<and> tbl w' \<subseteq> T"
proof -
  obtain base where b: "base \<subseteq> T" "routes_tracked (ws_net sys) tbl base (wi_net_config wi) w"
    using inv by (auto simp: routing_inv_def)
  have fwd: "forward_api_ok (ws_net sys) tbl" using ok by (simp add: system_routes_ok_def)
  show ?thesis
  proof (cases "wi_client_routes_applied wi")
    case False
    then have none: "no_routes_recorded wi" using inv by (simp add: routing_inv_def)
    then have "recorded_rows (ws_net sys) (wi_net_config wi) = {}" by (simp add: no_routes_recorded_def recorded_defs)
    with b have "tbl w \<subseteq> T" by (auto simp: routes_tracked_def)
    with False none run b show ?thesis
      by (auto simp: wintun_clear_client_routes_def stop_routes_def routing_inv_def no_routes_recorded_def Let_def)
  next
    case True
    obtain nc' where c: "clear_client_routes (ws_net sys) (wi_net_config wi) w = (nc', w')"
      and wi': "wi' = wi\<lparr>wi_route_manager := stop_routes (wi_route_manager wi), wi_net_config := nc', wi_client_routes_applied := False\<rparr>"
      using True run by (auto simp: wintun_clear_client_routes_def Let_def split: prod.splits)
    note t = table_clear_client_routes [OF fwd c]
    have "tbl w' \<subseteq> T" using t b by (auto simp: routes_tracked_def)
    moreover have "routes_tracked (ws_net sys) tbl (tbl w') nc' w'" using t by (simp add: routes_tracked_def)
    ultimately show ?thesis using t wi' by (auto simp: routing_inv_def no_routes_recorded_def stop_routes_def)
  qed
qed

lemma bypass_failed:
  "apply_endpoint_bypass_route api host luid nc w = (Some e, nc', w') \<Longrightarrow> nc' = nc\<lparr>nc_last_error := Some e\<rparr>"
  by (erule apply_endpoint_bypass_route_cases) auto

text \<open>After a failure the record is cleared again, so nothing is recorded and nothing is left.\<close>

lemma failed_routing_inv:
  assumes ok: "system_routes_ok sys tbl" and base: "base \<subseteq> T" "routes_tracked (ws_net sys) tbl base nc w"
    and run: "clear_client_routes (ws_net sys) nc w = (nc', w')"
    and wi: "wi_net_config wi' = nc'" "\<not> sr_worker (wi_route_manager wi')"
  shows "routing_inv sys tbl T (wi', w')"
proof -
  have fwd: "forward_api_ok (ws_net sys) tbl" using ok by (simp add: system_routes_ok_def)
  note t = table_clear_client_routes [OF fwd run]
  have "tbl w' \<subseteq> T" using t base by (auto simp: routes_tracked_def)
  moreover have "routes_tracked (ws_net sys) tbl (tbl w') nc' w'" using t by (simp add: routes_tracked_def)
  ultimately show ?thesis using t wi by (auto simp: routing_inv_def no_routes_recorded_def)
qed

lemma apply_routing_inv:
  assumes ok: "system_routes_ok sys tbl" and inv: "routing_inv sys tbl T (wi, w)" and none: "\<not> wi_client_routes_applied wi"
    and run: "wintun_apply_client_routing sys config wi w = (r, wi', w')"
  shows "routing_inv sys tbl T (wi', w')"
proof -
  have sys_ok: "forward_api_ok (ws_net sys) tbl" "inet_text_ok (ws_net sys)" "env_keeps (ws_route sys) tbl"
    using ok by (simp_all add: system_routes_ok_def)
  obtain base where b: "base \<subseteq> T" "routes_tracked (ws_net sys) tbl base (wi_net_config wi) w"
    using inv by (auto simp: routing_inv_def)
  have rec: "no_routes_recorded wi" using inv none by (simp add: routing_inv_def)
  let ?nc = "wi_net_config wi" and ?luid = "adapter_luid_value sys wi w"
  have clean: "\<not> nc_bypass_applied ?nc" "\<not> nc_default_applied ?nc" "\<not> sr_worker (wi_route_manager wi)"
    using rec by (simp_all add: no_routes_recorded_def)
  show ?thesis
  proof (cases "(tc_client_routing_mode config = Route_None \<and> \<not> tc_enable_global_default_route config) \<or> \<not> wintun_is_open wi \<or> ?luid = 0")
    case True
    then have "w' = w" "\<exists>e. wi' = wi\<lparr>wi_last_error := e\<rparr> \<or> wi' = wi"
      using run by (auto simp: wintun_apply_client_routing_def Let_def split: if_splits)
    then show ?thesis using inv by (auto simp: routing_inv_def no_routes_recorded_def)
  next
    case False
    obtain rb nc1 w1 where bp: "apply_endpoint_bypass_route (ws_net sys) (tc_endpoint config) ?luid ?nc w = (rb, nc1, w1)"
      by (metis prod_cases3)
    have t1: "routes_tracked (ws_net sys) tbl base nc1 w1" by (rule tracked_bypass [OF sys_ok(1,2) b(2) clean(1) bp])
    have d1: "\<not> nc_default_applied nc1" using apply_bypass_flags [OF bp] clean(2) by simp
    show ?thesis
    proof (cases rb)
      case (Some e)
      then have "wi' = wi\<lparr>wi_net_config := nc1, wi_last_error := Some (Net_Failed e)\<rparr>" "w' = w1"
        using run False bp by (auto simp: wintun_apply_client_routing_def Let_def)
      then show ?thesis using t1 b(1) rec bypass_failed [OF bp [unfolded Some]]
        by (auto simp: routing_inv_def no_routes_recorded_def)
    next
      case bp_ok: None
      show ?thesis
      proof (cases "tc_client_routing_mode config = Route_Global \<or> tc_enable_global_default_route config")
        case glob: True
        obtain rd nc2 w2 where df: "apply_global_default_route (ws_net sys) ?luid (tc_default_route_gateway config) nc1 w1 = (rd, nc2, w2)"
          by (metis prod_cases3)
        have t2: "routes_tracked (ws_net sys) tbl base nc2 w2" by (rule tracked_default [OF sys_ok(1) t1 d1 df])
        obtain nc3 w3 where cl: "clear_client_routes (ws_net sys) nc2 w2 = (nc3, w3)" by fastforce
        show ?thesis
        proof (cases rd)
          case None
          then have "wi' = wi\<lparr>wi_net_config := nc2, wi_client_routes_applied := True\<rparr>" "w' = w2"
            using run False bp bp_ok glob df by (auto simp: wintun_apply_client_routing_def Let_def)
          then show ?thesis using t2 b(1) by (auto simp: routing_inv_def)
        next
          case (Some e)
          then have "wi' = wi\<lparr>wi_net_config := nc3, wi_last_error := Some (Net_Failed e)\<rparr>" "w' = w3"
            using run False bp bp_ok glob df cl by (auto simp: wintun_apply_client_routing_def Let_def)
          then show ?thesis using failed_routing_inv [OF ok b(1) t2 cl, of wi'] clean(3) by simp
        qed
      next
        case ng: False
        show ?thesis
        proof (cases "tc_client_routing_mode config = Route_Smart")
          case smart: True
          let ?opts = "default_route_options\<lparr>ro_tunnel_luid := ?luid, ro_gateway_ipv4 := tc_default_route_gateway config,
            ro_domain_list_path := tc_smart_route_domain_list config, ro_cidr_list_path := tc_smart_route_cidr_list config\<rparr>"
          obtain rs m nc2 w2 where st: "start_routes (ws_route sys) (ws_net sys) ?opts (wi_route_manager wi) nc1 w1 = (rs, m, nc2, w2)"
            by (metis prod_cases4)
          have t2: "routes_tracked (ws_net sys) tbl base nc2 w2"
            using start_routes_grows [OF sys_ok(1,3) st] t1 unfolding routes_grow_def by blast
          obtain nc3 w3 where cl: "clear_client_routes (ws_net sys) nc2 w2 = (nc3, w3)" by fastforce
          show ?thesis
          proof (cases rs)
            case None
            then have "wi' = wi\<lparr>wi_route_manager := m, wi_net_config := nc2, wi_client_routes_applied := True\<rparr>" "w' = w2"
              using run False bp bp_ok ng smart st by (auto simp: wintun_apply_client_routing_def Let_def)
            then show ?thesis using t2 b(1) by (auto simp: routing_inv_def)
          next
            case (Some e)
            then have "\<not> sr_worker m" using st by (auto elim: start_routes_cases)
            moreover from Some have "wi' = wi\<lparr>wi_route_manager := m, wi_net_config := nc3, wi_last_error := Some (Net_Failed e)\<rparr>" "w' = w3"
              using run False bp bp_ok ng smart st cl by (auto simp: wintun_apply_client_routing_def Let_def)
            ultimately show ?thesis using failed_routing_inv [OF ok b(1) t2 cl, of wi'] by simp
          qed
        next
          case other: False
          then have "wi' = wi\<lparr>wi_net_config := nc1, wi_client_routes_applied := True\<rparr>" "w' = w1"
            using run False bp bp_ok ng by (auto simp: wintun_apply_client_routing_def Let_def)
          then show ?thesis using t1 b(1) by (auto simp: routing_inv_def)
        qed
      qed
    qed
  qed
qed

lemma routing_inv_same:
  "routing_inv sys tbl T (wi, w) \<Longrightarrow> tbl w' = tbl w \<Longrightarrow> routing_inv sys tbl T (wi\<lparr>wi_last_error := e\<rparr>, w')"
  by (simp add: routing_inv_def no_routes_recorded_def routes_tracked_def)

lemma routing_step_inv:
  assumes "system_routes_ok sys tbl"
  shows "routing_step sys s s' \<Longrightarrow> routing_inv sys tbl T s \<Longrightarrow> routing_inv sys tbl T s'"
proof (induction rule: routing_step.induct)
  case (apply_routing wi config w r wi' w')
  then show ?case using apply_routing_inv [OF assms] by blast
next
  case (refresh wi w wi' w')
  show ?case
  proof (cases "sr_worker (wi_route_manager wi)")
    case True
    obtain m nc w1 where o: "apply_routes_once (ws_route sys) (ws_net sys) (wi_route_manager wi) (wi_net_config wi) w = (m, nc, w1)"
      by (metis prod_cases3)
    have "routes_grow (ws_net sys) tbl (ro_tunnel_luid (sr_options (wi_route_manager wi))) (wi_net_config wi) w nc w1"
      using growth.once_pass [OF o] assms by (simp add: system_routes_ok_def)
    then show ?thesis using refresh True o by (auto simp: wintun_refresh_def routing_inv_def no_routes_recorded_def routes_grow_def)
  qed (use refresh in \<open>simp add: wintun_refresh_def\<close>)
next
  case (read_one wi w p wi' w')
  then show ?case
    using read_routing_frame [of sys tbl wi w p wi' w'] assms routing_inv_same by (metis system_routes_ok_def)
next
  case (write_one p wi w r wi' w')
  then show ?case
    using write_routing_frame [of sys tbl p wi w r wi' w'] assms routing_inv_same by (metis system_routes_ok_def)
next
  case (clear_routing wi w wi' w')
  then show ?case using clear_routing_inv [OF assms] by blast
qed

lemma routing_steps_inv:
  assumes "system_routes_ok sys tbl"
  shows "(routing_step sys)\<^sup>*\<^sup>* s s' \<Longrightarrow> routing_inv sys tbl T s \<Longrightarrow> routing_inv sys tbl T s'"
  by (induction rule: rtranclp_induct) (auto intro: routing_step_inv [OF assms])

text \<open>After any calls on a new interface, \<open>close\<close> leaves the process with the handles it held before.\<close>

lemma wintun_releases_handles:
  assumes "system_handles_ok sys held"
  shows "held (snd (wintun_step sys W_Close
           (fold (wintun_step sys) ops (new_wintun name kind ring v4, w)))) = held w"
proof -
  have own: "wintun_wf (new_wintun name kind ring v4)" "wintun_own (new_wintun name kind ring v4) = {#}"
    by (simp_all add: new_wintun_def wintun_wf_def wintun_own_def loader_wf_def is_loaded_def new_loader_def)
  with assms have "wintun_state_ok sys held (new_wintun name kind ring v4, w)" by (simp add: wintun_state_ok_def)
  from wintun.all_released [OF this] own(2) show ?thesis by simp
qed

text \<open>On an interface without routing, after any applying, refreshing, reading, writing and clearing,
  \<open>clear_client_routing\<close> leaves no new row in the table.\<close>

lemma wintun_routes_removed:
  assumes "system_routes_ok sys tbl" and "\<not> wi_client_routes_applied wi" and "no_routes_recorded wi"
    and "(routing_step sys)\<^sup>*\<^sup>* (wi, w) (wi1, w1)" and "wintun_clear_client_routes sys wi1 w1 = (wi2, w2)"
  shows "tbl w2 \<subseteq> tbl w \<and> no_routes_recorded wi2 \<and> \<not> wi_client_routes_applied wi2"
proof -
  have "routes_tracked (ws_net sys) tbl (tbl w) (wi_net_config wi) w"
    using assms(3) by (simp add: routes_tracked_def no_routes_recorded_def recorded_defs)
  then have "routing_inv sys tbl (tbl w) (wi, w)" using assms(3) by (auto simp: routing_inv_def)
  from routing_steps_inv [OF assms(1,4) this] show ?thesis using clear_routing_inv [OF assms(1) _ assms(5)] by blast
qed

section \<open>A concrete system\<close>

text \<open>
  A driver whose calls all succeed; \<open>add\<close> and \<open>del\<close> are the effect on the world of taking and
  of releasing a handle.
\<close>

definition sample_driver :: "(os_handle \<Rightarrow> 'w \<Rightarrow> 'w) \<Rightarrow> (os_handle \<Rightarrow> 'w \<Rightarrow> 'w) \<Rightarrow> 'w wintun_api" where
  "sample_driver add del =
     \<lparr>wa_module_file_name = ''tunnel_client.exe'', wa_parent_path = (\<lambda>_. ''.''),
      wa_load_library = (\<lambda>_ w. (Some 1, add (H_Module 1) w)), wa_get_proc = (\<lambda>_ _. Some 1),
      wa_free_library = (\<lambda>m. del (H_Module m)), wa_last_error = (\<lambda>_. 0), wa_driver_version = (\<lambda>_. 14),
      wa_open_adapter = (\<lambda>_ w. (None, w)), wa_create_adapter = (\<lambda>_ _ w. (Some 2, add (H_Adapter 2) w)),
      wa_close_adapter = (\<lambda>a. del (H_Adapter a)), wa_adapter_luid = (\<lambda>_ _. 7),
      wa_start_session = (\<lambda>_ _ w. (Some 3, add (H_Session 3) w)), wa_end_session = (\<lambda>s. del (H_Session s)),
      wa_receive_packet = (\<lambda>_ w. (Inr (0, [0x45]), w)), wa_release_receive_packet = (\<lambda>_ _ w. w),
      wa_allocate_send_packet = (\<lambda>_ _ w. (Inr 0, w)), wa_send_packet = (\<lambda>_ _ _ w. w)\<rparr>"

definition idle_net :: "'w net_api" where
  "idle_net =
     \<lparr>na_winsock = True, na_pton = dotted_pton, na_ntop = (\<lambda>a. Some (dotted_ntop a)),
      na_getaddrinfo = (\<lambda>_ w. ([], w)), na_get_forward_table = (\<lambda>w. (Inr [], w)),
      na_create_forward = (\<lambda>_ w. (0, w)), na_delete_forward = (\<lambda>_ w. (0, w)),
      na_create_unicast = (\<lambda>_ _ _ w. (0, w)), na_delete_unicast = (\<lambda>_ _ _ w. (0, w)),
      na_luid_to_guid = (\<lambda>luid. Inr (unat luid)), na_iphlpapi_loaded = (\<lambda>w. True), na_load_iphlpapi = (\<lambda>w. (True, w)),
      na_has_set_dns = True, na_set_dns = (\<lambda>_ _ w. (0, w))\<rparr>"

definition handle_system :: "os_handle multiset wintun_system" where
  "handle_system =
     \<lparr>ws_wintun = sample_driver add_mset (\<lambda>h w. w - {#h#}), ws_net = idle_net,
      ws_route = \<lparr>re_file = (\<lambda>_. None), re_stop = (\<lambda>w. (False, w)), re_sleep = (\<lambda>w. w)\<rparr>\<rparr>"

lemma handle_system_ok: "system_handles_ok handle_system (\<lambda>w. w)"
  by (auto simp: system_handles_ok_def wintun_handles_ok_def net_keeps_def env_keeps_def handle_system_def sample_driver_def idle_net_def)

definition route_system :: "route_world wintun_system" where
  "route_system = \<lparr>ws_wintun = sample_driver (\<lambda>_ w. w) (\<lambda>_ w. w), ws_net = sample_route_api, ws_route = sample_route_env\<rparr>"

lemma route_system_ok: "system_routes_ok route_system (set \<circ> snd)"
  using sample_route_api_ok(1,4) address_text_inet [OF sample_route_api_ok(2)]
  by (auto simp: system_routes_ok_def route_system_def traffic_keeps_def sample_driver_def)

definition client_wintun :: WintunVirtualInterface where
  "client_wintun = new_wintun ''SecureTunnel'' ''SecureTunnel'' 0x400000 (tc_ipv4 default_config)"

definition global_config :: TunnelConfig where
  "global_config = default_config\<lparr>tc_endpoint := ''203.0.113.10'', tc_client_routing_mode := Route_Global\<rparr>"

section \<open>Properties\<close>

text \<open>
  C26. An interface is open or it owns nothing: whatever happened to it before, \<open>open\<close> returns
  true exactly when session and adapter are present, then every function of the driver is
  resolved, and otherwise neither library nor adapter nor session is held.
\<close>

theorem wintun_open_all_or_nothing:
  assumes "system_handles_ok sys held"
    and "fold (wintun_step sys) ops (new_wintun name kind ring v4, w) = (wi, w1)"
    and "wintun_open sys mtu wi w1 = (ok, wi', w2)"
  shows "(if ok then wi_session wi' \<noteq> None \<and> wi_adapter wi' \<noteq> None \<and> (\<forall>e. wl_pointers (wi_loader wi') e \<noteq> None)
          else wi_session wi' = None \<and> wi_adapter wi' = None \<and> wl_module (wi_loader wi') = None)"
proof -
  have "wintun_state_ok sys held (new_wintun name kind ring v4, w)"
    using assms(1)
    by (simp add: wintun_state_ok_def new_wintun_def wintun_wf_def wintun_own_def loader_wf_def is_loaded_def new_loader_def)
  from wintun.run_wf [OF this, of ops] assms(2) have s: "wintun_wf wi" "wintun_own wi \<subseteq># held w1"
    by (simp_all add: wintun_state_ok_def)
  from wintun_open_spec [OF assms(1) s assms(3)] show ?thesis
    by (auto simp: wintun_is_open_def wintun_wf_def loader_wf_def wintun_own_def owned_def split: option.splits)
qed

theorem wintun_open_all_or_nothing_witness:
  "\<exists>ok wi' w2. wintun_open handle_system 9000 client_wintun {#} = (ok, wi', w2) \<and> \<not> ok \<and> wi_session wi' = None"
proof -
  obtain ok wi' w2 where r: "wintun_open handle_system 9000 client_wintun {#} = (ok, wi', w2)" by (metis prod_cases3)
  then have "\<not> ok" by (auto simp: wintun_open_def split: prod.splits)
  with wintun_open_all_or_nothing [OF handle_system_ok, of "[]", OF _ r [unfolded client_wintun_def]] r show ?thesis
    by (auto simp: client_wintun_def)
qed

end
