(* ===== verification/Routing_Policy.thy ===== *)
theory Routing_Policy
  imports Wintun_Interface
begin

text \<open>
  What the routes of the client mean for the packets of the tunnel itself. With a default route
  through the tunnel, the packets the transport sends to the server must still leave by
  another interface; otherwise they would enter the tunnel they carry. The system sends a
  packet by a row of the forwarding table that matches its address with the longest prefix.
\<close>

section \<open>Longest prefix match\<close>

definition row_matches :: "forward_row \<Rightarrow> u32 \<Rightarrow> bool" where
  "row_matches r a \<longleftrightarrow> fr_dest r = masked_network a (fr_prefix r)"

definition longest_match :: "forward_row set \<Rightarrow> u32 \<Rightarrow> forward_row \<Rightarrow> bool" where
  "longest_match rows a r \<longleftrightarrow>
     r \<in> rows \<and> row_matches r a \<and> (\<forall>r' \<in> rows. row_matches r' a \<longrightarrow> fr_prefix r' \<le> fr_prefix r)"

text \<open>A host route outside the tunnel wins against every shorter route into the tunnel.\<close>

lemma host_route_wins:
  assumes "h \<in> rows" and "row_matches h a" and "fr_prefix h = 32"
    and "\<forall>r \<in> rows. fr_luid r = tunnel \<and> row_matches r a \<longrightarrow> fr_prefix r < 32"
  shows "longest_match rows a r \<Longrightarrow> fr_luid r \<noteq> tunnel"
  using assms by (auto simp: longest_match_def not_less [symmetric])

section \<open>Global routing\<close>

abbreviation (input) tunnels_everything :: "TunnelConfig \<Rightarrow> bool" where
  "tunnels_everything config \<equiv> tc_client_routing_mode config = Route_Global \<or> tc_enable_global_default_route config"

abbreviation (input) local_endpoint :: "TunnelConfig \<Rightarrow> bool" where
  "local_endpoint config \<equiv> tc_endpoint config = ''127.0.0.1'' \<or> tc_endpoint config = ''localhost''"

text \<open>The rows a successful global routing adds.\<close>

lemma bypass_rows_added:
  assumes ok: "forward_api_ok api tbl" and host: "host \<noteq> ''127.0.0.1''" "host \<noteq> ''localhost''"
    and run: "apply_endpoint_bypass_route api host luid nc w = (None, nc', w')"
  obtains v4 d rest w0 best where "na_getaddrinfo api host w = ((v4, d) # rest, w0)" and "bypass_candidate luid best"
    and "tbl w' = insert (fill_ipv4_forward_row (fr_luid best) d 32 (fr_next_hop best)) (tbl w)"
proof -
  obtain as w1 where g: "na_getaddrinfo api host w = (as, w1)" by fastforce
  obtain tab w2 where t: "na_get_forward_table api w1 = (tab, w2)" by fastforce
  have "as \<noteq> []" using run host g by (auto simp: apply_endpoint_bypass_route_def Let_def split: if_splits)
  then obtain v4 d rest where as: "as = (v4, d) # rest" by (metis list.exhaust prod.exhaust)
  then obtain table where tab: "tab = Inr table"
    using run host g t by (cases tab) (auto simp: apply_endpoint_bypass_route_def Let_def split: if_splits)
  then obtain best where best: "best_default_route luid None table = Some best"
    using run host g t as by (cases "best_default_route luid None table")
      (auto simp: apply_endpoint_bypass_route_def Let_def split: if_splits)
  obtain st w3 where c: "na_create_forward api (fill_ipv4_forward_row (fr_luid best) d 32 (fr_next_hop best)) w2 = (st, w3)" by fastforce
  have st: "st = NO_ERROR \<or> st = ERROR_OBJECT_ALREADY_EXISTS" "w' = w3"
    using run host g t as tab best c by (auto simp: apply_endpoint_bypass_route_def Let_def split: if_splits)
  have "bypass_candidate luid best" using best_default_route_spec [of luid None table] best by simp
  moreover have "tbl w2 = tbl w" using forward_api_okD(4) [OF ok g] forward_api_okD(5) [OF ok t] by simp
  ultimately show ?thesis using that g as created_or_existing [OF ok c st(1)] st(2) by simp
qed

lemma default_row_added:
  assumes ok: "forward_api_ok api tbl" and run: "apply_global_default_route api luid gw nc w = (None, nc', w')"
  obtains g where "parse_ipv4 api gw = Inr g" and "tbl w' = insert (fill_ipv4_forward_row luid 0 0 g) (tbl w)"
  using run created_or_existing [OF ok]
  by (auto simp: apply_global_default_route_def Let_def split: if_splits sum.splits prod.splits)

lemma global_routing_rows:
  assumes ok: "forward_api_ok (ws_net sys) tbl" and "tunnels_everything config" and "\<not> local_endpoint config"
    and run: "wintun_apply_client_routing sys config wi w = (None, wi', w')"
  obtains v4 d rest w0 best g where "na_getaddrinfo (ws_net sys) (tc_endpoint config) w = ((v4, d) # rest, w0)"
    and "bypass_candidate (adapter_luid_value sys wi w) best"
    and "parse_ipv4 (ws_net sys) (tc_default_route_gateway config) = Inr g"
    and "tbl w' = insert (fill_ipv4_forward_row (adapter_luid_value sys wi w) 0 0 g)
      (insert (fill_ipv4_forward_row (fr_luid best) d 32 (fr_next_hop best)) (tbl w))"
proof -
  let ?l = "adapter_luid_value sys wi w"
  obtain r1 nc1 w1 where b: "apply_endpoint_bypass_route (ws_net sys) (tc_endpoint config) ?l (wi_net_config wi) w = (r1, nc1, w1)"
    by (metis prod_cases3)
  obtain r2 nc2 w2 where d: "apply_global_default_route (ws_net sys) ?l (tc_default_route_gateway config) nc1 w1 = (r2, nc2, w2)"
    by (metis prod_cases3)
  have r: "r1 = None" "r2 = None" "w' = w2"
    using run b d assms(2) by (auto simp: wintun_apply_client_routing_def Let_def split: if_splits option.splits prod.splits)
  obtain v4 a rest w0 best where bypass: "na_getaddrinfo (ws_net sys) (tc_endpoint config) w = ((v4, a) # rest, w0)"
      "bypass_candidate ?l best" "tbl w1 = insert (fill_ipv4_forward_row (fr_luid best) a 32 (fr_next_hop best)) (tbl w)"
    by (rule bypass_rows_added [OF ok _ _ b [unfolded r]]) (use assms(3) in auto)
  obtain g where "parse_ipv4 (ws_net sys) (tc_default_route_gateway config) = Inr g" "tbl w2 = insert (fill_ipv4_forward_row ?l 0 0 g) (tbl w1)"
    by (rule default_row_added [OF ok d [unfolded r]])
  with bypass r show ?thesis using that by simp
qed

section \<open>Properties\<close>

text \<open>
  C12. The tunnel does not swallow its own packets: when routing everything through the tunnel
  succeeds for a server that is not the local host, the default route through the tunnel is
  in the forwarding table together with a host route for the server's address through a
  gateway of another interface, and every longest match for that address leaves by another
  interface, unless a host route for it into the tunnel existed before.
\<close>

theorem global_routing_spares_endpoint:
  assumes "forward_api_ok (ws_net sys) tbl" and "tc_client_routing_mode config = Route_Global \<or> tc_enable_global_default_route config"
    and "tc_endpoint config \<noteq> ''127.0.0.1''" and "tc_endpoint config \<noteq> ''localhost''"
    and "wintun_apply_client_routing sys config wi w = (None, wi', w')"
    and "na_getaddrinfo (ws_net sys) (tc_endpoint config) w = ((v4, server) # rest, w0)"
    and "\<forall>r \<in> tbl w. fr_luid r = adapter_luid_value sys wi w \<and> row_matches r server \<longrightarrow> fr_prefix r < 32"
  shows "(\<exists>gateway. fill_ipv4_forward_row (adapter_luid_value sys wi w) 0 0 gateway \<in> tbl w') \<and>
    (\<exists>r \<in> tbl w'. row_matches r server \<and> fr_prefix r = 32 \<and> fr_luid r \<noteq> adapter_luid_value sys wi w \<and> fr_next_hop r \<noteq> 0) \<and>
    (\<forall>r. longest_match (tbl w') server r \<longrightarrow> fr_luid r \<noteq> adapter_luid_value sys wi w)"
proof -
  let ?l = "adapter_luid_value sys wi w"
  obtain v d rest' w1 best g where rows: "na_getaddrinfo (ws_net sys) (tc_endpoint config) w = ((v, d) # rest', w1)"
      "bypass_candidate ?l best" "parse_ipv4 (ws_net sys) (tc_default_route_gateway config) = Inr g"
      "tbl w' = insert (fill_ipv4_forward_row ?l 0 0 g) (insert (fill_ipv4_forward_row (fr_luid best) d 32 (fr_next_hop best)) (tbl w))"
    by (rule global_routing_rows [OF assms(1,2) _ assms(5)]) (use assms(3,4) in auto)
  let ?h = "fill_ipv4_forward_row (fr_luid best) server 32 (fr_next_hop best)"
  have d: "d = server" using rows(1) assms(6) by simp
  have h: "?h \<in> tbl w'" "row_matches ?h server" "fr_prefix ?h = 32" "fr_luid ?h \<noteq> ?l" "fr_next_hop ?h \<noteq> 0"
    using rows(2,4) d by (auto simp: row_matches_def masked_network_def fill_ipv4_forward_row_def bypass_candidate_def)
  have "\<forall>r \<in> tbl w'. fr_luid r = ?l \<and> row_matches r server \<longrightarrow> fr_prefix r < 32"
    using rows(2,4) assms(7) by (auto simp: fill_ipv4_forward_row_def bypass_candidate_def)
  from host_route_wins [OF h(1-3) this] h rows(4) show ?thesis by blast
qed

definition open_wintun :: WintunVirtualInterface where
  "open_wintun = client_wintun\<lparr>wi_adapter := Some 2, wi_session := Some 3, wi_loader := new_loader\<lparr>wl_pointers := (\<lambda>_. Some 1)\<rparr>\<rparr>"

lemma open_wintun_routes:
  "adapter_luid_value route_system open_wintun w = 7"
  "na_getaddrinfo (ws_net route_system) (tc_endpoint global_config) (5, [uplink]) = ((True, 0xCB00710A) # [], (5, [uplink]))"
  "\<exists>wi' w'. wintun_apply_client_routing route_system global_config open_wintun (5, [uplink]) = (None, wi', w')"
proof -
  show l: "adapter_luid_value route_system open_wintun w = 7" for w
    by (simp add: adapter_luid_value_def open_wintun_def route_system_def sample_driver_def)
  have p: "dotted_pton ''203.0.113.10'' = Some 0xCB00710A" "dotted_pton ''10.66.66.1'' = Some 0x0A424201"
    by (simp_all add: dotted_pton_def parse_octet_def)
  show a: "na_getaddrinfo (ws_net route_system) (tc_endpoint global_config) (5, [uplink]) = ((True, 0xCB00710A) # [], (5, [uplink]))"
    by (simp add: route_system_def sample_route_api_def sample_api_def on_table_def global_config_def p)
  have opened: "wintun_is_open open_wintun" by (simp add: wintun_is_open_def open_wintun_def)
  have net: "ws_net route_system = sample_route_api" by (simp add: route_system_def)
  have mode: "tc_client_routing_mode global_config = Route_Global" "tc_endpoint global_config = ''203.0.113.10''"
    "tc_default_route_gateway global_config = ''10.66.66.1''" by (simp_all add: global_config_def default_config_def)
  show "\<exists>wi' w'. wintun_apply_client_routing route_system global_config open_wintun (5, [uplink]) = (None, wi', w')"
    by (simp add: wintun_apply_client_routing_def opened mode l apply_endpoint_bypass_route_def apply_global_default_route_def
        parse_ipv4_def net sample_route_api_def sample_api_def on_table_def p uplink_def fill_ipv4_forward_row_def
        bypass_candidate_def Let_def)
qed

theorem global_routing_spares_endpoint_witness:
  "\<exists>wi' w'. wintun_apply_client_routing route_system global_config open_wintun (5, [uplink]) = (None, wi', w') \<and>
    (\<exists>gateway. fill_ipv4_forward_row 7 0 0 gateway \<in> set (snd w')) \<and>
    (\<forall>r. longest_match (set (snd w')) 0xCB00710A r \<longrightarrow> fr_luid r \<noteq> 7)"
proof -
  obtain wi' w' where run: "wintun_apply_client_routing route_system global_config open_wintun (5, [uplink]) = (None, wi', w')"
    using open_wintun_routes(3) by blast
  have ok: "forward_api_ok (ws_net route_system) (set \<circ> snd)" using route_system_ok by (simp add: system_routes_ok_def)
  have "\<forall>r \<in> (set \<circ> snd) (5 :: nat, [uplink]). fr_luid r = adapter_luid_value route_system open_wintun (5, [uplink]) \<and> row_matches r 0xCB00710A \<longrightarrow> fr_prefix r < 32"
    by (simp add: uplink_def fill_ipv4_forward_row_def)
  from global_routing_spares_endpoint [OF ok _ _ _ run open_wintun_routes(2) this] run show ?thesis
    by (auto simp: open_wintun_routes(1) global_config_def)
qed

end
