(* ===== verification/Console.thy ===== *)
theory Console
  imports Prelude
begin

text \<open>
  The console output of \<^verbatim>\<open>src/console_utf8.cpp\<close> on Windows: the stream buffer that collects UTF-8
  text and writes it by lines, and its installation in and removal from the standard streams.

  \<open>MultiByteToWideChar\<close> and \<open>GetConsoleMode\<close> are parameters; what is written is the list of
  write calls, their results being ignored by the code. On other systems the two functions
  leave the streams alone.
\<close>

section \<open>Writing\<close>

datatype console_write =
    WriteConsoleW nat "u16 list"
  | WriteFile nat string

text \<open>\<open>co_decode\<close> is \<open>None\<close> for text that is not valid UTF-8 (the strict call returns 0).\<close>

record console_api =
  co_is_console :: "nat \<Rightarrow> bool"
  co_decode :: "string \<Rightarrow> u16 list option"

text \<open>A handle is \<open>None\<close> when it is null or \<open>INVALID_HANDLE_VALUE\<close>.\<close>

definition write_utf8_to_handle :: "console_api \<Rightarrow> nat option \<Rightarrow> string \<Rightarrow> console_write list \<Rightarrow> console_write list" where
  "write_utf8_to_handle api handle txt writes =
     (case handle of
        None \<Rightarrow> writes
      | Some h \<Rightarrow>
          if txt = [] then writes
          else if co_is_console api h
          then (case co_decode api txt of
                  None \<Rightarrow> writes
                | Some wide \<Rightarrow> if wide = [] then writes else writes @ [WriteConsoleW h wide])
          else writes @ [WriteFile h txt])"

section \<open>The stream buffer\<close>

record Utf8ConsoleStreambuf =
  sb_handle :: "nat option"
  sb_buffer :: string

definition flush_buffer ::
  "console_api \<Rightarrow> Utf8ConsoleStreambuf \<Rightarrow> console_write list \<Rightarrow> Utf8ConsoleStreambuf \<times> console_write list" where
  "flush_buffer api sb writes =
     (if sb_buffer sb = [] then (sb, writes)
      else (sb\<lparr>sb_buffer := []\<rparr>, write_utf8_to_handle api (sb_handle sb) (sb_buffer sb) writes))"

definition sync_buffer ::
  "console_api \<Rightarrow> Utf8ConsoleStreambuf \<Rightarrow> console_write list \<Rightarrow> int \<times> Utf8ConsoleStreambuf \<times> console_write list" where
  "sync_buffer api sb writes = (0, flush_buffer api sb writes)"

text \<open>\<open>overflow\<close>; the argument is a character or \<open>EOF\<close> (\<open>None\<close>), and so is the result.\<close>

definition overflow_char ::
  "console_api \<Rightarrow> char option \<Rightarrow> Utf8ConsoleStreambuf \<Rightarrow> console_write list \<Rightarrow>
   char option \<times> Utf8ConsoleStreambuf \<times> console_write list" where
  "overflow_char api character sb writes =
     (case character of
        None \<Rightarrow> (None, sb, writes)
      | Some c \<Rightarrow>
          (let sb1 = sb\<lparr>sb_buffer := sb_buffer sb @ [c]\<rparr> in
           if c = CHR 0x0A
           then (case sync_buffer api sb1 writes of (_, sb2, writes2) \<Rightarrow> (Some c, sb2, writes2))
           else (Some c, sb1, writes)))"

section \<open>The standard streams\<close>

text \<open>The buffer a stream uses: one given by the system, or one of the two of \<open>ConsoleState\<close>.\<close>

datatype rdbuf = System_Buffer nat | Stdout_Buf | Stderr_Buf

record ConsoleState =
  cs_original_stdout :: "rdbuf option"
  cs_original_stderr :: "rdbuf option"
  cs_stdout_buf :: "Utf8ConsoleStreambuf option"
  cs_stderr_buf :: "Utf8ConsoleStreambuf option"
  cs_installed :: bool

definition new_console_state :: ConsoleState where
  "new_console_state =
     \<lparr>cs_original_stdout = None, cs_original_stderr = None, cs_stdout_buf = None, cs_stderr_buf = None,
      cs_installed = False\<rparr>"

text \<open>The process: the static state, the buffers of \<open>cout\<close>, \<open>cerr\<close> and \<open>clog\<close>, the code pages and
  what has been written.\<close>

record console_process =
  cp_state :: ConsoleState
  cp_cout :: rdbuf
  cp_cerr :: rdbuf
  cp_clog :: rdbuf
  cp_output_cp :: nat
  cp_input_cp :: nat
  cp_writes :: "console_write list"

abbreviation (input) CP_UTF8 :: nat where "CP_UTF8 \<equiv> 65001"

definition init_console_utf8 :: "platform \<Rightarrow> nat option \<Rightarrow> nat option \<Rightarrow> console_process \<Rightarrow> console_process" where
  "init_console_utf8 plat stdout_handle stderr_handle p =
     (case plat of
        Posix \<Rightarrow> p
      | Windows \<Rightarrow>
          if cs_installed (cp_state p) then p
          else
            p\<lparr>cp_output_cp := CP_UTF8, cp_input_cp := CP_UTF8,
              cp_state :=
                \<lparr>cs_original_stdout = Some (cp_cout p), cs_original_stderr = Some (cp_cerr p),
                 cs_stdout_buf = Some \<lparr>sb_handle = stdout_handle, sb_buffer = []\<rparr>,
                 cs_stderr_buf = Some \<lparr>sb_handle = stderr_handle, sb_buffer = []\<rparr>,
                 cs_installed = True\<rparr>,
              cp_cout := Stdout_Buf, cp_cerr := Stderr_Buf, cp_clog := Stderr_Buf\<rparr>)"

text \<open>\<open>stream.flush()\<close> calls \<open>sync\<close> of the buffer in use; a system buffer is not modelled further.\<close>

definition flush_stream :: "console_api \<Rightarrow> rdbuf \<Rightarrow> console_process \<Rightarrow> console_process" where
  "flush_stream api b p =
     (case b of
        System_Buffer _ \<Rightarrow> p
      | Stdout_Buf \<Rightarrow>
          (case cs_stdout_buf (cp_state p) of
             None \<Rightarrow> p
           | Some sb \<Rightarrow>
               (case flush_buffer api sb (cp_writes p) of (sb', writes) \<Rightarrow>
                  p\<lparr>cp_state := (cp_state p)\<lparr>cs_stdout_buf := Some sb'\<rparr>, cp_writes := writes\<rparr>))
      | Stderr_Buf \<Rightarrow>
          (case cs_stderr_buf (cp_state p) of
             None \<Rightarrow> p
           | Some sb \<Rightarrow>
               (case flush_buffer api sb (cp_writes p) of (sb', writes) \<Rightarrow>
                  p\<lparr>cp_state := (cp_state p)\<lparr>cs_stderr_buf := Some sb'\<rparr>, cp_writes := writes\<rparr>)))"

definition restore_console :: "platform \<Rightarrow> console_api \<Rightarrow> console_process \<Rightarrow> console_process" where
  "restore_console plat api p0 =
     (case plat of
        Posix \<Rightarrow> p0
      | Windows \<Rightarrow>
          (let p1 = flush_stream api (cp_cout p0) p0;
               p2 = flush_stream api (cp_cerr p1) p1;
               p3 = flush_stream api (cp_clog p2) p2;
               p4 = (case cs_original_stdout (cp_state p3) of None \<Rightarrow> p3 | Some b \<Rightarrow> p3\<lparr>cp_cout := b\<rparr>);
               p5 = (case cs_original_stderr (cp_state p4) of None \<Rightarrow> p4 | Some b \<Rightarrow> p4\<lparr>cp_cerr := b, cp_clog := b\<rparr>)
           in p5\<lparr>cp_state := \<lparr>cs_original_stdout = None, cs_original_stderr = None, cs_stdout_buf = None,
                              cs_stderr_buf = None, cs_installed = False\<rparr>\<rparr>))"

section \<open>Text through the buffer: lemmas\<close>

text \<open>Characters put into the buffer one by one, and a final flush.\<close>

definition put_char ::
  "console_api \<Rightarrow> char \<Rightarrow> Utf8ConsoleStreambuf \<times> console_write list \<Rightarrow> Utf8ConsoleStreambuf \<times> console_write list" where
  "put_char api c s = snd (overflow_char api (Some c) (fst s) (snd s))"

definition put_text ::
  "console_api \<Rightarrow> string \<Rightarrow> Utf8ConsoleStreambuf \<times> console_write list \<Rightarrow> Utf8ConsoleStreambuf \<times> console_write list" where
  "put_text api cs s = (case fold (put_char api) cs s of (sb, writes) \<Rightarrow> flush_buffer api sb writes)"

text \<open>The reference: the text cut behind every line feed.\<close>

fun cut_lines :: "string \<Rightarrow> string \<Rightarrow> string list" where
  "cut_lines line [] = (if line = [] then [] else [line])"
| "cut_lines line (c # cs) =
     (if c = CHR 0x0A then (line @ [c]) # cut_lines [] cs else cut_lines (line @ [c]) cs)"

lemma concat_cut_lines: "concat (cut_lines line cs) = line @ cs"
  by (induction line cs rule: cut_lines.induct) auto

lemma put_text_lines:
  "put_text api cs (\<lparr>sb_handle = h, sb_buffer = line\<rparr>, writes) =
     (\<lparr>sb_handle = h, sb_buffer = []\<rparr>, fold (write_utf8_to_handle api h) (cut_lines line cs) writes)"
proof (induction cs arbitrary: line writes)
  case Nil
  then show ?case by (simp add: put_text_def flush_buffer_def)
next
  case (Cons c cs)
  let ?s1 = "(\<lparr>sb_handle = h, sb_buffer = line @ [c]\<rparr>, writes)"
  let ?s2 = "(\<lparr>sb_handle = h, sb_buffer = []\<rparr>, write_utf8_to_handle api h (line @ [c]) writes)"
  have "put_char api c (\<lparr>sb_handle = h, sb_buffer = line\<rparr>, writes) = (if c = CHR 0x0A then ?s2 else ?s1)"
    by (simp add: put_char_def overflow_char_def sync_buffer_def flush_buffer_def)
  then have "put_text api (c # cs) (\<lparr>sb_handle = h, sb_buffer = line\<rparr>, writes) =
      put_text api cs (if c = CHR 0x0A then ?s2 else ?s1)"
    by (simp add: put_text_def)
  then show ?case using Cons.IH [of "[]"] Cons.IH [of "line @ [c]"] by simp
qed

lemma write_fold:
  "fold (write_utf8_to_handle api h) ls writes =
     writes @ concat (map (\<lambda>l. write_utf8_to_handle api h l []) ls)"
proof (induction ls arbitrary: writes)
  case (Cons l ls)
  have "write_utf8_to_handle api h l writes = writes @ write_utf8_to_handle api h l []"
    by (simp add: write_utf8_to_handle_def split: option.splits)
  with Cons show ?case by simp
qed simp

text \<open>Removing the buffers gives \<open>cout\<close> and \<open>cerr\<close> back what they had before.\<close>

lemma flush_stream_frame [simp]:
  "cp_cout (flush_stream api b p) = cp_cout p" "cp_cerr (flush_stream api b p) = cp_cerr p"
  "cs_original_stdout (cp_state (flush_stream api b p)) = cs_original_stdout (cp_state p)"
  "cs_original_stderr (cp_state (flush_stream api b p)) = cs_original_stderr (cp_state p)"
  by (simp_all add: flush_stream_def split: rdbuf.splits option.splits prod.splits)

lemma init_restore_streams:
  assumes "\<not> cs_installed (cp_state p)"
  shows "(let q = restore_console plat api (init_console_utf8 plat out err p) in
     cp_cout q = cp_cout p \<and> cp_cerr q = cp_cerr p \<and> \<not> cs_installed (cp_state q))"
  using assms by (cases plat) (simp_all add: init_console_utf8_def restore_console_def Let_def)

section \<open>Properties\<close>


end
