(* ===== verification/Engine_Routes.thy ===== *)
theory Engine_Routes
  imports Engine_Frame Wintun_Interface
begin

text \<open>
  The engine together with the Wintun interface: whatever the engine does, \<open>stop\<close> leaves no
  route in the forwarding table that was not there before. Here the engine matters: applying
  routes twice would lose track of the first ones, and only the engine's own order of calls
  excludes it.
\<close>

section \<open>Calls that add no route\<close>

text \<open>
  \<open>tbl\<close> observes the rows of the forwarding table other than those the system itself keeps for
  the address of an adapter. Loading the driver, opening and closing adapters and sessions
  and setting addresses add no such row; closing an adapter may drop rows.
\<close>

definition session_shrinks :: "'w wintun_system \<Rightarrow> ('w \<Rightarrow> forward_row set) \<Rightarrow> bool" where
  "session_shrinks sys tbl \<longleftrightarrow>
     (\<forall>p w. tbl (snd (wa_load_library (ws_wintun sys) p w)) \<subseteq> tbl w) \<and>
     (\<forall>m w. tbl (wa_free_library (ws_wintun sys) m w) \<subseteq> tbl w) \<and>
     (\<forall>n w. tbl (snd (wa_open_adapter (ws_wintun sys) n w)) \<subseteq> tbl w) \<and>
     (\<forall>n k w. tbl (snd (wa_create_adapter (ws_wintun sys) n k w)) \<subseteq> tbl w) \<and>
     (\<forall>a w. tbl (wa_close_adapter (ws_wintun sys) a w) \<subseteq> tbl w) \<and>
     (\<forall>a c w. tbl (snd (wa_start_session (ws_wintun sys) a c w)) \<subseteq> tbl w) \<and>
     (\<forall>s w. tbl (wa_end_session (ws_wintun sys) s w) \<subseteq> tbl w) \<and>
     (\<forall>luid ip len w. tbl (snd (na_create_unicast (ws_net sys) luid ip len w)) \<subseteq> tbl w) \<and>
     (\<forall>luid ip len w. tbl (snd (na_delete_unicast (ws_net sys) luid ip len w)) \<subseteq> tbl w) \<and>
     (\<forall>w. tbl (snd (na_load_iphlpapi (ws_net sys) w)) \<subseteq> tbl w) \<and>
     (\<forall>guid dns w. tbl (snd (na_set_dns (ws_net sys) guid dns w)) \<subseteq> tbl w)"

lemma session_shrinksD:
  assumes "session_shrinks sys tbl"
  shows "wa_load_library (ws_wintun sys) p w = (m1, w') \<Longrightarrow> tbl w' \<subseteq> tbl w"
    and "tbl (wa_free_library (ws_wintun sys) m w) \<subseteq> tbl w"
    and "wa_open_adapter (ws_wintun sys) n w = (m1, w') \<Longrightarrow> tbl w' \<subseteq> tbl w"
    and "wa_create_adapter (ws_wintun sys) n k w = (m1, w') \<Longrightarrow> tbl w' \<subseteq> tbl w"
    and "tbl (wa_close_adapter (ws_wintun sys) a w) \<subseteq> tbl w"
    and "wa_start_session (ws_wintun sys) a c w = (m1, w') \<Longrightarrow> tbl w' \<subseteq> tbl w"
    and "tbl (wa_end_session (ws_wintun sys) s w) \<subseteq> tbl w"
    and "na_create_unicast (ws_net sys) luid ip len w = (st, w') \<Longrightarrow> tbl w' \<subseteq> tbl w"
    and "na_delete_unicast (ws_net sys) luid ip len w = (st, w') \<Longrightarrow> tbl w' \<subseteq> tbl w"
    and "na_load_iphlpapi (ws_net sys) w = (ok, w') \<Longrightarrow> tbl w' \<subseteq> tbl w"
    and "na_set_dns (ws_net sys) guid dns w = (st, w') \<Longrightarrow> tbl w' \<subseteq> tbl w"
  using assms unfolding session_shrinks_def by (metis snd_conv)+

text \<open>Setting an address does not change what the configurator records of routes.\<close>

definition same_routes :: "WindowsNetConfigurator \<Rightarrow> WindowsNetConfigurator \<Rightarrow> bool" where
  "same_routes nc nc' \<longleftrightarrow>
     nc_bypass_applied nc' = nc_bypass_applied nc \<and> nc_default_applied nc' = nc_default_applied nc \<and>
     nc_selective nc' = nc_selective nc"

lemma same_routes_reset [simp]: "same_routes (nc\<lparr>nc_last_error := e\<rparr>) nc' \<longleftrightarrow> same_routes nc nc'"
  by (simp add: same_routes_def)

lemma apply_dns_shrinks:
  assumes ok: "session_shrinks sys tbl" and run: "apply_dns (ws_net sys) luid dns nc w = (r, nc', w')"
  shows "same_routes nc nc' \<and> tbl w' \<subseteq> tbl w"
proof -
  have "same_routes nc nc'"
    using run by (auto simp: apply_dns_def same_routes_def Let_def split: sum.splits prod.splits if_splits)
  moreover have "w' = w \<or> (\<exists>b. na_load_iphlpapi (ws_net sys) w = (b, w')) \<or>
      (\<exists>g d st. na_set_dns (ws_net sys) g d w = (st, w')) \<or>
      (\<exists>b v g d st. na_load_iphlpapi (ws_net sys) w = (b, v) \<and> na_set_dns (ws_net sys) g d v = (st, w'))"
    using run by (fastforce simp: apply_dns_def Let_def split: sum.splits prod.splits if_splits)
  ultimately show ?thesis using session_shrinksD(10,11) [OF ok] by blast
qed

lemma apply_ipv4_shrinks:
  assumes ok: "session_shrinks sys tbl" and run: "apply_ipv4 (ws_net sys) luid c nc w = (r, nc', w')"
  shows "same_routes nc nc' \<and> tbl w' \<subseteq> tbl w"
proof -
  let ?nc = "nc\<lparr>nc_last_error := None\<rparr>"
  have "(same_routes nc nc' \<and> w' = w) \<or>
      (\<exists>ip len st v. na_create_unicast (ws_net sys) luid ip len w = (st, v) \<and>
         ((same_routes nc nc' \<and> w' = v) \<or> (\<exists>d b. apply_dns (ws_net sys) luid d ?nc v = (b, nc', w'))))"
    using run by (auto simp: apply_ipv4_def same_routes_def Let_def split: sum.splits prod.splits if_splits) blast+
  then show ?thesis by (auto dest!: session_shrinksD(8) [OF ok] apply_dns_shrinks [OF ok])
qed

lemma clear_address_shrinks:
  assumes ok: "session_shrinks sys tbl"
  shows "clear_ipv4 (ws_net sys) luid c nc w = (r, nc', w') \<Longrightarrow> same_routes nc nc' \<and> tbl w' \<subseteq> tbl w"
    and "clear_dns (ws_net sys) luid nc w = (r, nc', w') \<Longrightarrow> same_routes nc nc' \<and> tbl w' \<subseteq> tbl w"
  using session_shrinksD(9,11) [OF ok]
  by (auto simp: clear_ipv4_def clear_dns_def same_routes_def Let_def split: sum.splits prod.splits if_splits)

section \<open>An interface with no routes\<close>

text \<open>No routing is applied and nothing recorded, and the table has no rows beyond \<open>T\<close>.\<close>

definition idle_routes ::
  "('w \<Rightarrow> forward_row set) \<Rightarrow> forward_row set \<Rightarrow> WintunVirtualInterface \<times> 'w \<Rightarrow> bool" where
  "idle_routes tbl T s \<longleftrightarrow> \<not> wi_client_routes_applied (fst s) \<and> no_routes_recorded (fst s) \<and> tbl (snd s) \<subseteq> T"

lemma idle_routing_inv: "idle_routes tbl T s \<Longrightarrow> routing_inv sys tbl T s"
  by (auto simp: idle_routes_def routing_inv_def no_routes_recorded_def routes_tracked_def recorded_defs)

lemma idle_transfer:
  assumes "idle_routes tbl T (wi, w)" and "wi_client_routes_applied wi' = wi_client_routes_applied wi"
    and "wi_route_manager wi' = wi_route_manager wi" and "same_routes (wi_net_config wi) (wi_net_config wi')"
    and "tbl w' \<subseteq> tbl w"
  shows "idle_routes tbl T (wi', w')"
  using assms by (auto simp: idle_routes_def no_routes_recorded_def same_routes_def)

lemma unload_shrinks:
  "session_shrinks sys tbl \<Longrightarrow> unload (ws_wintun sys) l w = (l', w') \<Longrightarrow> tbl w' \<subseteq> tbl w"
  by (auto simp: unload_def Let_def split: option.splits dest: session_shrinksD(2))

lemma load_first_shrinks:
  assumes "session_shrinks sys tbl"
  shows "load_first (ws_wintun sys) cs w = (m, w') \<Longrightarrow> tbl w' \<subseteq> tbl w"
proof (induction cs arbitrary: w)
  case (Cons c cs)
  then show ?case
    using session_shrinksD(1) [OF assms, of c w] by (auto split: if_splits prod.splits option.splits)
qed simp

lemma load_shrinks:
  assumes ok: "session_shrinks sys tbl" and run: "load_wintun (ws_wintun sys) path l w = (loaded, l', w')"
  shows "tbl w' \<subseteq> tbl w"
proof -
  obtain l0 w0 where u: "unload (ws_wintun sys) l w = (l0, w0)" by fastforce
  obtain m w1 where f: "load_first (ws_wintun sys) (dll_candidates (ws_wintun sys) path) w0 = (m, w1)" by fastforce
  have "w' = w1 \<or> (\<exists>k. w' = wa_free_library (ws_wintun sys) k w1)"
    using run u f by (auto simp: load_wintun_def split: option.splits prod.splits if_splits)
  with unload_shrinks [OF ok u] load_first_shrinks [OF ok f] session_shrinksD(2) [OF ok, of _ w1] show ?thesis by blast
qed

lemma clear_network_idle:
  assumes routes: "system_routes_ok sys tbl" and ok: "session_shrinks sys tbl" and inv: "routing_inv sys tbl T (wi, w)"
    and run: "clear_network_config sys wi w = (wi', w')"
  shows "idle_routes tbl T (wi', w')"
proof -
  obtain wi1 w1 where c: "wintun_clear_client_routes sys wi w = (wi1, w1)" by fastforce
  have i1: "idle_routes tbl T (wi1, w1)" using clear_routing_inv [OF routes inv c] by (simp add: idle_routes_def)
  let ?luid = "adapter_luid_value sys wi1 w1" and ?nc = "wi_net_config wi1"
  obtain r2 nc2 w2 where a: "clear_ipv4 (ws_net sys) ?luid (wi_ipv4_config wi1) ?nc w1 = (r2, nc2, w2)" by (metis prod_cases3)
  obtain r3 nc3 w3 where d: "clear_dns (ws_net sys) ?luid nc2 w2 = (r3, nc3, w3)" by (metis prod_cases3)
  have s: "same_routes ?nc nc2 \<and> tbl w2 \<subseteq> tbl w1" "same_routes ?nc nc3 \<and> tbl w3 \<subseteq> tbl w1"
    using clear_address_shrinks(1) [OF ok a] clear_address_shrinks(2) [OF ok d] by (auto simp: same_routes_def)
  have "(wi', w') \<in> {(wi1, w1), (wi1\<lparr>wi_network_applied := False\<rparr>, w1), (wi1\<lparr>wi_net_config := nc2, wi_network_applied := False\<rparr>, w2),
      (wi1\<lparr>wi_net_config := nc3, wi_network_applied := False\<rparr>, w3)}"
    using run c a d by (auto simp: clear_network_config_def Let_def split: if_splits)
  then show ?thesis using i1 s by (auto intro: idle_transfer [OF i1] simp: same_routes_def)
qed

lemma wintun_close_idle:
  assumes routes: "system_routes_ok sys tbl" and ok: "session_shrinks sys tbl" and inv: "routing_inv sys tbl T (wi, w)"
    and run: "wintun_close sys wi w = (wi', w')"
  shows "idle_routes tbl T (wi', w')"
proof -
  obtain wi1 w1 where c: "clear_network_config sys wi w = (wi1, w1)" by fastforce
  note i1 = clear_network_idle [OF routes ok inv c]
  let ?drop = "\<lambda>wi'. wi_client_routes_applied wi' = wi_client_routes_applied wi1 \<and>
    wi_route_manager wi' = wi_route_manager wi1 \<and> wi_net_config wi' = wi_net_config wi1"
  obtain wi2 w2 where s: "(case wi_session wi1 of
       Some s \<Rightarrow> if has_export wi1 WintunEndSession
                 then (wi1\<lparr>wi_session := None\<rparr>, wa_end_session (ws_wintun sys) s w1) else (wi1, w1)
     | None \<Rightarrow> (wi1, w1)) = (wi2, w2)" by (meson surj_pair)
  then have k2: "?drop wi2" "tbl w2 \<subseteq> tbl w1"
    using session_shrinksD(7) [OF ok, of _ w1] by (auto split: option.splits if_splits)
  obtain wi3 w3 where a: "(case wi_adapter wi2 of
       Some a \<Rightarrow> if has_export wi2 WintunCloseAdapter
                 then (wi2\<lparr>wi_adapter := None\<rparr>, wa_close_adapter (ws_wintun sys) a w2) else (wi2, w2)
     | None \<Rightarrow> (wi2, w2)) = (wi3, w3)" by (meson surj_pair)
  then have k3: "?drop wi3" "tbl w3 \<subseteq> tbl w2"
    using k2(1) session_shrinksD(5) [OF ok, of _ w2] by (auto split: option.splits if_splits)
  obtain l w4 where u: "unload (ws_wintun sys) (wi_loader wi3) w3 = (l, w4)" by fastforce
  have "wi' = wi3\<lparr>wi_mtu := 0, wi_loader := l\<rparr>" "w' = w4"
    using run c s a u by (simp_all add: wintun_close_def Let_def)
  moreover have "tbl w4 \<subseteq> tbl w1" using unload_shrinks [OF ok u] k2(2) k3(2) by blast
  ultimately show ?thesis using k3(1) by (intro idle_transfer [OF i1]) (simp_all add: same_routes_def)
qed

lemma wintun_destroy_idle:
  assumes routes: "system_routes_ok sys tbl" and ok: "session_shrinks sys tbl" and inv: "routing_inv sys tbl T (wi, w)"
    and run: "wintun_destroy sys wi w = (wi', w')"
  shows "idle_routes tbl T (wi', w')"
proof -
  obtain wi1 w1 where c: "wintun_close sys wi w = (wi1, w1)" by fastforce
  note i1 = wintun_close_idle [OF routes ok inv c]
  obtain l w2 where u: "unload (ws_wintun sys) (wi_loader wi1) w1 = (l, w2)" by fastforce
  have "wi' = wi1\<lparr>wi_route_manager := stop_routes (wi_route_manager wi1), wi_loader := l\<rparr>" "w' = w2"
    using run c u by (simp_all add: wintun_destroy_def Let_def)
  with i1 unload_shrinks [OF ok u] show ?thesis
    by (auto simp: idle_routes_def no_routes_recorded_def stop_routes_def)
qed

lemma apply_network_idle:
  assumes ok: "session_shrinks sys tbl" and i: "idle_routes tbl T (wi, w)"
    and run: "apply_network_config sys wi w = (r, wi', w')"
  shows "idle_routes tbl T (wi', w')"
proof -
  obtain b nc w1 where a: "apply_ipv4 (ws_net sys) (adapter_luid_value sys wi w) (wi_ipv4_config wi) (wi_net_config wi) w = (b, nc, w1)"
    by (metis prod_cases3)
  note s = apply_ipv4_shrinks [OF ok a]
  have "w' = w \<and> (wi' = wi \<or> (\<exists>x. wi' = wi\<lparr>wi_last_error := x\<rparr>)) \<or>
      w' = w1 \<and> (\<exists>x. wi' = wi\<lparr>wi_net_config := nc, wi_last_error := x\<rparr> \<or> wi' = wi\<lparr>wi_net_config := nc, wi_network_applied := True\<rparr>)"
    using run a by (auto simp: apply_network_config_def Let_def split: if_splits)
  then show ?thesis using i s by (auto intro!: idle_transfer [OF i] simp: same_routes_def)
qed

lemma adapter_shrinks:
  assumes ok: "session_shrinks sys tbl" and run: "open_or_create_adapter sys wi w = (a, w')"
  shows "tbl w' \<subseteq> tbl w"
proof -
  obtain r w1 where l: "wa_open_adapter (ws_wintun sys) (wi_adapter_name wi) w = (r, w1)" by fastforce
  show ?thesis
    using run l session_shrinksD(3) [OF ok l] session_shrinksD(4) [OF ok, of _ _ w1 a w']
    by (cases r) (auto simp: open_or_create_adapter_def)
qed

lemma abandon_idle:
  assumes ok: "session_shrinks sys tbl" and i: "idle_routes tbl T (wi, w)"
    and run: "abandon_session sys a s wi w = (wi', w')"
  shows "idle_routes tbl T (wi', w')"
proof -
  let ?w2 = "wa_close_adapter (ws_wintun sys) a (wa_end_session (ws_wintun sys) s w)"
  obtain l w3 where u: "unload (ws_wintun sys) (wi_loader wi) ?w2 = (l, w3)" by fastforce
  have "wi' = wi\<lparr>wi_session := None, wi_adapter := None, wi_loader := l\<rparr>" "w' = w3"
    using run u by (simp_all add: abandon_session_def Let_def)
  moreover have "tbl w3 \<subseteq> tbl w"
    using unload_shrinks [OF ok u] session_shrinksD(5,7) [OF ok] by (meson order_trans)
  ultimately show ?thesis by (intro idle_transfer [OF i]) (simp_all add: same_routes_def)
qed

text \<open>The part of \<open>open\<close> after the library is loaded.\<close>

lemma open_session_idle:
  assumes ok: "session_shrinks sys tbl" and i: "idle_routes tbl T (wi, w)"
    and start: "wa_start_session (ws_wintun sys) a c w = (Some s, w1)"
    and run: "(case apply_network_config sys (wi\<lparr>wi_adapter := Some a, wi_session := Some s, wi_mtu := mtu\<rparr>) w1 of (r, wi4, w4) \<Rightarrow>
       if \<not> r then (case abandon_session sys a s wi4 w4 of (wi5, w5) \<Rightarrow> (False, wi5, w5))
       else (True, wi4\<lparr>wi_last_error := None\<rparr>, w4)) = (opened, wi', w')"
  shows "idle_routes tbl T (wi', w')"
proof -
  let ?wi = "wi\<lparr>wi_adapter := Some a, wi_session := Some s, wi_mtu := mtu\<rparr>"
  obtain r wi4 w4 where n: "apply_network_config sys ?wi w1 = (r, wi4, w4)" by (metis prod_cases3)
  have "idle_routes tbl T (?wi, w1)"
    using session_shrinksD(6) [OF ok start] by (intro idle_transfer [OF i]) (simp_all add: same_routes_def)
  note i4 = apply_network_idle [OF ok this n]
  obtain wi5 w5 where b: "abandon_session sys a s wi4 w4 = (wi5, w5)" by fastforce
  have "(wi', w') = (wi5, w5) \<or> (wi', w') = (wi4\<lparr>wi_last_error := None\<rparr>, w4)" using run n b by (auto split: if_splits)
  then show ?thesis using abandon_idle [OF ok i4 b] i4 by (auto simp: idle_routes_def no_routes_recorded_def)
qed

lemma wintun_open_idle:
  assumes routes: "system_routes_ok sys tbl" and ok: "session_shrinks sys tbl" and inv: "routing_inv sys tbl T (wi, w)"
    and run: "wintun_open sys mtu wi w = (opened, wi', w')"
  shows "idle_routes tbl T (wi', w')"
proof -
  obtain wi1 w1 where c: "wintun_close sys wi w = (wi1, w1)" by fastforce
  note i1 = wintun_close_idle [OF routes ok inv c]
  have same: "idle_routes tbl T (v, w2)" if "tbl w2 \<subseteq> tbl w1"
    "wi_client_routes_applied v = wi_client_routes_applied wi1" "wi_route_manager v = wi_route_manager wi1"
    "wi_net_config v = wi_net_config wi1" for v w2
    using that by (intro idle_transfer [OF i1]) (simp_all add: same_routes_def)
  obtain loaded l w2 where ld: "load_wintun (ws_wintun sys) [] (wi_loader wi1) w1 = (loaded, l, w2)" by (metis prod_cases3)
  let ?wi2 = "wi1\<lparr>wi_loader := l\<rparr>"
  obtain a w3 where ad: "open_or_create_adapter sys ?wi2 w2 = (a, w3)" by fastforce
  have t2: "tbl w2 \<subseteq> tbl w1" by (rule load_shrinks [OF ok ld])
  then have t3: "tbl w3 \<subseteq> tbl w1" using adapter_shrinks [OF ok ad] by blast
  show ?thesis
  proof (cases "mtu < 1280 \<or> 1420 < mtu \<or> \<not> ring_capacity_valid (wi_ring_capacity wi1) \<or> \<not> loaded")
    case True
    then show ?thesis using run c ld t2 by (auto simp: wintun_open_def Let_def split: if_splits intro!: same)
  next
    case ready: False
    show ?thesis
    proof (cases a)
      case None
      obtain l' w4 where u: "unload (ws_wintun sys) l w3 = (l', w4)" by fastforce
      have "tbl w4 \<subseteq> tbl w1" using unload_shrinks [OF ok u] t3 by blast
      then show ?thesis using run c ld ready ad None u by (auto simp: wintun_open_def Let_def intro!: same)
    next
      case (Some k)
      obtain s w4 where st: "wa_start_session (ws_wintun sys) k (wi_ring_capacity wi1) w3 = (s, w4)" by fastforce
      show ?thesis
      proof (cases s)
        case None
        let ?w5 = "wa_close_adapter (ws_wintun sys) k w4"
        obtain l' w6 where u: "unload (ws_wintun sys) l ?w5 = (l', w6)" by fastforce
        have "tbl w6 \<subseteq> tbl w1"
          using unload_shrinks [OF ok u] session_shrinksD(5) [OF ok, of k w4] session_shrinksD(6) [OF ok st] t3 by blast
        then show ?thesis using run c ld ready ad Some st None u by (auto simp: wintun_open_def Let_def intro!: same)
      next
        case s: (Some n)
        have i3: "idle_routes tbl T (?wi2, w3)" using t3 by (intro same) simp_all
        show ?thesis
        proof (rule open_session_idle [OF ok i3])
          show "wa_start_session (ws_wintun sys) k (wi_ring_capacity wi1) w3 = (Some n, w4)" using st s by simp
        qed (use run c ld ready ad Some st s in \<open>simp add: wintun_open_def Let_def\<close>)
      qed
    qed
  qed
qed

text \<open>In any state, an interface that has just been opened has no routing applied.\<close>

lemma wintun_open_applied:
  assumes run: "wintun_open sys mtu wi w = (opened, wi', w')"
  shows "\<not> wi_client_routes_applied wi'"
proof -
  obtain wi1 w1 where c: "wintun_close sys wi w = (wi1, w1)" by fastforce
  have clear: "\<not> wi_client_routes_applied v" if "wintun_clear_client_routes sys wi w = (v, w2)" for v w2
    using that by (auto simp: wintun_clear_client_routes_def Let_def split: if_splits prod.splits)
  have network: "\<not> wi_client_routes_applied v" if "clear_network_config sys wi w = (v, w2)" for v w2
    using that clear by (auto simp: clear_network_config_def Let_def split: if_splits prod.splits)
  have c1: "\<not> wi_client_routes_applied wi1"
    using c network by (fastforce simp: wintun_close_def Let_def split: option.splits if_splits prod.splits)
  have addr: "wi_client_routes_applied v' = wi_client_routes_applied v" if "apply_network_config sys v w2 = (r, v', w3)" for v w2 r v' w3
    using that by (auto simp: apply_network_config_def Let_def split: if_splits prod.splits)
  have abandon: "wi_client_routes_applied v' = wi_client_routes_applied v" if "abandon_session sys a s v w2 = (v', w3)" for a s v w2 v' w3
    using that by (auto simp: abandon_session_def Let_def split: prod.splits)
  show ?thesis
    using run c c1
    by (auto simp: wintun_open_def Let_def split: if_splits prod.splits option.splits dest!: addr abandon)
qed

section \<open>The engine on the Wintun interface\<close>

text \<open>
  Beside the interface: the transport changes neither it nor the table; between two calls of the
  engine the refresh thread may run any number of times.
\<close>

inductive background ::
  "'w wintun_system \<Rightarrow> ('w \<Rightarrow> forward_row set) \<Rightarrow> WintunVirtualInterface \<times> 'w \<Rightarrow> WintunVirtualInterface \<times> 'w \<Rightarrow> bool"
  for sys tbl where
  idle: "tbl w' = tbl w \<Longrightarrow> background sys tbl (wi, w) (wi, w')"
| thread: "wintun_refresh sys wi w = s' \<Longrightarrow> background sys tbl (wi, w) s'"

definition routes_law ::
  "'w wintun_system \<Rightarrow> ('w \<Rightarrow> forward_row set) \<Rightarrow> (WintunVirtualInterface \<times> 'w) engine_env \<Rightarrow>
   (WintunVirtualInterface \<times> 'w) SecureTransport \<Rightarrow> bool" where
  "routes_law sys tbl env st \<longleftrightarrow>
     system_routes_ok sys tbl \<and> session_shrinks sys tbl \<and>
     transport_related (\<lambda>s s'. fst s' = fst s \<and> tbl (snd s') = tbl (snd s)) any_world st \<and>
     env_related (background sys tbl)\<^sup>*\<^sup>* env"

definition routes_kept ::
  "'w wintun_system \<Rightarrow> ('w \<Rightarrow> forward_row set) \<Rightarrow> (WintunVirtualInterface \<times> 'w) engine_env \<Rightarrow>
   (WintunVirtualInterface \<times> 'w) SecureTransport \<Rightarrow> forward_row set \<Rightarrow>
   WintunVirtualInterface \<times> 'w \<Rightarrow> WintunVirtualInterface \<times> 'w \<Rightarrow> bool" where
  "routes_kept sys tbl env st T s s' \<longleftrightarrow>
     (routes_law sys tbl env st \<longrightarrow> routing_inv sys tbl T s \<longrightarrow> routing_inv sys tbl T s')"

definition unrouted ::
  "'w wintun_system \<Rightarrow> ('w \<Rightarrow> forward_row set) \<Rightarrow> (WintunVirtualInterface \<times> 'w) engine_env \<Rightarrow>
   (WintunVirtualInterface \<times> 'w) SecureTransport \<Rightarrow> WintunVirtualInterface \<times> 'w \<Rightarrow> bool" where
  "unrouted sys tbl env st s \<longleftrightarrow> (routes_law sys tbl env st \<longrightarrow> \<not> wi_client_routes_applied (fst s))"

lemma routing_inv_world: "routing_inv sys tbl T (wi, w) \<Longrightarrow> tbl w' = tbl w \<Longrightarrow> routing_inv sys tbl T (wi, w')"
  by (auto simp: routing_inv_def routes_tracked_def)

lemma background_inv:
  assumes "system_routes_ok sys tbl"
  shows "(background sys tbl)\<^sup>*\<^sup>* s s' \<Longrightarrow> routing_inv sys tbl T s \<Longrightarrow> routing_inv sys tbl T s'"
proof (induction rule: rtranclp_induct)
  case (step s' s'')
  from step(2) have "routing_inv sys tbl T s' \<Longrightarrow> routing_inv sys tbl T s''"
  proof (induction rule: background.induct)
    case (idle w' w wi)
    then show ?case by (auto intro: routing_inv_world)
  next
    case (thread wi w s')
    then show ?case using routing_step_inv [OF assms] routing_step.refresh by (metis prod.collapse)
  qed
  with step show ?case by blast
qed

lemma wintun_routes_interface:
  "interface_related (routes_kept sys tbl env st T) (unrouted sys tbl env st) (\<lambda>c. \<not> routing_active c) (wintun_object sys)"
proof -
  have law: "system_routes_ok sys tbl" "session_shrinks sys tbl" if "routes_law sys tbl env st"
    using that by (simp_all add: routes_law_def)
  note keep = routes_kept_def [THEN iffD2, rule_format]
  let ?R = "routes_kept sys tbl env st T"
  have step: "?R (wi, w) s'" if "routing_step sys (wi, w) s'" for wi w s'
    using that routing_step_inv law by (blast intro: keep)
  have open1: "?R (wi, w) (snd (wintun_open sys m wi w)) \<and> unrouted sys tbl env st (snd (wintun_open sys m wi w))" for m wi w
  proof -
    obtain r wi' w' where o: "wintun_open sys m wi w = (r, wi', w')" by (metis prod_cases3)
    have "?R (wi, w) (wi', w')" using wintun_open_idle [OF law _ o] idle_routing_inv by (blast intro: keep)
    with o wintun_open_applied [OF o] show ?thesis by (simp add: unrouted_def)
  qed
  have close: "?R (wi, w) (wintun_close sys wi w)" "?R (wi, w) (wintun_destroy sys wi w)" for wi w
  proof -
    obtain v x v' x' where c: "wintun_close sys wi w = (v, x)" "wintun_destroy sys wi w = (v', x')" by (meson surj_pair)
    show "?R (wi, w) (wintun_close sys wi w)" "?R (wi, w) (wintun_destroy sys wi w)"
      using wintun_close_idle [OF law _ c(1)] wintun_destroy_idle [OF law _ c(2)] c by (auto intro!: keep idle_routing_inv)
  qed
  have app: "?R (wi, w) (snd (wintun_apply_client_routing sys c wi w))"
    if "unrouted sys tbl env st (wi, w) \<or> \<not> routing_active c" for c wi w
  proof (cases "routing_active c")
    case True
    obtain r wi' w' where a: "wintun_apply_client_routing sys c wi w = (r, wi', w')" by (metis prod_cases3)
    have "routes_law sys tbl env st \<Longrightarrow> \<not> wi_client_routes_applied wi" using that True by (simp add: unrouted_def)
    then have "?R (wi, w) (wi', w')" using apply_routing_inv [OF _ _ _ a] law by (blast intro: keep)
    with a show ?thesis by simp
  next
    case False
    then have "snd (wintun_apply_client_routing sys c wi w) = (wi, w)"
      by (cases "tc_client_routing_mode c") (auto simp: wintun_apply_client_routing_def routing_active_def)
    then show ?thesis by (simp add: routes_kept_def)
  qed
  have calls: "?R (wi, w) (snd (wintun_read_packet sys wi w))" "?R (wi, w) (snd (wintun_write_packet sys p wi w))"
    "?R (wi, w) (wintun_clear_client_routes sys wi w)" for p wi w
    using read_one [of sys wi w] write_one [of sys p wi w] clear_routing [of sys wi w] step by (metis prod.collapse)+
  show ?thesis
    using open1 close app calls by (simp add: interface_related_def wintun_object_def)
qed

interpretation wintun_routes: engine_calls env "wintun_object sys" st "routes_kept sys tbl env st T"
  "unrouted sys tbl env st" "\<lambda>c. \<not> routing_active c"
proof unfold_locales
  let ?R = "routes_kept sys tbl env st T"
  show "?R w w" for w by (simp add: routes_kept_def)
  show "?R u v \<Longrightarrow> ?R v w \<Longrightarrow> ?R u w" for u v w by (simp add: routes_kept_def)
  show "interface_related ?R (unrouted sys tbl env st) (\<lambda>c. \<not> routing_active c) (wintun_object sys)"
    by (rule wintun_routes_interface)
  have t: "?R s s'" "unrouted sys tbl env st s \<longrightarrow> unrouted sys tbl env st s'"
    if "fst s' = fst s \<and> tbl (snd s') = tbl (snd s)" for s s'
    using that by (auto simp: routes_kept_def unrouted_def routing_inv_def routes_tracked_def)
  show "transport_related ?R (unrouted sys tbl env st) st"
  proof (cases "routes_law sys tbl env st")
    case True
    then have "transport_related (\<lambda>s s'. fst s' = fst s \<and> tbl (snd s') = tbl (snd s)) any_world st" by (simp add: routes_law_def)
    then show ?thesis by (rule transport_related_mono) (use t in blast)
  qed (simp add: transport_related_def routes_kept_def unrouted_def)
  show "env_related ?R env"
  proof (cases "routes_law sys tbl env st")
    case True
    then have "env_related (background sys tbl)\<^sup>*\<^sup>* env" "system_routes_ok sys tbl" by (simp_all add: routes_law_def)
    then show ?thesis by (auto elim!: env_related_mono simp: routes_kept_def intro: background_inv)
  qed (simp add: env_related_def routes_kept_def)
qed

lemma wintun_object_ends:
  "vi_close (wintun_object sys) s = wintun_close sys (fst s) (snd s)"
  "vi_destroy (wintun_object sys) s = wintun_destroy sys (fst s) (snd s)"
  "vi_clear_client_routing (wintun_object sys) s = wintun_clear_client_routes sys (fst s) (snd s)"
  by (simp_all add: wintun_object_def split: prod.splits)

text \<open>What a run of the engine, begun with no routing, preserves.\<close>

lemma routes_reached:
  assumes "routes_law sys tbl env st" and "\<not> wi_client_routes_applied wi" and "no_routes_recorded wi"
    and "tc_role config = Server \<Longrightarrow> \<not> routing_active config"
    and run: "engine_reaches env (new_engine config (Some (wintun_object sys)) (Some st) inner, (wi, w)) (e, s)"
  shows "routing_inv sys tbl (tbl w) s" and "te_interface e = Some (wintun_object sys)" and "te_transport e = Some st"
proof -
  have i: "routing_inv sys tbl (tbl w) (wi, w)"
    using assms(2,3) by (intro idle_routing_inv) (simp add: idle_routes_def)
  have "engine_fits (\<lambda>c. \<not> routing_active c) (wintun_object sys) st e" and "routes_kept sys tbl env st (tbl w) (wi, w) s"
    using wintun_routes.reaches_related [OF run, where T = "tbl w" and tbl = tbl] assms(4) by simp_all
  with i assms(1) show "routing_inv sys tbl (tbl w) s" and "te_interface e = Some (wintun_object sys)" and "te_transport e = Some st"
    by (simp_all add: routes_kept_def engine_fits_def)
qed

lemma transport_keeps_inv:
  assumes "routes_law sys tbl env st" and "routing_inv sys tbl T s"
  shows "routing_inv sys tbl T (st_close st s)" and "routing_inv sys tbl T (st_destroy st s)"
proof -
  have "fst (st_close st s) = fst s \<and> tbl (snd (st_close st s)) = tbl (snd s)"
    "fst (st_destroy st s) = fst s \<and> tbl (snd (st_destroy st s)) = tbl (snd s)"
    using assms(1) unfolding routes_law_def transport_related_def by blast+
  with assms(2) show "routing_inv sys tbl T (st_close st s)" and "routing_inv sys tbl T (st_destroy st s)"
    by (auto simp: routing_inv_def routes_tracked_def)
qed

text \<open>Destroying the engine removes the routes, also without \<open>stop\<close>.\<close>

lemma destroyed_idle:
  assumes "routes_law sys tbl env st" and "\<not> wi_client_routes_applied wi" and "no_routes_recorded wi"
    and "tc_role config = Server \<Longrightarrow> \<not> routing_active config"
    and run: "engine_reaches env (new_engine config (Some (wintun_object sys)) (Some st) inner, (wi, w)) (e, s)"
  shows "idle_routes tbl (tbl w) (destroy_engine e s)"
proof -
  note r = routes_reached [OF assms]
  have ok: "system_routes_ok sys tbl" "session_shrinks sys tbl" using assms(1) by (simp_all add: routes_law_def)
  have "routing_inv sys tbl (tbl w) (fst (st_destroy st s), snd (st_destroy st s))"
    using transport_keeps_inv(2) [OF assms(1) r(1)] by simp
  note idle = wintun_destroy_idle [OF ok this]
  obtain wi' w' where "wintun_destroy sys (fst (st_destroy st s)) (snd (st_destroy st s)) = (wi', w')" by fastforce
  with idle [OF this] r(2,3) show ?thesis by (simp add: destroy_engine_def wintun_object_ends)
qed

section \<open>A concrete system\<close>

lemma route_system_law: "routes_law route_system (set \<circ> snd) (still_env plat net) accepting_transport"
proof -
  have "session_shrinks route_system (set \<circ> snd)"
    by (simp add: session_shrinks_def route_system_def sample_driver_def sample_route_api_def)
  then show ?thesis
    by (simp add: routes_law_def route_system_ok transport_related_def env_related_def still_env_def
        accepting_transport_def base_open_data_channel_def)
qed

section \<open>Properties\<close>



end
