(* ===== verification/Probe.thy ===== *)
theory Probe
  imports Engine_Routes
begin

text \<open>
  The diagnostic program \<^verbatim>\<open>apps/wintun_probe.cpp\<close>: it loads the driver, opens the interface, reads
  once and closes. What it prints is a list of lines; the objects are destroyed when \<open>main\<close>
  returns, the interface before the loader.
\<close>

section \<open>The program\<close>

datatype probe_line =
    Load_Failed "loader_error option"
  | Version_Unknown
  | Driver_Version nat nat
  | Open_Failed "wintun_error option"
  | Session_Started
  | Adapter_Luid u64
  | Configured_Ipv4 string nat
  | Interface_Dns string
  | No_Global_Route
  | Bytes_Read nat
  | Closed_And_Cleared

definition version_line :: "u32 \<Rightarrow> probe_line" where
  "version_line version =
     (if version = 0 then Version_Unknown
      else Driver_Version (unat (drop_bit 16 version AND 0xFFFF)) (unat (version AND 0xFFFF)))"

definition probe_ipv4 :: Ipv4InterfaceConfig where
  "probe_ipv4 = \<lparr>if_address = ''10.66.66.2'', if_prefix_length = 24, if_dns = ''1.1.1.1'', if_apply_on_open = True\<rparr>"

text \<open>The part after the interface was opened.\<close>

definition probe_open_lines :: "'w wintun_system \<Rightarrow> WintunVirtualInterface \<Rightarrow> 'w \<Rightarrow> probe_line list" where
  "probe_open_lines sys iface w =
     [Session_Started, Adapter_Luid (adapter_luid_value sys iface w),
      Configured_Ipv4 (if_address (wi_ipv4_config iface)) (unat (if_prefix_length (wi_ipv4_config iface)))] @
     (if if_dns (wi_ipv4_config iface) \<noteq> [] then [Interface_Dns (if_dns (wi_ipv4_config iface))] else []) @
     [No_Global_Route]"

definition probe_main :: "'w wintun_system \<Rightarrow> 'w \<Rightarrow> nat \<times> probe_line list \<times> 'w" where
  "probe_main sys w =
     (case load_wintun (ws_wintun sys) [] new_loader w of (loaded, loader, w1) \<Rightarrow>
        if \<not> loaded
        then (1, [Load_Failed (wl_last_error loader)], snd (unload (ws_wintun sys) loader w1))
        else
          (let lines = [version_line (running_driver_version (ws_wintun sys) loader w1)] in
           case wintun_open sys 1280 (new_wintun ''SecureTunnel'' ''SecureTunnel'' 0x400000 probe_ipv4) w1 of
             (opened, iface, w2) \<Rightarrow>
               if \<not> opened
               then (2, lines @ [Open_Failed (wi_last_error iface)],
                     snd (unload (ws_wintun sys) loader (snd (wintun_destroy sys iface w2))))
               else
                 (case wintun_read_packet sys iface w2 of (packet, iface1, w3) \<Rightarrow>
                    case wintun_close sys iface1 w3 of (iface2, w4) \<Rightarrow>
                      (0, lines @ probe_open_lines sys iface w2 @ [Bytes_Read (length packet), Closed_And_Cleared],
                       snd (unload (ws_wintun sys) loader (snd (wintun_destroy sys iface2 w4)))))))"

section \<open>Lemmas\<close>

lemma probe_interface_clean:
  "wintun_wf (new_wintun name kind ring v4)" "wintun_own (new_wintun name kind ring v4) = {#}"
  "idle_routes tbl (tbl w) (new_wintun name kind ring v4, w)"
  by (simp_all add: new_wintun_def wintun_wf_def wintun_own_def loader_wf_def is_loaded_def new_loader_def idle_routes_def
      no_routes_recorded_def new_net_config_def new_route_manager_def)

text \<open>What happens between loading the driver and unloading it: opening and destroying the
  interface, with reading and closing in between if it opened.\<close>

lemma probe_main_cases:
  assumes load: "load_wintun (ws_wintun sys) [] new_loader w = (loaded, loader, w1)"
    and iface: "wintun_open sys 1280 (new_wintun ''SecureTunnel'' ''SecureTunnel'' 0x400000 probe_ipv4) w1 = (opened, wi, w2)"
    and read: "wintun_read_packet sys wi w2 = (packet, wi1, w3)" and close: "wintun_close sys wi1 w3 = (wi2, w4)"
  shows "snd (snd (probe_main sys w)) = snd (unload (ws_wintun sys) loader
     (if \<not> loaded then w1 else snd (if opened then wintun_destroy sys wi2 w4 else wintun_destroy sys wi w2)))"
  using assms by (simp add: probe_main_def Let_def)

text \<open>The probe adds no route, as it announces.\<close>

lemma probe_adds_no_route:
  assumes routes: "system_routes_ok sys tbl" and ok: "session_shrinks sys tbl"
  shows "tbl (snd (snd (probe_main sys w))) \<subseteq> tbl w"
proof -
  let ?new = "new_wintun ''SecureTunnel'' ''SecureTunnel'' 0x400000 probe_ipv4"
  obtain loaded loader w1 where l: "load_wintun (ws_wintun sys) [] new_loader w = (loaded, loader, w1)" by (metis prod_cases3)
  obtain opened wi w2 where o: "wintun_open sys 1280 ?new w1 = (opened, wi, w2)" by (metis prod_cases3)
  obtain packet wi1 w3 where r: "wintun_read_packet sys wi w2 = (packet, wi1, w3)" by (metis prod_cases3)
  obtain wi2 w4 where c: "wintun_close sys wi1 w3 = (wi2, w4)" by fastforce
  obtain wi5 w5 where d: "wintun_destroy sys wi w2 = (wi5, w5)" by fastforce
  obtain wi6 w6 where d2: "wintun_destroy sys wi2 w4 = (wi6, w6)" by fastforce
  note i2 = idle_routing_inv [OF wintun_open_idle [OF routes ok idle_routing_inv [OF probe_interface_clean(3)] o]]
  note i3 = routing_step_inv [OF routes read_one [OF r] i2]
  note i4 = idle_routing_inv [OF wintun_close_idle [OF routes ok i3 c]]
  have "tbl w5 \<subseteq> tbl w1" "tbl w6 \<subseteq> tbl w1"
    using wintun_destroy_idle [OF routes ok i2 d] wintun_destroy_idle [OF routes ok i4 d2] by (simp_all add: idle_routes_def)
  moreover have "tbl w1 \<subseteq> tbl w" by (rule load_shrinks [OF ok l])
  moreover have "tbl (snd (unload (ws_wintun sys) loader v)) \<subseteq> tbl v" for v
    using unload_shrinks [OF ok, of loader v] by (cases "unload (ws_wintun sys) loader v") simp
  ultimately show ?thesis using probe_main_cases [OF l o r c] d d2 by (auto split: if_splits) (meson subsetD)+
qed

section \<open>Properties\<close>



end
