(* ===== verification/Apps.thy ===== *)
theory Apps
  imports Relay_Path Cpp_Text
begin

text \<open>
  The two programs, \<^verbatim>\<open>apps/client_main.cpp\<close> and \<^verbatim>\<open>apps/server_main.cpp\<close>: command line, configuration, and the
  life of an engine from construction to exit.

  The objects the programs construct are given by \<open>app_env\<close> as tables of virtual functions
  over one world, with the facts of the build and of the system (MsQuic present, elevated
  process, readable files, environment). The objects are destroyed when \<open>main\<close> returns. What is
  printed is not modelled.
\<close>

section \<open>The environment of a program\<close>

record 'w app_env =
  ap_engine :: "'w engine_env"
  ap_msquic :: bool
  ap_token_member :: "bool option"
  ap_file :: "string \<Rightarrow> string option"
  ap_getenv :: "string \<Rightarrow> string option"
  ap_dev_interface :: "'w VirtualInterface"
  ap_wintun_interface :: "Ipv4InterfaceConfig \<Rightarrow> 'w VirtualInterface"
  ap_linux_interface :: "string \<Rightarrow> 'w VirtualInterface"
  ap_dev_transport :: "'w SecureTransport"
  ap_quic_transport :: "'w SecureTransport"
  ap_inject :: "bytes \<Rightarrow> 'w \<Rightarrow> 'w"

text \<open>How a program ends: with an exit code, or by an exception of \<open>std::stoi\<close> nobody catches.\<close>

datatype app_exit = Exited nat | Uncaught stoi_error

abbreviation (input) app_platform :: "'w app_env \<Rightarrow> platform" where
  "app_platform env \<equiv> env_platform (ap_engine env)"

text \<open>\<open>ap_token_member\<close> is \<open>None\<close> when the group's identifier cannot be made or the query fails; an unset
  variable is \<open>None\<close>.\<close>

definition is_process_elevated :: "'w app_env \<Rightarrow> bool" where
  "is_process_elevated env \<longleftrightarrow> ap_token_member env = Some True"

definition env_or_empty :: "'w app_env \<Rightarrow> string \<Rightarrow> string" where
  "env_or_empty env name = (case ap_getenv env name of None \<Rightarrow> [] | Some value \<Rightarrow> value)"

definition read_trimmed_file :: "(string \<Rightarrow> string option) \<Rightarrow> string \<Rightarrow> string" where
  "read_trimmed_file files path =
     (case files path of
        None \<Rightarrow> []
      | Some content \<Rightarrow>
          (case file_lines content of
             [] \<Rightarrow> []
           | l # _ \<Rightarrow> strip_back (\<lambda>c. c = CHR 0x0D \<or> c = CHR 0x0A \<or> c = CHR '' '') l))"

definition make_transport :: "'w app_env \<Rightarrow> bool \<Rightarrow> 'w SecureTransport option" where
  "make_transport env use_quic =
     (if use_quic then (if ap_msquic env then Some (ap_quic_transport env) else None)
      else Some (ap_dev_transport env))"

text \<open>\<open>arg.rfind(option, 0) == 0\<close> and \<open>arg.substr(option.size())\<close>.\<close>

definition option_value :: "string \<Rightarrow> string \<Rightarrow> string option" where
  "option_value opt arg = (if starts_with opt arg then Some (drop (length opt) arg) else None)"

section \<open>The client\<close>

record ClientArgs =
  ca_use_wintun :: bool
  ca_use_quic :: bool
  ca_insecure :: bool
  ca_relay :: bool
  ca_relay_seconds :: int
  ca_global_route :: bool
  ca_smart_route :: bool
  ca_smart_domain_list :: string
  ca_smart_cidr_list :: string
  ca_cert_hash :: string
  ca_endpoint :: string
  ca_port :: u16

definition default_client_args :: ClientArgs where
  "default_client_args =
     \<lparr>ca_use_wintun = False, ca_use_quic = False, ca_insecure = False, ca_relay = False, ca_relay_seconds = 0,
      ca_global_route = False, ca_smart_route = False, ca_smart_domain_list = [], ca_smart_cidr_list = [],
      ca_cert_hash = [], ca_endpoint = ''127.0.0.1'', ca_port = 44333\<rparr>"

definition client_arg :: "string \<Rightarrow> ClientArgs \<Rightarrow> app_exit + ClientArgs" where
  "client_arg arg a =
     (if arg = ''--wintun'' then Inr (a\<lparr>ca_use_wintun := True\<rparr>)
      else if arg = ''--quic'' then Inr (a\<lparr>ca_use_quic := True\<rparr>)
      else if arg = ''--insecure'' then Inr (a\<lparr>ca_insecure := True\<rparr>)
      else if arg = ''--relay'' then Inr (a\<lparr>ca_relay := True\<rparr>)
      else (case option_value ''--relay-seconds:'' arg of
              Some v \<Rightarrow> (case stoi v of Inl e \<Rightarrow> Inl (Uncaught e) | Inr n \<Rightarrow> Inr (a\<lparr>ca_relay := True, ca_relay_seconds := n\<rparr>))
            | None \<Rightarrow>
      if arg = ''--global-route'' then Inr (a\<lparr>ca_global_route := True\<rparr>)
      else if arg = ''--smart-route'' then Inr (a\<lparr>ca_smart_route := True\<rparr>)
      else (case option_value ''--smart-domains:'' arg of Some v \<Rightarrow> Inr (a\<lparr>ca_smart_domain_list := v\<rparr>) | None \<Rightarrow>
           (case option_value ''--smart-cidrs:'' arg of Some v \<Rightarrow> Inr (a\<lparr>ca_smart_cidr_list := v\<rparr>) | None \<Rightarrow>
           (case option_value ''--cert_hash:'' arg of Some v \<Rightarrow> Inr (a\<lparr>ca_cert_hash := v\<rparr>) | None \<Rightarrow>
           (case option_value ''--endpoint:'' arg of Some v \<Rightarrow> Inr (a\<lparr>ca_endpoint := v\<rparr>) | None \<Rightarrow>
           (case option_value ''--port:'' arg of
              Some v \<Rightarrow> (case stoi v of Inl e \<Rightarrow> Inl (Uncaught e) | Inr n \<Rightarrow> Inr (a\<lparr>ca_port := of_int n\<rparr>))
            | None \<Rightarrow> Inl (Exited 1))))))))"

fun client_args :: "string list \<Rightarrow> ClientArgs \<Rightarrow> app_exit + ClientArgs" where
  "client_args [] a = Inr a"
| "client_args (arg # args) a =
     (case client_arg arg a of Inl x \<Rightarrow> Inl x | Inr a' \<Rightarrow> client_args args a')"

text \<open>The combinations that are refused, and the rights that \<open>--wintun\<close> needs.\<close>

definition client_args_allowed :: "'w app_env \<Rightarrow> ClientArgs \<Rightarrow> bool" where
  "client_args_allowed env a \<longleftrightarrow>
     \<not> (ca_global_route a \<and> ca_smart_route a) \<and>
     \<not> (ca_global_route a \<and> \<not> ca_use_wintun a) \<and> \<not> (ca_global_route a \<and> \<not> ca_use_quic a) \<and>
     \<not> (ca_smart_route a \<and> \<not> ca_use_wintun a) \<and> \<not> (ca_smart_route a \<and> \<not> ca_use_quic a) \<and>
     \<not> (app_platform env = Windows \<and> ca_use_wintun a \<and> \<not> is_process_elevated env)"

definition client_cert_hash :: "'w app_env \<Rightarrow> ClientArgs \<Rightarrow> string" where
  "client_cert_hash env a =
     (if ca_use_quic a \<and> ca_cert_hash a = []
      then read_trimmed_file (ap_file env) ''certs/dev/thumbprint.txt'' else ca_cert_hash a)"

definition client_routing_config :: "ClientArgs \<Rightarrow> TunnelConfig \<Rightarrow> TunnelConfig" where
  "client_routing_config a c =
     (let c1 = (if ca_global_route a
                then c\<lparr>tc_enable_global_default_route := True, tc_client_routing_mode := Route_Global\<rparr>
                else if ca_smart_route a then c\<lparr>tc_client_routing_mode := Route_Smart\<rparr> else c);
          c2 = (if ca_smart_domain_list a \<noteq> [] then c1\<lparr>tc_smart_route_domain_list := ca_smart_domain_list a\<rparr> else c1)
      in if ca_smart_cidr_list a \<noteq> [] then c2\<lparr>tc_smart_route_cidr_list := ca_smart_cidr_list a\<rparr> else c2)"

definition client_config :: "'w app_env \<Rightarrow> ClientArgs \<Rightarrow> TunnelConfig" where
  "client_config env a =
     (let c = default_config
                \<lparr>tc_role := Client, tc_endpoint := ca_endpoint a, tc_port := ca_port a, tc_mtu := 1280,
                 tc_prefer_quic := ca_use_quic a, tc_quic := default_quic_config\<lparr>qc_insecure := ca_insecure a\<rparr>\<rparr>;
          c1 = (if app_platform env = Windows then client_routing_config a c else c)
      in c1\<lparr>tc_quic := (tc_quic c1)\<lparr>qc_cert_hash := client_cert_hash env a\<rparr>\<rparr>)"

definition client_uses_wintun :: "'w app_env \<Rightarrow> ClientArgs \<Rightarrow> bool" where
  "client_uses_wintun env a \<longleftrightarrow> app_platform env = Windows \<and> ca_use_wintun a"

definition client_interface :: "'w app_env \<Rightarrow> ClientArgs \<Rightarrow> 'w VirtualInterface" where
  "client_interface env a =
     (if client_uses_wintun env a then ap_wintun_interface env (tc_ipv4 (client_config env a)) else ap_dev_interface env)"

text \<open>How long the data plane runs, in milliseconds; \<open>None\<close> when it does not.\<close>

definition client_relay_ms :: "ClientArgs \<Rightarrow> nat option" where
  "client_relay_ms a =
     (if ca_relay a \<or> ca_global_route a \<or> ca_smart_route a
      then Some (if ca_global_route a \<or> ca_smart_route a then 24 * 3600 * 1000
                 else if 0 < ca_relay_seconds a then nat (ca_relay_seconds a) * 1000 else 5000)
      else None)"

text \<open>The part of \<open>main\<close> after a successful start: relaying, \<open>stop\<close>, and the destruction of the engine,
  which owns the interface and the transport, when \<open>main\<close> returns.\<close>

definition relay_then_stop :: "'w engine_env \<Rightarrow> nat option \<Rightarrow> 'w TunnelEngine \<Rightarrow> 'w \<Rightarrow> (app_exit \<times> 'w) option" where
  "relay_then_stop env relay e w =
     (case (case relay of None \<Rightarrow> Some (e, w) | Some ms \<Rightarrow> run_data_plane_for env ms e w) of
        None \<Rightarrow> None
      | Some (e1, w1) \<Rightarrow> (case stop e1 w1 of (e2, w2) \<Rightarrow> Some (Exited 0, destroy_engine e2 w2)))"

definition client_run :: "'w app_env \<Rightarrow> ClientArgs \<Rightarrow> 'w \<Rightarrow> (app_exit \<times> 'w) option" where
  "client_run env a w =
     (case make_transport env (ca_use_quic a) of
        None \<Rightarrow> Some (Exited 1, vi_destroy (client_interface env a) w)
      | Some transport \<Rightarrow>
          (case start (ap_engine env)
                  (new_engine (client_config env a) (Some (client_interface env a)) (Some transport) None) w of
             (ok, e, w1) \<Rightarrow>
               if \<not> ok then Some (Exited 1, destroy_engine e w1)
               else
                 (let relay = client_relay_ms a;
                      w2 = (if relay \<noteq> None \<and> \<not> client_uses_wintun env a
                            then ap_inject env [0x45, 0x00, 0x00, 0x2A] w1 else w1)
                  in relay_then_stop (ap_engine env) relay e w2)))"

definition client_main :: "'w app_env \<Rightarrow> string list \<Rightarrow> 'w \<Rightarrow> (app_exit \<times> 'w) option" where
  "client_main env args w =
     (case client_args args default_client_args of
        Inl x \<Rightarrow> Some (x, w)
      | Inr a \<Rightarrow> if \<not> client_args_allowed env a then Some (Exited 1, w) else client_run env a w)"

section \<open>The server\<close>

record ServerArgs =
  sa_use_quic :: bool
  sa_use_tun :: bool
  sa_relay :: bool
  sa_relay_seconds :: int
  sa_cert_hash :: string
  sa_cert_file :: string
  sa_key_file :: string

definition default_server_args :: ServerArgs where
  "default_server_args =
     \<lparr>sa_use_quic = False, sa_use_tun = False, sa_relay = False, sa_relay_seconds = 0, sa_cert_hash = [],
      sa_cert_file = [], sa_key_file = []\<rparr>"

definition server_arg :: "string \<Rightarrow> ServerArgs \<Rightarrow> app_exit + ServerArgs" where
  "server_arg arg a =
     (if arg = ''--quic'' then Inr (a\<lparr>sa_use_quic := True\<rparr>)
      else if arg = ''--tun'' then Inr (a\<lparr>sa_use_tun := True\<rparr>)
      else if arg = ''--relay'' then Inr (a\<lparr>sa_relay := True\<rparr>)
      else (case option_value ''--relay-seconds:'' arg of
              Some v \<Rightarrow> (case stoi v of Inl e \<Rightarrow> Inl (Uncaught e) | Inr n \<Rightarrow> Inr (a\<lparr>sa_relay := True, sa_relay_seconds := n\<rparr>))
            | None \<Rightarrow>
           (case option_value ''--cert_hash:'' arg of Some v \<Rightarrow> Inr (a\<lparr>sa_cert_hash := v\<rparr>) | None \<Rightarrow>
           (case option_value ''--cert_file:'' arg of Some v \<Rightarrow> Inr (a\<lparr>sa_cert_file := v\<rparr>) | None \<Rightarrow>
           (case option_value ''--key_file:'' arg of Some v \<Rightarrow> Inr (a\<lparr>sa_key_file := v\<rparr>) | None \<Rightarrow> Inl (Exited 1))))))"

fun server_args :: "string list \<Rightarrow> ServerArgs \<Rightarrow> app_exit + ServerArgs" where
  "server_args [] a = Inr a"
| "server_args (arg # args) a =
     (case server_arg arg a of Inl x \<Rightarrow> Inl x | Inr a' \<Rightarrow> server_args args a')"

text \<open>The certificate of a QUIC server; \<open>None\<close> when there is none.\<close>

definition server_credentials :: "'w app_env \<Rightarrow> ServerArgs \<Rightarrow> QuicTransportConfig \<Rightarrow> QuicTransportConfig option" where
  "server_credentials env a q =
     (let cert_file = (if sa_cert_file a = [] then env_or_empty env ''TLS_CERT_FILE'' else sa_cert_file a);
          key_file = (if sa_key_file a = [] then env_or_empty env ''TLS_KEY_FILE'' else sa_key_file a);
          cert_hash = (if sa_cert_hash a = [] then read_trimmed_file (ap_file env) ''certs/dev/thumbprint.txt''
                       else sa_cert_hash a)
      in if app_platform env \<noteq> Windows \<and> cert_file \<noteq> [] \<and> key_file \<noteq> []
         then Some (q\<lparr>qc_cert_file := cert_file, qc_key_file := key_file\<rparr>)
         else if cert_hash \<noteq> [] then Some (q\<lparr>qc_cert_hash := cert_hash\<rparr>)
         else None)"

definition server_config :: "'w app_env \<Rightarrow> ServerArgs \<Rightarrow> TunnelConfig option" where
  "server_config env a =
     (let c = default_config\<lparr>tc_role := Server, tc_endpoint := ''0.0.0.0'', tc_port := 44333, tc_prefer_quic := sa_use_quic a\<rparr>
      in if sa_use_quic a
         then (case server_credentials env a (tc_quic c) of None \<Rightarrow> None | Some q \<Rightarrow> Some (c\<lparr>tc_quic := q\<rparr>))
         else Some c)"

definition make_interface :: "'w app_env \<Rightarrow> bool \<Rightarrow> 'w VirtualInterface" where
  "make_interface env use_tun =
     (if app_platform env \<noteq> Windows \<and> use_tun then ap_linux_interface env ''sectun0'' else ap_dev_interface env)"

definition server_relay_ms :: "ServerArgs \<Rightarrow> nat option" where
  "server_relay_ms a =
     (if sa_relay a
      then Some (if 0 < sa_relay_seconds a then nat (sa_relay_seconds a) * 1000 else 24 * 3600 * 1000)
      else None)"

definition server_run :: "'w app_env \<Rightarrow> ServerArgs \<Rightarrow> 'w \<Rightarrow> (app_exit \<times> 'w) option" where
  "server_run env a w =
     (case server_config env a of
        None \<Rightarrow> Some (Exited 1, w)
      | Some config \<Rightarrow>
          (case make_transport env (sa_use_quic a) of
             None \<Rightarrow> Some (Exited 1, w)
           | Some transport \<Rightarrow>
               (case start (ap_engine env)
                       (new_engine config (Some (make_interface env (sa_use_tun a))) (Some transport) None) w of
                  (ok, e, w1) \<Rightarrow>
                    if \<not> ok then Some (Exited 1, destroy_engine e w1)
                    else relay_then_stop (ap_engine env) (server_relay_ms a) e w1)))"

definition server_main :: "'w app_env \<Rightarrow> string list \<Rightarrow> 'w \<Rightarrow> (app_exit \<times> 'w) option" where
  "server_main env args w =
     (case server_args args default_server_args of
        Inl x \<Rightarrow> Some (x, w)
      | Inr a \<Rightarrow> server_run env a w)"

section \<open>Lemmas\<close>

text \<open>After a successful start, relaying ends and \<open>stop\<close> takes the engine down.\<close>

context clocked_engine
begin

lemma relay_then_stop_returns:
  assumes start: "start env (new_engine config (Some vi) (Some st) inner) w0 = (ok, e, w2)"
  shows "\<exists>w1. relay_then_stop env relay e w =
    Some (Exited 0, vi_destroy vi (st_destroy st (vi_close vi (st_close st (vi_clear_client_routing vi w1)))))"
proof -
  have h: "engine_fits any_config vi st e" using start_related [OF start] by simp
  have "\<exists>e1 w1. (case relay of None \<Rightarrow> Some (e, w) | Some ms \<Rightarrow> run_data_plane_for env ms e w) = Some (e1, w1) \<and> engine_fits any_config vi st e1"
    using h loop_returns [OF h]
    by (cases relay) (simp_all add: run_data_plane_for_def Let_def split: prod.splits)
  then obtain e1 w1 where r: "(case relay of None \<Rightarrow> Some (e, w) | Some ms \<Rightarrow> run_data_plane_for env ms e w) = Some (e1, w1)"
    "engine_fits any_config vi st e1" by blast
  obtain e2 w2 where s: "stop e1 w1 = (e2, w2)" by fastforce
  have "te_interface e2 = Some vi" "te_transport e2 = Some st" "w2 = vi_close vi (st_close st (vi_clear_client_routing vi w1))"
    using stop_engine(2,3) [OF s] stop_world [of e1 w1] s r(2) by (simp_all add: engine_fits_def)
  then show ?thesis using r(1) s by (auto simp: relay_then_stop_def destroy_engine_def)
qed

end

definition app_forward :: "'w app_env \<Rightarrow> ('w \<Rightarrow> nat) \<Rightarrow> bool" where
  "app_forward env clk \<longleftrightarrow>
     clock_advances (ap_engine env) clk \<and> interface_forward (ap_dev_interface env) clk \<and>
     (\<forall>v4. interface_forward (ap_wintun_interface env v4) clk) \<and>
     (\<forall>name. interface_forward (ap_linux_interface env name) clk) \<and>
     transport_forward (ap_dev_transport env) clk \<and> transport_forward (ap_quic_transport env) clk"

text \<open>The last effects of a program that worked.\<close>

definition shut_down :: "'w VirtualInterface \<Rightarrow> 'w SecureTransport \<Rightarrow> 'w \<Rightarrow> bool" where
  "shut_down vi st w \<longleftrightarrow>
     (\<exists>w1. w = vi_destroy vi (st_destroy st (vi_close vi (st_close st (vi_clear_client_routing vi w1)))))"

lemma engine_life:
  assumes "clock_advances env clk" "interface_forward vi clk" "transport_forward st clk"
    and "start env (new_engine config (Some vi) (Some st) None) w = (True, e, w1)"
  shows "\<exists>w'. relay_then_stop env relay e w2 = Some (Exited 0, w') \<and> shut_down vi st w'"
proof -
  have loc: "clocked_engine env vi st clk" by (rule clocked_engine.intro [OF assms(1-3)])
  from clocked_engine.relay_then_stop_returns [OF loc assms(4), of relay w2] show ?thesis by (auto simp: shut_down_def)
qed

lemma app_objects_forward:
  assumes "app_forward env clk"
  shows "interface_forward (client_interface env a) clk" and "interface_forward (make_interface env b) clk"
    and "make_transport env q = Some st \<Longrightarrow> transport_forward st clk"
  using assms by (auto simp: app_forward_def client_interface_def make_interface_def make_transport_def split: if_splits)

lemma client_run_returns:
  assumes "app_forward env clk"
  shows "\<exists>x w'. client_run env a w = Some (x, w') \<and>
    (x = Exited 0 \<longrightarrow> (\<exists>st. make_transport env (ca_use_quic a) = Some st \<and> shut_down (client_interface env a) st w'))"
proof (cases "make_transport env (ca_use_quic a)")
  case (Some st)
  let ?e = "new_engine (client_config env a) (Some (client_interface env a)) (Some st) None"
  obtain ok e w1 where s: "start (ap_engine env) ?e w = (ok, e, w1)" by (metis prod_cases3)
  show ?thesis
  proof (cases ok)
    case True
    have clk: "clock_advances (ap_engine env) clk" using assms by (simp add: app_forward_def)
    have "start (ap_engine env) ?e w = (True, e, w1)" using s True by simp
    from engine_life [OF clk app_objects_forward(1,3) [OF assms], OF Some this] show ?thesis
      using Some s True by (simp add: client_run_def Let_def) blast
  qed (use Some s in \<open>simp add: client_run_def\<close>)
qed (simp add: client_run_def)

lemma server_run_returns:
  assumes "app_forward env clk"
  shows "\<exists>x w'. server_run env a w = Some (x, w') \<and>
    (x = Exited 0 \<longrightarrow> (\<exists>st. make_transport env (sa_use_quic a) = Some st \<and> shut_down (make_interface env (sa_use_tun a)) st w'))"
proof (cases "server_config env a = None \<or> make_transport env (sa_use_quic a) = None")
  case False
  then obtain c st where c: "server_config env a = Some c" "make_transport env (sa_use_quic a) = Some st"
    by (cases "server_config env a"; cases "make_transport env (sa_use_quic a)") auto
  let ?e = "new_engine c (Some (make_interface env (sa_use_tun a))) (Some st) None"
  obtain ok e w1 where s: "start (ap_engine env) ?e w = (ok, e, w1)" by (metis prod_cases3)
  show ?thesis
  proof (cases ok)
    case True
    have clk: "clock_advances (ap_engine env) clk" using assms by (simp add: app_forward_def)
    have "start (ap_engine env) ?e w = (True, e, w1)" using s True by simp
    from engine_life [OF clk app_objects_forward(2,3) [OF assms], OF c(2) this] show ?thesis
      using c s True by (simp add: server_run_def) blast
  qed (use c s in \<open>simp add: server_run_def\<close>)
qed (auto simp: server_run_def split: option.splits)

text \<open>Refused arguments never end a program with code 0.\<close>

lemma client_args_refused: "client_args args a = Inl x \<Longrightarrow> x \<noteq> Exited 0"
proof (induction args arbitrary: a)
  case (Cons arg args)
  have "client_arg arg a = Inl y \<Longrightarrow> y \<noteq> Exited 0" for y
    by (auto simp: client_arg_def split: if_splits option.splits sum.splits)
  with Cons show ?case by (auto split: sum.splits)
qed simp

lemma server_args_refused: "server_args args a = Inl x \<Longrightarrow> x \<noteq> Exited 0"
proof (induction args arbitrary: a)
  case (Cons arg args)
  have "server_arg arg a = Inl y \<Longrightarrow> y \<noteq> Exited 0" for y
    by (auto simp: server_arg_def split: if_splits option.splits sum.splits)
  with Cons show ?case by (auto split: sum.splits)
qed simp

text \<open>The port of the command line is cut to 16 bits.\<close>

lemma client_port_wraps:
  assumes "stoi v = Inr n"
  shows "client_arg (''--port:'' @ v) a = Inr (a\<lparr>ca_port := of_int (n mod 65536)\<rparr>)"
proof -
  have "(of_int n :: u16) = of_int (n mod 65536)" by (simp add: word_of_int_eq_iff take_bit_eq_mod)
  then show ?thesis using assms by (simp add: client_arg_def option_value_def starts_with_def)
qed

section \<open>Programs on the development adapters\<close>

text \<open>Client and server in one process, on the two ends of the development link; an elevated
  process on Windows, no files and no environment variables.\<close>

definition dev_app :: "nat \<Rightarrow> platform \<Rightarrow> dev_world net_api \<Rightarrow> dev_world app_env" where
  "dev_app i plat net =
     \<lparr>ap_engine = dev_env plat net identity_aead, ap_msquic = False, ap_token_member = Some True, ap_file = (\<lambda>_. None),
      ap_getenv = (\<lambda>_. None), ap_dev_interface = development_interface plat i,
      ap_wintun_interface = (\<lambda>_. development_interface plat i), ap_linux_interface = (\<lambda>_. development_interface plat i),
      ap_dev_transport = development_transport i, ap_quic_transport = development_transport i,
      ap_inject = inject_inbound_packet i\<rparr>"

lemma dev_app_forward: "app_forward (dev_app i plat net) dw_clock"
  using dev_clock.clocked_engine_axioms [of plat net identity_aead i]
  by (simp add: app_forward_def dev_app_def clocked_engine_def)

section \<open>Properties\<close>

text \<open>
  C28. The command line of the client cannot ask for more than the configuration check allows:
  when the client accepts its arguments, the configuration it builds is valid exactly when the
  endpoint is not empty, the port is not 0 and certificate checks are only skipped for the
  local host; and traffic is only routed into the tunnel over QUIC through the Wintun adapter.
\<close>

theorem client_config_valid:
  assumes "client_args_allowed env a"
    and "app_platform env = Windows \<Longrightarrow> parses net ''10.66.66.1'' \<and> parses net ''10.66.66.2'' \<and> parses net ''1.1.1.1''"
  shows "(is_valid (app_platform env) net (client_config env a) = None \<longleftrightarrow>
      ca_endpoint a \<noteq> [] \<and> ca_port a \<noteq> 0 \<and>
      (ca_use_quic a \<and> ca_insecure a \<longrightarrow> ca_endpoint a \<in> {''127.0.0.1'', ''localhost''})) \<and>
    (routing_active (client_config env a) \<longrightarrow> tc_prefer_quic (client_config env a) \<and> client_uses_wintun env a)"
proof -
  define c where "c = client_config env a"
  have f: "tc_role c = Client \<and> tc_endpoint c = ca_endpoint a \<and> tc_port c = ca_port a \<and> tc_mtu c = 1280 \<and>
      tc_prefer_quic c = ca_use_quic a \<and> \<not> tc_allow_zero_rtt c \<and> qc_insecure (tc_quic c) = ca_insecure a \<and>
      qc_alpn (tc_quic c) = ''sectunnel'' \<and> tc_ipv4 c = tc_ipv4 default_config \<and>
      tc_default_route_gateway c = ''10.66.66.1'' \<and>
      (tc_smart_route_domain_list c \<noteq> [] \<or> tc_smart_route_cidr_list c \<noteq> [])"
    by (simp add: c_def client_config_def client_routing_config_def default_config_def default_quic_config_def Let_def)
  have g: "routing_active c \<longrightarrow> ca_use_quic a \<and> client_uses_wintun env a"
    "tc_client_routing_mode c = Route_Smart \<longrightarrow> \<not> tc_enable_global_default_route c"
    using assms(1)
    by (auto simp: c_def client_config_def client_routing_config_def default_config_def routing_active_def
        client_args_allowed_def is_process_elevated_def client_uses_wintun_def Let_def split: if_splits)
  have q: "quic_policy c \<longleftrightarrow> (ca_insecure a \<longrightarrow> ca_endpoint a \<in> {''127.0.0.1'', ''localhost''})"
    using f by (simp add: quic_policy_def)
  have "app_platform env = Windows \<Longrightarrow> routing_policy net c \<and> address_policy net (tc_ipv4 c)"
    using f g assms(2) by (simp add: routing_policy_def address_policy_def default_config_def)
  then have "config_policy (app_platform env) net c \<longleftrightarrow> ca_endpoint a \<noteq> [] \<and> ca_port a \<noteq> 0 \<and> (ca_use_quic a \<longrightarrow> quic_policy c)"
    using f by (auto simp: config_policy_def)
  then show ?thesis using f g q by (auto simp: is_valid_None_iff c_def [symmetric])
qed

theorem client_config_valid_witness:
  "\<forall>net. \<exists>a. client_args [''--wintun'', ''--quic'', ''--global-route'', ''--endpoint:vpn''] default_client_args = Inr a \<and>
     is_valid Windows sample_api (client_config (dev_app 0 Windows net) a) = None \<and>
     routing_active (client_config (dev_app 0 Windows net) a)"
proof
  fix net
  let ?a = "default_client_args\<lparr>ca_use_wintun := True, ca_use_quic := True, ca_global_route := True, ca_endpoint := ''vpn''\<rparr>"
  have a: "client_args [''--wintun'', ''--quic'', ''--global-route'', ''--endpoint:vpn''] default_client_args = Inr ?a"
    by (simp add: client_arg_def option_value_def starts_with_def default_client_args_def)
  have p: "parses sample_api ''10.66.66.1'' \<and> parses sample_api ''10.66.66.2'' \<and> parses sample_api ''1.1.1.1''"
    by (simp add: parses_def parse_ipv4_def sample_api_def dotted_pton_def parse_octet_def)
  have w: "app_platform (dev_app 0 Windows net) = Windows" by (simp add: dev_app_def dev_env_def)
  have "client_args_allowed (dev_app 0 Windows net) ?a"
    by (simp add: client_args_allowed_def is_process_elevated_def dev_app_def dev_env_def default_client_args_def)
  from client_config_valid [OF this, of sample_api] p have
    "is_valid Windows sample_api (client_config (dev_app 0 Windows net) ?a) = None"
    unfolding w by (simp add: default_client_args_def)
  moreover have "routing_active (client_config (dev_app 0 Windows net) ?a)"
    unfolding client_config_def w by (simp add: client_routing_config_def routing_active_def default_client_args_def)
  ultimately show "\<exists>a. client_args [''--wintun'', ''--quic'', ''--global-route'', ''--endpoint:vpn''] default_client_args = Inr a \<and>
     is_valid Windows sample_api (client_config (dev_app 0 Windows net) a) = None \<and>
     routing_active (client_config (dev_app 0 Windows net) a)" using a by blast
qed



end
