(* ===== verification/Linux_Tun.thy ===== *)
theory Linux_Tun
  imports Handle_Owner Engine
begin

text \<open>
  The Linux interface, \<^verbatim>\<open>src/linux_tun_virtual_interface.cpp\<close>, over the POSIX calls it makes on
  \<^verbatim>\<open>/dev/net/tun\<close>. A call that fails returns \<open>None\<close> and leaves its code in \<open>errno\<close>, which no
  successful call resets. The open descriptor is an optional number, \<open>None\<close> being -1.
\<close>

section \<open>Data\<close>

record 'w tun_api =
  tp_open :: "'w \<Rightarrow> nat option \<times> 'w"
  tp_set_iff :: "nat \<Rightarrow> string \<Rightarrow> 'w \<Rightarrow> string option \<times> 'w"
  tp_read :: "nat \<Rightarrow> nat \<Rightarrow> 'w \<Rightarrow> bytes option \<times> 'w"
  tp_write :: "nat \<Rightarrow> bytes \<Rightarrow> 'w \<Rightarrow> nat option \<times> 'w"
  tp_close :: "nat \<Rightarrow> 'w \<Rightarrow> 'w"
  tp_errno :: "'w \<Rightarrow> nat"

datatype tun_error =
    Tun_Mtu_Out_Of_Range
  | Tun_Open_Failed nat
  | Tun_Name_Too_Long
  | Tun_Set_Iff_Failed nat
  | Tun_Read_Failed nat
  | Tun_Write_Failed nat

record LinuxTunVirtualInterface =
  lt_interface_name :: string
  lt_last_error :: "tun_error option"
  lt_fd :: "nat option"
  lt_mtu :: u16

definition new_linux_tun :: "string \<Rightarrow> LinuxTunVirtualInterface" where
  "new_linux_tun name = \<lparr>lt_interface_name = name, lt_last_error = None, lt_fd = None, lt_mtu = 1280\<rparr>"

text \<open>\<open>IFNAMSIZ\<close> is 16; \<open>EAGAIN\<close> and \<open>EWOULDBLOCK\<close> are both 11 on Linux.\<close>

abbreviation (input) IFNAMSIZ :: nat where "IFNAMSIZ \<equiv> 16"
abbreviation (input) EAGAIN :: nat where "EAGAIN \<equiv> 11"

section \<open>Operations\<close>

definition tun_close :: "'w tun_api \<Rightarrow> LinuxTunVirtualInterface \<Rightarrow> 'w \<Rightarrow> LinuxTunVirtualInterface \<times> 'w" where
  "tun_close api t w =
     (case lt_fd t of
        None \<Rightarrow> (t, w)
      | Some fd \<Rightarrow> (t\<lparr>lt_fd := None\<rparr>, tp_close api fd w))"

definition tun_open :: "'w tun_api \<Rightarrow> u16 \<Rightarrow> LinuxTunVirtualInterface \<Rightarrow> 'w \<Rightarrow> bool \<times> LinuxTunVirtualInterface \<times> 'w" where
  "tun_open api mtu t0 w0 =
     (case tun_close api t0 w0 of (t, w) \<Rightarrow>
        if mtu < 1280 \<or> 1420 < mtu then (False, t\<lparr>lt_last_error := Some Tun_Mtu_Out_Of_Range\<rparr>, w)
        else
          (case tp_open api w of
             (None, w1) \<Rightarrow> (False, t\<lparr>lt_fd := None, lt_last_error := Some (Tun_Open_Failed (tp_errno api w1))\<rparr>, w1)
           | (Some fd, w1) \<Rightarrow>
               (let t1 = t\<lparr>lt_fd := Some fd\<rparr> in
                if IFNAMSIZ \<le> length (lt_interface_name t1)
                then (case tun_close api (t1\<lparr>lt_last_error := Some Tun_Name_Too_Long\<rparr>) w1 of (t2, w2) \<Rightarrow> (False, t2, w2))
                else
                  (case tp_set_iff api fd (lt_interface_name t1) w1 of
                     (None, w2) \<Rightarrow>
                       (case tun_close api (t1\<lparr>lt_last_error := Some (Tun_Set_Iff_Failed (tp_errno api w2))\<rparr>) w2 of
                          (t3, w3) \<Rightarrow> (False, t3, w3))
                   | (Some name, w2) \<Rightarrow>
                       (True, t1\<lparr>lt_interface_name := name, lt_mtu := mtu, lt_last_error := None\<rparr>, w2)))))"

definition tun_read_packet :: "'w tun_api \<Rightarrow> LinuxTunVirtualInterface \<Rightarrow> 'w \<Rightarrow> bytes \<times> LinuxTunVirtualInterface \<times> 'w" where
  "tun_read_packet api t w =
     (case lt_fd t of
        None \<Rightarrow> ([], t, w)
      | Some fd \<Rightarrow>
          (case tp_read api fd (unat (lt_mtu t)) w of (result, w1) \<Rightarrow>
             if result = None \<or> result = Some []
             then ([], if tp_errno api w1 \<noteq> EAGAIN then t\<lparr>lt_last_error := Some (Tun_Read_Failed (tp_errno api w1))\<rparr> else t, w1)
             else (the result, t, w1)))"

definition tun_write_packet ::
  "'w tun_api \<Rightarrow> bytes \<Rightarrow> LinuxTunVirtualInterface \<Rightarrow> 'w \<Rightarrow> bool \<times> LinuxTunVirtualInterface \<times> 'w" where
  "tun_write_packet api packet t w =
     (case lt_fd t of
        None \<Rightarrow> (False, t, w)
      | Some fd \<Rightarrow>
          if packet = [] then (False, t, w)
          else
            (case tp_write api fd packet w of (written, w1) \<Rightarrow>
               if written \<noteq> Some (length packet)
               then (False, t\<lparr>lt_last_error := Some (Tun_Write_Failed (tp_errno api w1))\<rparr>, w1)
               else (True, t, w1)))"

text \<open>The object as the engine sees it; routing is that of the base class, and so is the destructor,
  which does nothing: the class declares none.\<close>

definition linux_tun_object :: "'w tun_api \<Rightarrow> (LinuxTunVirtualInterface \<times> 'w) VirtualInterface" where
  "linux_tun_object api =
     \<lparr>vi_open = (\<lambda>mtu (t, w). tun_open api mtu t w),
      vi_read_packet = (\<lambda>(t, w). tun_read_packet api t w),
      vi_write_packet = (\<lambda>packet (t, w). tun_write_packet api packet t w),
      vi_close = (\<lambda>(t, w). tun_close api t w),
      vi_apply_client_routing = base_apply_client_routing Posix,
      vi_clear_client_routing = base_clear_client_routing, vi_destroy = (\<lambda>s. s)\<rparr>"

section \<open>Lemmas\<close>

datatype tun_op = T_Open u16 | T_Close | T_Read | T_Write bytes

fun tun_step :: "'w tun_api \<Rightarrow> tun_op \<Rightarrow> LinuxTunVirtualInterface \<times> 'w \<Rightarrow> LinuxTunVirtualInterface \<times> 'w" where
  "tun_step api (T_Open mtu) (t, w) = snd (tun_open api mtu t w)"
| "tun_step api T_Close (t, w) = tun_close api t w"
| "tun_step api T_Read (t, w) = snd (tun_read_packet api t w)"
| "tun_step api (T_Write packet) (t, w) = snd (tun_write_packet api packet t w)"

text \<open>What the code relies on: \<open>read\<close> returns at most what was asked for, and the other calls
  leave the open descriptors alone.\<close>

definition tun_api_ok :: "'w tun_api \<Rightarrow> ('w \<Rightarrow> os_handle multiset) \<Rightarrow> bool" where
  "tun_api_ok api held \<longleftrightarrow>
     (\<forall>w fd w'. tp_open api w = (fd, w') \<longrightarrow> held w' = held w + owned H_Descriptor fd) \<and>
     (\<forall>fd w. held (tp_close api fd w) = held w - {#H_Descriptor fd#}) \<and>
     (\<forall>fd name w. held (snd (tp_set_iff api fd name w)) = held w) \<and>
     (\<forall>fd n w r w'. tp_read api fd n w = (r, w') \<longrightarrow> held w' = held w \<and> (\<forall>p. r = Some p \<longrightarrow> length p \<le> n)) \<and>
     (\<forall>fd p w. held (snd (tp_write api fd p w)) = held w)"

lemma tun_api_okD:
  assumes "tun_api_ok api held"
  shows "tp_open api w = (fd, w') \<Longrightarrow> held w' = held w + owned H_Descriptor fd"
    and "held (tp_close api k w) = held w - {#H_Descriptor k#}"
    and "tp_set_iff api k name w = (r1, w') \<Longrightarrow> held w' = held w"
    and "tp_read api k n w = (r, w') \<Longrightarrow> held w' = held w"
    and "tp_read api k n w = (Some p, w') \<Longrightarrow> length p \<le> n"
    and "tp_write api k q w = (r2, w') \<Longrightarrow> held w' = held w"
  using assms unfolding tun_api_ok_def by (simp, simp, metis snd_conv, simp, simp, metis snd_conv)

definition tun_state_ok :: "'w tun_api \<Rightarrow> ('w \<Rightarrow> os_handle multiset) \<Rightarrow> LinuxTunVirtualInterface \<times> 'w \<Rightarrow> bool" where
  "tun_state_ok api held s \<longleftrightarrow>
     tun_api_ok api held \<and> owned H_Descriptor (lt_fd (fst s)) \<subseteq># held (snd s) \<and> lt_mtu (fst s) \<le> 1420"

lemma tun_close_spec:
  assumes "tun_state_ok api held (t, w)" and "tun_close api t w = (t', w')"
  shows "lt_fd t' = None \<and> lt_mtu t' = lt_mtu t \<and> lt_interface_name t' = lt_interface_name t \<and>
    held w' + owned H_Descriptor (lt_fd t) = held w"
  using assms tun_api_okD(2) [of api held]
  by (cases "lt_fd t") (auto simp: tun_close_def tun_state_ok_def)

lemma tun_open_spec:
  assumes s: "tun_state_ok api held (t, w)" and run: "tun_open api mtu t w = (ok, t', w')"
  shows "(ok \<longleftrightarrow> lt_fd t' \<noteq> None) \<and> lt_mtu t' \<le> 1420 \<and>
    held w' + owned H_Descriptor (lt_fd t) = held w + owned H_Descriptor (lt_fd t')"
proof -
  have api: "tun_api_ok api held" using s by (simp add: tun_state_ok_def)
  obtain t1 w1 where c: "tun_close api t w = (t1, w1)" by fastforce
  note cl = tun_close_spec [OF s c]
  have mtu1: "lt_mtu t1 \<le> 1420" using cl s by (simp add: tun_state_ok_def)
  obtain fd w2 where op: "tp_open api w1 = (fd, w2)" by fastforce
  note h2 = tun_api_okD(1) [OF api op]
  have "(ok \<longleftrightarrow> lt_fd t' \<noteq> None) \<and> lt_mtu t' \<le> 1420 \<and> held w' = held w1 + owned H_Descriptor (lt_fd t')"
  proof (cases "mtu < 1280 \<or> 1420 < mtu \<or> fd = None")
    case True
    then show ?thesis using run c op cl mtu1 h2 by (auto simp: tun_open_def split: if_splits)
  next
    case False
    then obtain k where k: "fd = Some k" by blast
    obtain nm w3 where i: "tp_set_iff api k (lt_interface_name t1) w2 = (nm, w3)" by fastforce
    note h3 = tun_api_okD(3) [OF api i]
    show ?thesis
      using run c op cl mtu1 h2 h3 False k i tun_api_okD(2) [OF api]
      by (cases nm) (auto simp: tun_open_def tun_close_def Let_def split: if_splits)
  qed
  then show ?thesis using cl by (metis add.assoc add.commute)
qed

lemma tun_step_balance:
  assumes s: "tun_state_ok api held s" and run: "tun_step api op s = s'"
  shows "lt_mtu (fst s') \<le> 1420 \<and>
    held (snd s') + owned H_Descriptor (lt_fd (fst s)) = held (snd s) + owned H_Descriptor (lt_fd (fst s'))"
proof -
  obtain t w t' w' where p: "s = (t, w)" "s' = (t', w')" by (metis prod.exhaust)
  have api: "tun_api_ok api held" and mtu: "lt_mtu t \<le> 1420" using s p by (simp_all add: tun_state_ok_def)
  have s1: "tun_state_ok api held (t, w)" using s p by simp
  show ?thesis
  proof (cases op)
    case (T_Open m)
    then obtain b where "tun_open api m t w = (b, t', w')" using run p by (metis prod.collapse tun_step.simps(1))
    from tun_open_spec [OF s1 this] show ?thesis using p by simp
  next
    case T_Close
    then have "tun_close api t w = (t', w')" using run p by simp
    from tun_close_spec [OF s1 this] show ?thesis using p mtu by simp
  next
    case T_Read
    then show ?thesis using run p mtu tun_api_okD(4) [OF api]
      by (auto simp: tun_read_packet_def split: option.splits prod.splits if_splits)
  next
    case (T_Write q)
    then show ?thesis using run p mtu tun_api_okD(6) [OF api]
      by (auto simp: tun_write_packet_def split: option.splits prod.splits if_splits)
  qed
qed

interpretation tun: handle_owner "tun_step api" "tun_step api T_Close" "\<lambda>s. held (snd s)"
  "\<lambda>s. owned H_Descriptor (lt_fd (fst s))" "tun_state_ok api held"
proof unfold_locales
  fix s op
  assume s: "tun_state_ok api held s"
  note b = tun_step_balance [OF s refl, of op]
  then show "held (snd (tun_step api op s)) + owned H_Descriptor (lt_fd (fst s)) =
    held (snd s) + owned H_Descriptor (lt_fd (fst (tun_step api op s)))" by simp
  have "owned H_Descriptor (lt_fd (fst (tun_step api op s))) \<subseteq># held (snd (tun_step api op s))"
    using balanced_own [OF conjunct2 [OF b]] s by (simp add: tun_state_ok_def)
  then show "tun_state_ok api held (tun_step api op s)" using b s by (simp add: tun_state_ok_def)
next
  fix s
  assume s: "tun_state_ok api held s"
  obtain t w t' w' where c: "s = (t, w)" "tun_close api t w = (t', w')" by (metis prod.exhaust)
  show "held (snd (tun_step api T_Close s)) + owned H_Descriptor (lt_fd (fst s)) = held (snd s)"
    using tun_close_spec [of api held t w t' w'] s c by simp
qed

section \<open>Properties\<close>

text \<open>
  C34. The Linux interface keeps its bounds: after any calls on a new interface, also failed
  ones, a packet that is read has at most 1420 bytes, \<open>open\<close> succeeds exactly when it leaves
  a descriptor, and \<open>close\<close> returns the process to the descriptors it had before.
\<close>

theorem linux_tun_bounded_and_released:
  assumes "tun_api_ok api held" and "fold (tun_step api) ops (new_linux_tun name, w) = (t, w1)"
    and "tun_read_packet api t w1 = (p, t2, w2)" and "tun_open api mtu t w1 = (ok, t3, w3)"
  shows "length p \<le> 1420 \<and> (ok \<longleftrightarrow> lt_fd t3 \<noteq> None) \<and> held (snd (tun_step api T_Close (t, w1))) = held w"
proof -
  have s0: "tun_state_ok api held (new_linux_tun name, w)" and o0: "owned H_Descriptor (lt_fd (new_linux_tun name)) = {#}"
    using assms(1) by (simp_all add: tun_state_ok_def new_linux_tun_def)
  have s: "tun_state_ok api held (t, w1)" using tun.run_wf [OF s0, of ops] assms(2) by simp
  have "held (snd (tun_step api T_Close (t, w1))) = held w"
    using tun.all_released [OF s0, of ops] o0 assms(2) by simp
  moreover have "length p \<le> unat (lt_mtu t)"
    using assms(3) tun_api_okD(5) [OF assms(1)]
    by (auto simp: tun_read_packet_def split: option.splits prod.splits if_splits)
  moreover have "unat (lt_mtu t) \<le> 1420" using s by (simp add: tun_state_ok_def word_le_nat_alt)
  ultimately show ?thesis using tun_open_spec [OF s assms(4)] by simp
qed

definition sample_tun :: "os_handle multiset tun_api" where
  "sample_tun =
     \<lparr>tp_open = (\<lambda>w. (Some 4, add_mset (H_Descriptor 4) w)), tp_set_iff = (\<lambda>_ name w. (Some name, w)),
      tp_read = (\<lambda>_ n w. (Some (replicate n 0), w)), tp_write = (\<lambda>_ p w. (Some (length p), w)),
      tp_close = (\<lambda>fd w. w - {#H_Descriptor fd#}), tp_errno = (\<lambda>_. 11)\<rparr>"

lemma sample_tun_ok: "tun_api_ok sample_tun (\<lambda>w. w)"
  by (auto simp: tun_api_ok_def sample_tun_def)

theorem linux_tun_bounded_and_released_witness:
  "\<exists>t w1. fold (tun_step sample_tun) [T_Open 1400, T_Read, T_Write [1]] (new_linux_tun ''sectun0'', {#}) = (t, w1) \<and>
     lt_fd t = Some 4 \<and> length (fst (tun_read_packet sample_tun t w1)) \<le> 1420 \<and>
     snd (tun_step sample_tun T_Close (t, w1)) = {#}"
proof -
  obtain t w1 where f: "fold (tun_step sample_tun) [T_Open 1400, T_Read, T_Write [1]] (new_linux_tun ''sectun0'', {#}) = (t, w1)"
    by (meson surj_pair)
  then have fd: "lt_fd t = Some 4"
    by (auto simp: new_linux_tun_def tun_open_def tun_close_def tun_read_packet_def tun_write_packet_def sample_tun_def Let_def)
  obtain p t2 w2 where r: "tun_read_packet sample_tun t w1 = (p, t2, w2)" by (metis prod_cases3)
  obtain ok t3 w3 where o1: "tun_open sample_tun 1280 t w1 = (ok, t3, w3)" by (metis prod_cases3)
  from linux_tun_bounded_and_released [OF sample_tun_ok f r o1] f fd r show ?thesis by simp
qed

end
