(* ===== verification/Engine_Ownership.thy ===== *)
theory Engine_Ownership
  imports Engine_Frame Linux_Tun Wintun_Interface
begin

text \<open>
  The engine together with an interface that owns system handles: whatever the engine does,
  \<open>stop\<close> gives every handle back. Proved once for any owning interface and then for the
  Linux and the Wintun interface.
\<close>

section \<open>An engine on an owning interface\<close>

locale owning_engine =
  fixes env :: "'s engine_env" and vi :: "'s VirtualInterface" and st :: "'s SecureTransport"
    and wf :: "'s \<Rightarrow> bool" and held own :: "'s \<Rightarrow> os_handle multiset"
  assumes owning: "interface_related (balanced wf held own) any_world any_config vi"
    and quiet_transport: "transport_related (balanced wf held own) any_world st"
    and quiet_env: "env_related (balanced wf held own) env"
    and close_releases: "wf s \<Longrightarrow> held (vi_close vi s) + own s = held s"

sublocale owning_engine \<subseteq> engine_calls env vi st "balanced wf held own" any_world any_config
  by unfold_locales (auto intro: balanced_trans simp: owning quiet_transport quiet_env)

context owning_engine
begin

lemma stop_releases:
  assumes "wf s" "own s = {#}" and run: "engine_reaches env (e, s) (e1, s1)" and e: "engine_fits any_config vi st e"
    and "stop e1 s1 = (e2, s2)"
  shows "held s2 = held s"
proof -
  let ?c = "st_close st (vi_clear_client_routing vi s1)"
  have h: "engine_fits any_config vi st e1" and b: "balanced wf held own s s1" using reaches_related [OF run] e by simp_all
  have "balanced wf held own s1 (vi_clear_client_routing vi s1)" "balanced wf held own (vi_clear_client_routing vi s1) ?c"
    using owning quiet_transport by (simp_all add: interface_related_def transport_related_def)
  then have c: "balanced wf held own s ?c" using b by (blast intro: R_trans)
  have "s2 = vi_close vi ?c" using stop_world [of e1 s1] assms(5) h by (simp add: engine_fits_def)
  moreover have "wf ?c" "held ?c + own s = held s + own ?c" using c assms(1) by (simp_all add: balanced_def)
  ultimately show ?thesis using close_releases [of ?c] assms(2) by simp
qed

end

text \<open>An interface whose destructor releases what it owns.\<close>

locale self_cleaning_engine = owning_engine +
  assumes destroy_releases: "wf s \<Longrightarrow> held (vi_destroy vi s) + own s = held s"
begin

lemma destroyed_releases:
  assumes "wf s" "own s = {#}" and run: "engine_reaches env (e, s) (e1, s1)" and e: "engine_fits any_config vi st e"
  shows "held (destroy_engine e1 s1) = held s"
proof -
  have h: "engine_fits any_config vi st e1" and b: "balanced wf held own s s1" using reaches_related [OF run] e by simp_all
  have "balanced wf held own s1 (st_destroy st s1)" using quiet_transport by (simp add: transport_related_def)
  then have "balanced wf held own s (st_destroy st s1)" using b by (blast intro: R_trans)
  then have "wf (st_destroy st s1)" "held (st_destroy st s1) + own s = held s + own (st_destroy st s1)"
    using assms(1) by (simp_all add: balanced_def)
  then show ?thesis
    using destroy_releases [of "st_destroy st s1"] h assms(2) by (simp add: destroy_engine_def engine_fits_def)
qed

end

section \<open>Transports and environments beside the interface\<close>

text \<open>
  The world is the interface object and the rest of the system; a transport or an environment
  beside it changes neither what \<open>same\<close> says of the object nor the handles that are counted.
\<close>

definition beside :: "('o \<Rightarrow> 'o \<Rightarrow> bool) \<Rightarrow> ('w \<Rightarrow> os_handle multiset) \<Rightarrow> 'o \<times> 'w \<Rightarrow> 'o \<times> 'w \<Rightarrow> bool" where
  "beside same held s s' \<longleftrightarrow> same (fst s) (fst s') \<and> held (snd s') = held (snd s)"

definition engine_beside ::
  "('o \<Rightarrow> 'o \<Rightarrow> bool) \<Rightarrow> ('w \<Rightarrow> os_handle multiset) \<Rightarrow> ('o \<times> 'w) engine_env \<Rightarrow> ('o \<times> 'w) SecureTransport \<Rightarrow> bool" where
  "engine_beside same held env st \<longleftrightarrow> transport_related (beside same held) any_world st \<and> env_related (beside same held) env"

lemma beside_balanced:
  assumes "\<And>s. good s \<Longrightarrow> engine_beside same held env st"
    and "\<And>s s'. good s \<Longrightarrow> beside same held s s' \<Longrightarrow> good s'"
    and "\<And>o1 o2. same o1 o2 \<Longrightarrow> own o2 = own o1"
  shows "transport_related (balanced good (\<lambda>s. held (snd s)) (\<lambda>s. own (fst s))) any_world st"
    and "env_related (balanced good (\<lambda>s. held (snd s)) (\<lambda>s. own (fst s))) env"
proof -
  let ?B = "balanced good (\<lambda>s. held (snd s)) (\<lambda>s. own (fst s))"
  have "transport_related ?B any_world st \<and> env_related ?B env"
  proof (cases "engine_beside same held env st")
    case True
    have "beside same held s s' \<Longrightarrow> ?B s s'" for s s'
      using assms(2) [of s s'] assms(3) [of "fst s" "fst s'"] by (auto simp: balanced_def beside_def)
    with True show ?thesis unfolding engine_beside_def
      by (auto elim!: transport_related_mono env_related_mono)
  next
    case False
    then have "\<not> good s" for s using assms(1) by blast
    then show ?thesis by (simp add: transport_related_def env_related_def balanced_def)
  qed
  then show "transport_related ?B any_world st" and "env_related ?B env" by blast+
qed

section \<open>The Linux interface\<close>

definition tun_world_ok ::
  "'w tun_api \<Rightarrow> ('w \<Rightarrow> os_handle multiset) \<Rightarrow> (LinuxTunVirtualInterface \<times> 'w) engine_env \<Rightarrow>
   (LinuxTunVirtualInterface \<times> 'w) SecureTransport \<Rightarrow> LinuxTunVirtualInterface \<times> 'w \<Rightarrow> bool" where
  "tun_world_ok api held env st s \<longleftrightarrow> tun_state_ok api held s \<and> engine_beside (=) held env st"

lemma tun_calls_are_steps:
  "snd (vi_open (linux_tun_object api) mtu s) = tun_step api (T_Open mtu) s"
  "snd (vi_read_packet (linux_tun_object api) s) = tun_step api T_Read s"
  "snd (vi_write_packet (linux_tun_object api) p s) = tun_step api (T_Write p) s"
  "vi_close (linux_tun_object api) s = tun_step api T_Close s"
  "snd (vi_apply_client_routing (linux_tun_object api) c s) = s"
  "vi_clear_client_routing (linux_tun_object api) s = s"
  "vi_destroy (linux_tun_object api) s = s"
  by (cases s, simp add: linux_tun_object_def base_apply_client_routing_def base_clear_client_routing_def)+

interpretation tun_engine: owning_engine env "linux_tun_object api" st "tun_world_ok api held env st"
  "\<lambda>s. held (snd s)" "\<lambda>s. owned H_Descriptor (lt_fd (fst s))"
proof unfold_locales
  let ?B = "balanced (tun_world_ok api held env st) (\<lambda>s. held (snd s)) (\<lambda>s. owned H_Descriptor (lt_fd (fst s)))"
  have "?B s (tun_step api op s)" for op s
    using tun.step_wf [of api held s op] tun.step_held [of api held s op] by (simp add: balanced_def tun_world_ok_def)
  then show "interface_related ?B any_world any_config (linux_tun_object api)" by (simp add: interface_related_def tun_calls_are_steps)
  note quiet = beside_balanced [of "tun_world_ok api held env st" "(=)" held env st "\<lambda>t. owned H_Descriptor (lt_fd t)"]
  show "transport_related ?B any_world st" "env_related ?B env"
    by (rule quiet; auto simp: tun_world_ok_def tun_state_ok_def beside_def)+
  show "held (snd (vi_close (linux_tun_object api) s)) + owned H_Descriptor (lt_fd (fst s)) = held (snd s)"
    if "tun_world_ok api held env st s" for s
    using tun.release_held [of api held s] that by (simp add: tun_calls_are_steps tun_world_ok_def)
qed

section \<open>The Wintun interface\<close>

definition wintun_world_ok ::
  "'w wintun_system \<Rightarrow> ('w \<Rightarrow> os_handle multiset) \<Rightarrow> (WintunVirtualInterface \<times> 'w) engine_env \<Rightarrow>
   (WintunVirtualInterface \<times> 'w) SecureTransport \<Rightarrow> WintunVirtualInterface \<times> 'w \<Rightarrow> bool" where
  "wintun_world_ok sys held env st s \<longleftrightarrow> wintun_state_ok sys held s \<and> engine_beside same_handles held env st"

lemma wintun_calls_are_steps:
  "snd (vi_open (wintun_object sys) mtu s) = wintun_step sys (W_Open mtu) s"
  "snd (vi_read_packet (wintun_object sys) s) = wintun_step sys W_Read s"
  "snd (vi_write_packet (wintun_object sys) p s) = wintun_step sys (W_Write p) s"
  "vi_close (wintun_object sys) s = wintun_step sys W_Close s"
  "snd (vi_apply_client_routing (wintun_object sys) c s) = wintun_step sys (W_Apply c) s"
  "vi_clear_client_routing (wintun_object sys) s = wintun_step sys W_Clear s"
  by (cases s, simp add: wintun_object_def)+

interpretation wintun_engine: self_cleaning_engine env "wintun_object sys" st "wintun_world_ok sys held env st"
  "\<lambda>s. held (snd s)" "\<lambda>s. wintun_own (fst s)"
proof unfold_locales
  let ?B = "balanced (wintun_world_ok sys held env st) (\<lambda>s. held (snd s)) (\<lambda>s. wintun_own (fst s))"
  have step: "?B s (wintun_step sys op s)" for op s
    using wintun.step_wf [of sys held s op] wintun.step_held [of sys held s op]
    by (simp add: balanced_def wintun_world_ok_def)
  have destroy: "wintun_world_ok sys held env st (vi_destroy (wintun_object sys) s) \<and>
      wintun_own (fst (vi_destroy (wintun_object sys) s)) = {#} \<and>
      held (snd (vi_destroy (wintun_object sys) s)) + wintun_own (fst s) = held (snd s)"
    if "wintun_world_ok sys held env st s" for s
  proof -
    obtain wi w wi' w' where s: "s = (wi, w)" "wintun_destroy sys wi w = (wi', w')" by (metis prod.exhaust)
    then show ?thesis
      using that wintun_destroy_spec [of sys held wi w wi' w']
      by (auto simp: wintun_world_ok_def wintun_state_ok_def wintun_object_def)
  qed
  have "?B s (vi_destroy (wintun_object sys) s)" for s using destroy [of s] unfolding balanced_def by auto
  with step show "interface_related ?B any_world any_config (wintun_object sys)"
    by (simp add: interface_related_def wintun_calls_are_steps)
  show "held (snd (vi_destroy (wintun_object sys) s)) + wintun_own (fst s) = held (snd s)"
    if "wintun_world_ok sys held env st s" for s using destroy [OF that] by simp
  note quiet = beside_balanced [of "wintun_world_ok sys held env st" same_handles held env st wintun_own]
  show "transport_related ?B any_world st" "env_related ?B env"
    by (rule quiet; auto simp: wintun_world_ok_def wintun_state_ok_def beside_def dest: same_handlesD)+
  show "held (snd (vi_close (wintun_object sys) s)) + wintun_own (fst s) = held (snd s)"
    if "wintun_world_ok sys held env st s" for s
    using wintun.release_held [of sys held s] that by (simp add: wintun_calls_are_steps wintun_world_ok_def)
qed

section \<open>Engines leave no handle behind\<close>

text \<open>
  In every state an engine on a new interface reaches, whatever is called in whatever order,
  whatever fails and whenever a signal arrives or the refresh thread runs, \<open>stop\<close> leaves the
  process with exactly the handles it held before.
\<close>

lemma wintun_engine_releases:
  assumes "system_handles_ok sys held" and "engine_beside same_handles held env st"
    and "engine_reaches env (new_engine config (Some (wintun_object sys)) (Some st) inner, (new_wintun name kind ring v4, w)) (e, s)"
    and "stop e s = (e', s')"
  shows "held (snd s') = held w"
proof -
  have "wintun_world_ok sys held env st (new_wintun name kind ring v4, w)" "wintun_own (new_wintun name kind ring v4) = {#}"
    using assms(1,2)
    by (simp_all add: wintun_world_ok_def wintun_state_ok_def new_wintun_def wintun_wf_def wintun_own_def loader_wf_def
        is_loaded_def new_loader_def)
  then show ?thesis using wintun_engine.stop_releases [OF _ _ assms(3) _ assms(4)] by simp
qed

lemma tun_engine_releases:
  assumes "tun_api_ok api held" and "engine_beside (=) held env st"
    and "engine_reaches env (new_engine config (Some (linux_tun_object api)) (Some st) inner, (new_linux_tun name, w)) (e, s)"
    and "stop e s = (e', s')"
  shows "held (snd s') = held w"
proof -
  have "tun_world_ok api held env st (new_linux_tun name, w)" "owned H_Descriptor (lt_fd (new_linux_tun name)) = {#}"
    using assms(1,2) by (simp_all add: tun_world_ok_def tun_state_ok_def new_linux_tun_def)
  then show ?thesis using tun_engine.stop_releases [OF _ _ assms(3) _ assms(4)] by simp
qed

text \<open>Used where a theorem is applied to a concrete input.\<close>

lemma still_beside: "(\<And>x. same x x) \<Longrightarrow> engine_beside same held (still_env plat net) accepting_transport"
  by (simp add: engine_beside_def transport_related_def env_related_def beside_def still_env_def
      accepting_transport_def base_open_data_channel_def)

end
