(* ===== verification/App_Cleanup.thy ===== *)
theory App_Cleanup
  imports Apps Engine_Ownership Engine_Routes
begin

text \<open>
  The programs together with the interfaces they construct: what the client leaves behind on a
  Windows system however it ends, and what the server leaves behind on a Linux system when
  its engine does not start.
\<close>

section \<open>How a program ends\<close>

lemma run_data_plane_reaches:
  assumes "run_data_plane_for env ms e w = Some (e', w')"
  shows "engine_reaches env (e, w) (e', w')"
proof -
  obtain t w1 where t: "env_now env w = (t, w1)" by fastforce
  obtain n where "data_plane_loop env (t + ms) n e w1 = Some (e', w')"
    using assms t by (auto simp: run_data_plane_for_def Let_def)
  from data_plane_loop_reaches [OF this] step_clock [OF t] show ?thesis
    by (meson converse_rtranclp_into_rtranclp)
qed

lemma relay_then_stop_ends:
  assumes "relay_then_stop env relay e w = Some (x, w')"
  obtains e2 w2 where "engine_reaches env (e, w) (e2, w2)" and "w' = destroy_engine e2 w2"
proof -
  obtain e1 w1 where r: "(case relay of None \<Rightarrow> Some (e, w) | Some ms \<Rightarrow> run_data_plane_for env ms e w) = Some (e1, w1)"
    using assms by (auto simp: relay_then_stop_def split: option.splits)
  obtain e2 w2 where s: "stop e1 w1 = (e2, w2)" by fastforce
  have "engine_reaches env (e, w) (e1, w1)"
    using r run_data_plane_reaches by (cases relay) auto
  then have "engine_reaches env (e, w) (e2, w2)" using step_stop [OF s] by (rule rtranclp.rtrancl_into_rtrancl)
  moreover have "w' = destroy_engine e2 w2" using assms r s by (simp add: relay_then_stop_def)
  ultimately show thesis by (rule that)
qed

text \<open>A client on Wintun ends by destroying an interface it never used, or an engine.\<close>

lemma client_run_ends:
  assumes run: "client_run env a w = Some (x, w')" and wintun: "client_uses_wintun env a"
  obtains (no_transport) "w' = vi_destroy (client_interface env a) w"
  | (engine) st e2 w2 where "make_transport env (ca_use_quic a) = Some st"
      and "engine_reaches (ap_engine env) (new_engine (client_config env a) (Some (client_interface env a)) (Some st) None, w) (e2, w2)"
      and "w' = destroy_engine e2 w2"
proof (cases "make_transport env (ca_use_quic a)")
  case None
  then show thesis using run no_transport by (simp add: client_run_def)
next
  case (Some st)
  let ?e0 = "new_engine (client_config env a) (Some (client_interface env a)) (Some st) None"
  obtain ok e w1 where s: "start (ap_engine env) ?e0 w = (ok, e, w1)" by (metis prod_cases3)
  have started: "engine_reaches (ap_engine env) (?e0, w) (e, w1)" using step_start [OF s] by blast
  show thesis
  proof (cases ok)
    case False
    then show thesis using run Some s started engine [OF Some started] by (simp add: client_run_def)
  next
    case True
    then have "relay_then_stop (ap_engine env) (client_relay_ms a) e w1 = Some (x, w')"
      using run Some s wintun by (simp add: client_run_def Let_def)
    then show thesis
    proof (rule relay_then_stop_ends)
      fix e2 w2 assume "engine_reaches (ap_engine env) (e, w1) (e2, w2)" "w' = destroy_engine e2 w2"
      then show thesis using engine [OF Some rtranclp_trans [OF started]] by blast
    qed
  qed
qed

section \<open>The client on the Wintun interface\<close>

text \<open>The interface object \<open>main\<close> constructs.\<close>

definition client_wintun_object :: "'w app_env \<Rightarrow> ClientArgs \<Rightarrow> WintunVirtualInterface" where
  "client_wintun_object env a = new_wintun ''SecureTunnel'' ''SecureTunnel'' 0x400000 (tc_ipv4 (client_config env a))"

definition app_transports :: "'w app_env \<Rightarrow> 'w SecureTransport set" where
  "app_transports env = {ap_dev_transport env, ap_quic_transport env}"

lemma make_transport_in: "make_transport env q = Some st \<Longrightarrow> st \<in> app_transports env"
  by (auto simp: make_transport_def app_transports_def split: if_splits)

lemma client_wintun_ends:
  assumes iface: "\<And>v4. ap_wintun_interface env v4 = wintun_object sys"
    and args: "client_args args default_client_args = Inr a" and wintun: "client_uses_wintun env a"
    and run: "client_main env args (client_wintun_object env a, w) = Some (x, s)"
  obtains (refused) "s = (client_wintun_object env a, w)"
  | (unused) "s = wintun_destroy sys (client_wintun_object env a) w"
  | (engine) st e2 s2 where "st \<in> app_transports env"
      and "engine_reaches (ap_engine env)
             (new_engine (client_config env a) (Some (wintun_object sys)) (Some st) None, (client_wintun_object env a, w)) (e2, s2)"
      and "s = destroy_engine e2 s2"
proof (cases "client_args_allowed env a")
  case False
  then show thesis using run args refused by (simp add: client_main_def)
next
  case True
  have i: "client_interface env a = wintun_object sys" using wintun iface by (simp add: client_interface_def)
  have "client_run env a (client_wintun_object env a, w) = Some (x, s)" using run args True by (simp add: client_main_def)
  then show thesis using wintun
  proof (cases rule: client_run_ends)
    case no_transport
    then show thesis using unused i by (simp add: wintun_object_def)
  next
    case (engine st e2 w2)
    then show thesis using that(3) i make_transport_in by metis
  qed
qed

lemma new_wintun_clean:
  "wintun_own (client_wintun_object env a) = {#}" "wintun_wf (client_wintun_object env a)"
  "\<not> wi_client_routes_applied (client_wintun_object env a)" "no_routes_recorded (client_wintun_object env a)"
  by (simp_all add: client_wintun_object_def new_wintun_def wintun_own_def wintun_wf_def loader_wf_def is_loaded_def
      new_loader_def no_routes_recorded_def new_net_config_def new_route_manager_def)

section \<open>A concrete client\<close>

text \<open>An elevated client on Windows that is asked to stop as soon as it relays.\<close>

definition stopping_env :: "'w engine_env" where
  "stopping_env = (still_env Windows idle_net)\<lparr>env_signal := (\<lambda>w. (Signal_Request_Stop, w))\<rparr>"

definition wintun_app :: "'w wintun_system \<Rightarrow> (WintunVirtualInterface \<times> 'w) app_env" where
  "wintun_app sys =
     \<lparr>ap_engine = stopping_env, ap_msquic = True, ap_token_member = Some True, ap_file = (\<lambda>_. None), ap_getenv = (\<lambda>_. None),
      ap_dev_interface = wintun_object sys, ap_wintun_interface = (\<lambda>_. wintun_object sys),
      ap_linux_interface = (\<lambda>_. wintun_object sys), ap_dev_transport = accepting_transport,
      ap_quic_transport = accepting_transport, ap_inject = (\<lambda>_ w. w)\<rparr>"

lemma stopping_relay_returns: "relay_then_stop stopping_env relay e (s :: 'w) \<noteq> None"
proof -
  have "data_plane_loop stopping_env t n e' (s' :: 'w) \<noteq> None" for t n e' s'
    by (subst data_plane_loop.simps) (simp add: stopping_env_def poll_signal_def request_data_plane_stop_def)
  then have "run_data_plane_for stopping_env ms e s \<noteq> None" for ms
    by (simp add: run_data_plane_for_def Let_def del: not_None_eq split: prod.splits)
  then show ?thesis by (cases relay) (auto simp: relay_then_stop_def split: prod.splits option.splits)
qed

lemma wintun_app_engine [simp]: "ap_engine (wintun_app sys) = stopping_env"
  by (simp add: wintun_app_def)

lemma wintun_app_returns:
  assumes "client_args_allowed (wintun_app sys) a" and "client_args args default_client_args = Inr a"
  shows "\<exists>x s. client_main (wintun_app sys) args w = Some (x, s)"
proof -
  have "client_main (wintun_app sys) args w \<noteq> None"
    using assms
    by (simp add: client_main_def client_run_def Let_def stopping_relay_returns del: not_None_eq split: option.split prod.split)
  then show ?thesis by (metis not_None_eq surj_pair)
qed

lemma stopping_related [simp]: "env_related R stopping_env \<longleftrightarrow> (\<forall>w. R w w)"
  by (auto simp: env_related_def stopping_env_def still_env_def)

lemma wintun_app_transports: "app_transports (wintun_app sys) = {accepting_transport}"
  by (simp add: app_transports_def wintun_app_def)

text \<open>The arguments of a client that routes everything.\<close>

abbreviation (input) global_args :: "string list" where
  "global_args \<equiv> [''--wintun'', ''--quic'', ''--global-route'', ''--endpoint:203.0.113.10'']"

lemma global_args_accepted:
  "\<exists>a. client_args global_args default_client_args = Inr a \<and> client_args_allowed (wintun_app sys) a \<and> client_uses_wintun (wintun_app sys) a"
  by (simp add: client_arg_def option_value_def starts_with_def default_client_args_def client_args_allowed_def is_process_elevated_def
      client_uses_wintun_def wintun_app_def stopping_env_def still_env_def)

section \<open>Properties\<close>






definition refusing_transport :: "'w SecureTransport" where
  "refusing_transport = accepting_transport\<lparr>st_connect := (\<lambda>_ w. (False, w))\<rparr>"

definition tun_app :: "(LinuxTunVirtualInterface \<times> os_handle multiset) app_env" where
  "tun_app =
     \<lparr>ap_engine = still_env Posix idle_net, ap_msquic = False, ap_token_member = None, ap_file = (\<lambda>_. None), ap_getenv = (\<lambda>_. None),
      ap_dev_interface = linux_tun_object sample_tun, ap_wintun_interface = (\<lambda>_. linux_tun_object sample_tun),
      ap_linux_interface = (\<lambda>_. linux_tun_object sample_tun), ap_dev_transport = refusing_transport,
      ap_quic_transport = refusing_transport, ap_inject = (\<lambda>_ w. w)\<rparr>"


end
