(* ===== verification/Error_Text.thy ===== *)
theory Error_Text
  imports Cpp_Text
begin

text \<open>
  The texts of system error codes: \<open>format_win32_error\<close> of \<^verbatim>\<open>src/wintun_loader.cpp\<close> and
  \<open>format_iphlp_error\<close> of \<^verbatim>\<open>src/windows_net_config.cpp\<close>. The other theories keep the code; these
  functions are what the program shows of it. Literals are the UTF-8 bytes of the source.
\<close>

section \<open>The texts\<close>

text \<open>\<open>std::to_string\<close> of an unsigned number.\<close>

fun to_string :: "nat \<Rightarrow> string" where
  "to_string n = (if n < 10 then [char_of (48 + n)] else to_string (n div 10) @ [char_of (48 + n mod 10)])"

declare to_string.simps [simp del]

text \<open>The UTF-8 bytes of the Chinese word for "error".\<close>

definition error_word :: string where
  "error_word = [CHR 0xE9, CHR 0x94, CHR 0x99, CHR 0xE8, CHR 0xAF, CHR 0xAF]"

definition no_error_text :: string where
  "no_error_text = [CHR 0xE6, CHR 0x97, CHR 0xA0] @ error_word"

definition line_blank :: "char \<Rightarrow> bool" where
  "line_blank c \<longleftrightarrow> c = CHR 0x0D \<or> c = CHR 0x0A \<or> c = CHR '' ''"

text \<open>\<open>format_message\<close> is the text of \<open>FormatMessageA\<close>, \<open>None\<close> when it gives none.\<close>

definition format_win32_error :: "(u32 \<Rightarrow> string option) \<Rightarrow> u32 \<Rightarrow> string" where
  "format_win32_error format_message code =
     (if code = 0 then no_error_text
      else
        (let text = ''Win32 '' @ error_word @ '' '' @ to_string (unat code) in
         case format_message code of
           None \<Rightarrow> text
         | Some message \<Rightarrow> strip_back line_blank (text @ '': '' @ message)))"

definition format_iphlp_error :: "u32 \<Rightarrow> string" where
  "format_iphlp_error status = ''IP Helper '' @ error_word @ '' '' @ to_string (unat status)"

section \<open>Lemmas\<close>

lemma digits_value_snoc: "digits_value (ds @ [c]) = 10 * digits_value ds + (of_char c - 48)"
  by (simp add: digits_value_def)

lemma digits_value_to_string: "digits_value (to_string n) = n"
proof (induction n rule: to_string.induct)
  case (1 n)
  show ?case
  proof (cases "n < 10")
    case True
    then show ?thesis by (simp add: to_string.simps [of n] digits_value_def)
  next
    case False
    then show ?thesis using 1 by (simp add: to_string.simps [of n] digits_value_snoc)
  qed
qed

lemma to_string_inj: "to_string m = to_string n \<Longrightarrow> m = n"
  by (metis digits_value_to_string)

lemma to_string_last: "to_string n \<noteq> [] \<and> \<not> line_blank (last (to_string n))"
proof -
  have digit: "\<not> line_blank (char_of (48 + k))" if "k < 10" for k :: nat
  proof -
    have "of_char (char_of (48 + k)) = 48 + k" using that by simp
    then show ?thesis unfolding line_blank_def by (auto dest: arg_cong [of _ _ "of_char :: char \<Rightarrow> nat"])
  qed
  show ?thesis by (cases "n < 10") (simp_all add: to_string.simps [of n] digit)
qed

text \<open>Two codes have the same text only if they are equal.\<close>

lemma format_iphlp_error_inj: "format_iphlp_error a = format_iphlp_error b \<Longrightarrow> a = b"
  by (auto simp: format_iphlp_error_def word_unat_eq_iff dest!: to_string_inj)

text \<open>No text ends with a line break or a blank, whatever the system's message is.\<close>

lemma format_win32_error_clean:
  "format_win32_error format_message code \<noteq> [] \<and> \<not> line_blank (last (format_win32_error format_message code))"
proof -
  let ?base = "''Win32 '' @ error_word @ '' '' @ to_string (unat code)"
  have base: "?base \<noteq> []" "\<not> line_blank (last ?base)" using to_string_last [of "unat code"] by simp_all
  have "strip_back line_blank (?base @ '': '' @ message) \<noteq> []" for message
    unfolding strip_back_all by (simp add: line_blank_def)
  then have "strip_back line_blank (?base @ '': '' @ message) \<noteq> [] \<and> \<not> line_blank (last (strip_back line_blank (?base @ '': '' @ message)))" for message
    using strip_back_last by blast
  with base show ?thesis
    by (auto simp: format_win32_error_def Let_def no_error_text_def error_word_def line_blank_def split: option.splits)
qed

end
