(* ===== verification/Method_Channel.thy ===== *)
theory Method_Channel
  imports Prelude
begin

text \<open>
  The example of a Flutter host, \<^verbatim>\<open>examples/flutter/windows/runner/tunnel_method_channel.cpp\<close>: the
  channel \<open>sectunnel/control\<close> answers calls of the user interface with fixed values. The
  Flutter engine, which registers the handler and encodes the answers, is not modelled; an
  answer is the one call the handler makes on the result object.
\<close>

datatype EncodableValue = Encodable_String string | Encodable_Bool bool

datatype MethodResult =
    Success "(EncodableValue \<rightharpoonup> EncodableValue) option"
  | Error_Code string
  | NotImplemented

definition channel_name :: string where
  "channel_name = ''sectunnel/control''"

text \<open>The message text of the error answer is left out.\<close>

definition HandleMethodCall :: "string \<Rightarrow> MethodResult" where
  "HandleMethodCall method_name =
     (if method_name = ''getStatus''
      then Success (Some (Map.empty(Encodable_String ''state'' \<mapsto> Encodable_String ''disconnected'',
                                    Encodable_String ''connected'' \<mapsto> Encodable_Bool False)))
      else if method_name = ''connect'' then Error_Code ''NOT_IMPLEMENTED''
      else if method_name = ''disconnect'' then Success None
      else NotImplemented)"

text \<open>The example never reports a connection.\<close>

lemma status_never_connected:
  "HandleMethodCall m = Success (Some answer) \<Longrightarrow> answer (Encodable_String ''connected'') = Some (Encodable_Bool False)"
  by (auto simp: HandleMethodCall_def split: if_splits)

end
