(* ===== verification/Spec2Isabelle.thy ===== *)
theory Spec2Isabelle
  imports Quic_Tunnel Engine_Data Routing_Policy Console Probe App_Cleanup Error_Text Method_Channel
begin

text \<open>
  Verification of a layer-3 tunnel in C++: a client and a server exchange IP packets between
  virtual network interfaces, sealed by an inner session and carried by one QUIC stream.
  The code is \<^verbatim>\<open>src/src/\<close>, \<^verbatim>\<open>src/include/tunnel/\<close> and \<^verbatim>\<open>src/apps/\<close>; file names below are relative to
  these directories.

  \<^bold>\<open>The program and its parts.\<close> A program (\<^verbatim>\<open>client_main.cpp\<close>, \<^verbatim>\<open>server_main.cpp\<close>) reads its command
  line into a \<open>TunnelConfig\<close>, constructs a virtual interface, a transport and a \<open>TunnelEngine\<close>,
  starts the engine, runs its data plane and stops it. The engine moves its \<open>Session\<close> along
  the life cycle, opens the interface, connects the transport, lets the client's interface
  route, and relays: a packet read from the interface is sealed and sent, a payload received
  is opened and written. A server waits for its client in the data plane and returns to
  waiting after an error.

  \<^item> \<open>Prelude\<close>, \<open>Inet_Text\<close>, \<open>Cpp_Text\<close>: words, byte strings, dotted addresses and the C++ text
    operations that the components share.
  \<^item> \<open>Session\<close> (\<^verbatim>\<open>session.cpp\<close>): the state machine. \<open>lifecycle_edge\<close> is its specification, the
    guarded \<open>transition_to\<close> refines it.
  \<^item> \<open>Inner_Session\<close> (\<^verbatim>\<open>inner_session.cpp\<close>): hexadecimal keys, the plain development session,
    the AES-GCM session over BCrypt, the factory. Lemmas: exact results of seal and open on
    each branch, round trips, strictly increasing accepted numbers, distinct nonces.
    \<open>Inner_Order\<close>: what is opened is, in order, part of what was sealed.
  \<^item> \<open>Config\<close> (\<^verbatim>\<open>config.cpp\<close>): the configuration and its check, equivalent to \<open>config_policy\<close>.
  \<^item> \<open>Buffer_Pool\<close> (\<^verbatim>\<open>packet_buffer_pool.cpp\<close>, \<^verbatim>\<open>relay_stats.cpp\<close>).
  \<^item> \<open>Engine\<close> (\<^verbatim>\<open>tunnel_engine.cpp\<close>): every operation of \<open>TunnelEngine\<close>, composed as in the code;
    \<open>Engine_Trace\<close>: its steps and reachable states, and the order of its calls as a phase
    automaton; \<open>Engine_Frame\<close>: what every call keeps, the engine keeps; \<open>Engine_Progress\<close>: the
    data plane returns; \<open>Engine_Ownership\<close>, \<open>Engine_Routes\<close>: handles and routes are given back;
    \<open>Engine_Data\<close>: which packets an engine takes and writes.
  \<^item> \<open>Dev_Adapters\<close> (\<^verbatim>\<open>development_adapters.cpp\<close>): the in-process interface and transport, with
    the links on an explicit heap, so that a dangling pointer is visible.
  \<^item> \<open>Quic_Framing\<close>, \<open>Quic_Transport\<close> (\<^verbatim>\<open>quic_secure_transport.cpp\<close>), \<open>Msquic_Api\<close> (\<^verbatim>\<open>msquic_api.cpp\<close>):
    length-prefixed frames and their reassembly, the transport with its three callbacks and
    its waits, the reference-counted API table.
  \<^item> \<open>Net_Config\<close> (\<^verbatim>\<open>windows_net_config.cpp\<close>), \<open>Smart_Route\<close> (\<^verbatim>\<open>smart_route_manager.cpp\<close>),
    \<open>Wintun_Loader\<close> (\<^verbatim>\<open>wintun_loader.cpp\<close>), \<open>Wintun_Interface\<close> (\<^verbatim>\<open>wintun_virtual_interface.cpp\<close>):
    the Windows side; the interface object is composed of the loader, the configurator and
    the route manager as the class is. \<open>Routing_Policy\<close>: longest prefix match for the
    tunnel's own packets.
  \<^item> \<open>Linux_Tun\<close> (\<^verbatim>\<open>linux_tun_virtual_interface.cpp\<close>), \<open>Console\<close> (\<^verbatim>\<open>console_utf8.cpp\<close>), \<open>Error_Text\<close>
    (the texts of system error codes).
  \<^item> \<open>Apps\<close> (\<^verbatim>\<open>client_main.cpp\<close>, \<^verbatim>\<open>server_main.cpp\<close>), \<open>Probe\<close> (\<^verbatim>\<open>wintun_probe.cpp\<close>), \<open>App_Cleanup\<close>: the
    programs, also together with the interfaces they construct. \<open>Method_Channel\<close>: the handler
    of the Flutter example.
  \<^item> \<open>Relay_Path\<close>, \<open>Quic_Tunnel\<close>: two engines together, on the development adapters and over QUIC.

  \<^bold>\<open>How the code is represented.\<close> An object is a record of its members, a null pointer or handle
  is \<open>None\<close>, an operation takes the object and the world and returns result, object and world.
  An object behind a \<open>VirtualInterface\<close> or \<open>SecureTransport\<close> pointer is its table of virtual
  functions, destructor included, over a world of type \<open>'w\<close>. A failure is a value: the error
  constructor stands for the message text. Integers have their width where the code's
  arithmetic can wrap (sequence numbers, sizes on the wire, ports, addresses, counters).

  \<^bold>\<open>What is a parameter.\<close> BCrypt (\<open>bcrypt_api\<close>), Winsock and IP Helper (\<open>net_api\<close>), MsQuic
  (\<open>quic_api\<close>), the Wintun driver and the Windows loader (\<open>wintun_api\<close>), the POSIX calls
  (\<open>tun_api\<close>), files, clock, sleep and signals. What a theorem assumes of them is a named
  predicate: \<open>aead_correct\<close> (decryption inverts encryption, sizes as documented),
  \<open>forward_api_ok\<close> and \<open>inet_text_ok\<close> (the forwarding table as a set of rows, addresses as
  text), \<open>system_handles_ok\<close> and \<open>tun_api_ok\<close> (which calls take and return handles),
  \<open>stream_carries\<close> and \<open>invents_nothing\<close> (a QUIC stream carries the bytes sent, in order and
  cut anywhere, and no others), \<open>clock_advances\<close> (time passes). Each is instantiated by a
  concrete function in the witnesses of the theorems that use it.

  \<^bold>\<open>Interfaces.\<close> \<open>inner_session_channel\<close> and \<open>inner_session_link\<close> (what the engine relies on of an
  inner session; both classes provide it), \<open>buffer_recycler\<close> (the pool), \<open>handle_owner\<close> (objects
  that own system handles; both interfaces), \<open>engine_calls\<close> (a relation every call keeps; its
  extensions \<open>clocked_engine\<close>, \<open>owning_engine\<close> and \<open>self_cleaning_engine\<close> are time and
  ownership, and \<open>wintun_routes\<close> instantiates it for routes), \<open>route_pass\<close> (what one pass of
  the route manager keeps), \<open>one_way_link\<close> (what carries packets between two engines; the
  development adapters in both directions, and QUIC by \<open>quic_one_way_link\<close>).

  \<^bold>\<open>What is shown.\<close> Data path: packets cross a tunnel of two engines unchanged and in order, on
  the development adapters and over QUIC, from the construction of both engines; the stream
  framing and the inner session are inverse to their readers. Whatever the network loses,
  repeats or reorders, and whatever else is called, the packets written are in order, and at
  most once, packets taken. Security: packets and routes
  come only after the data channel opened; accepted frames never repeat; the configuration
  check and the TLS credential follow the stated policy; with a default route into the tunnel
  the server's address still leaves by another interface. Resources: whatever happens, the
  engine, the client program and the probe give back their Windows handles, and no route
  remains. Progress: data plane, refresh thread and both programs return. Some theorems
  state defects of the code; the manifest's findings name them: nonces shared by both
  directions, an unauthenticated sequence number, a QUIC transport that is never released
  after it connected, a dead client that a server keeps, a new client
  whose first packets the server refuses, a leaked descriptor on Linux, a
  dangling link in the development adapters, a stopped server that cannot restart.

  \<^bold>\<open>Loops and fuel.\<close> No definition uses fuel. The data plane (\<open>data_plane_loop\<close>) and the refresh
  thread (\<open>worker_main\<close>) are partial functions into \<open>option\<close>; that they return is proved, from
  the advancing clock and from the arrival of a stop request. All other loops are recursive
  on their data or on a measure.

  \<^bold>\<open>Concurrency.\<close> Signals are delivered where the data plane reads the stop flag, MsQuic's events
  where the transport waits or receives, a stop request of the refresh thread at each load of
  its flag; the refresh thread runs between any two calls of the engine (\<open>background\<close>).
  Operations are otherwise atomic: the mutexes of the code are not modelled.

  \<^bold>\<open>Not modelled.\<close> Failing memory allocation and the exceptions it raises; the message texts
  other than those of system error codes; what the programs print, except the probe, and the
  order in which static objects are destroyed; accessors that only return a member; the
  server's copy of \<open>read_trimmed_file\<close> and of \<open>make_transport\<close>, which repeat the client's; the
  tests, the examples in C# and Dart, the scripts, the deployment files and the third-party
  code.
\<close>

end
